(* ===== verification/Prelude.thy ===== *)
theory Prelude
  imports Main "HOL-Library.Word" "HOL-Library.AList" "HOL-Library.Sublist"
begin

text \<open>
  Shared vocabulary of the development: Go's values as the components use them.
  \<^item> \<open>'a outcome\<close>: what a Go call does: it returns a value, returns an error, or panics.
  \<^item> \<open>gomap\<close>: a Go map as an association list with distinct keys. The position of an
    entry is one possible iteration order of \<open>range\<close>, which Go leaves open; statements
    that hold for every list therefore hold for every iteration order.
  \<^item> bytes, strings (Go strings are byte sequences, so \<open>string\<close> is one \<open>char\<close> per byte),
    \<open>int\<close> as two's complement over 64 bits, \<open>strings.Split\<close>, \<open>strings.TrimSpace\<close>,
    decimal printing.
  The collection \<open>go_simps\<close> carries the rewriting of these operations for the component proofs.
\<close>

unbundle bit_operations_syntax

named_theorems go_simps \<open>rewriting for the Go vocabulary\<close>

section \<open>Outcomes of a Go call\<close>

type_synonym byte = "8 word"
type_synonym bytes = "byte list"

datatype ('e, 'a) outcome = Ok 'a | Err 'e | Panic string

definition bind_outcome :: "('e, 'a) outcome \<Rightarrow> ('a \<Rightarrow> ('e, 'b) outcome) \<Rightarrow> ('e, 'b) outcome" where
  "bind_outcome r f = (case r of Ok x \<Rightarrow> f x | Err e \<Rightarrow> Err e | Panic p \<Rightarrow> Panic p)"

definition is_panic :: "('e, 'a) outcome \<Rightarrow> bool" where
  "is_panic r = (case r of Panic _ \<Rightarrow> True | _ \<Rightarrow> False)"

text \<open>Reading a slice: Go panics with "index out of range" outside the bounds.\<close>

definition index_outcome :: "'a list \<Rightarrow> nat \<Rightarrow> ('e, 'a) outcome" where
  "index_outcome xs i = (if i < length xs then Ok (xs ! i) else Panic ''index out of range'')"

section \<open>Integers\<close>

text \<open>Go's \<open>int\<close> is 64 bits wide: every arithmetic result is reduced to its range.\<close>

definition wrap64 :: "int \<Rightarrow> int" where
  "wrap64 n = signed_take_bit 63 n"

section \<open>Maps\<close>

type_synonym ('k, 'v) gomap = "('k \<times> 'v) list"

definition gm_wf :: "('k, 'v) gomap \<Rightarrow> bool" where
  "gm_wf m \<longleftrightarrow> distinct (map fst m)"

definition gm_empty :: "('k, 'v) gomap" where
  "gm_empty = []"

definition gm_get :: "('k, 'v) gomap \<Rightarrow> 'k \<Rightarrow> 'v option" where
  "gm_get m k = map_of m k"

definition gm_put :: "'k \<Rightarrow> 'v \<Rightarrow> ('k, 'v) gomap \<Rightarrow> ('k, 'v) gomap" where
  "gm_put k v m = AList.update k v m"

definition gm_del :: "'k \<Rightarrow> ('k, 'v) gomap \<Rightarrow> ('k, 'v) gomap" where
  "gm_del k m = AList.delete k m"

definition gm_keys :: "('k, 'v) gomap \<Rightarrow> 'k list" where
  "gm_keys m = map fst m"

definition gm_vals :: "('k, 'v) gomap \<Rightarrow> 'v list" where
  "gm_vals m = map snd m"

section \<open>Strings and bytes\<close>

definition bytes_of_string :: "string \<Rightarrow> bytes" where
  "bytes_of_string s = map (\<lambda>c. of_nat (of_char c)) s"

definition string_of_bytes :: "bytes \<Rightarrow> string" where
  "string_of_bytes bs = map (\<lambda>b. char_of (unat b)) bs"

text \<open>
  \<open>strings.Split\<close> with a one-byte separator: the pieces between the separators, one more than
  there are separators.
\<close>

fun split_on :: "char \<Rightarrow> string \<Rightarrow> string list" where
  "split_on c [] = [[]]"
| "split_on c (x # xs) =
     (if x = c then [] # split_on c xs
      else (case split_on c xs of [] \<Rightarrow> [[x]] | p # ps \<Rightarrow> (x # p) # ps))"

fun join_with :: "char \<Rightarrow> string list \<Rightarrow> string" where
  "join_with c [] = []"
| "join_with c [p] = p"
| "join_with c (p # q # ps) = p @ c # join_with c (q # ps)"

text \<open>
  \<open>strings.TrimSpace\<close> removes leading and trailing Unicode white space. Over the bytes of a
  string this is the removal of the UTF-8 encodings of the White\_Space code points.
\<close>

definition space_encodings :: "nat list list" where
  "space_encodings =
     [[9], [10], [11], [12], [13], [32],
      [0xC2, 0x85], [0xC2, 0xA0], [0xE1, 0x9A, 0x80],
      [0xE2, 0x80, 0x80], [0xE2, 0x80, 0x81], [0xE2, 0x80, 0x82], [0xE2, 0x80, 0x83],
      [0xE2, 0x80, 0x84], [0xE2, 0x80, 0x85], [0xE2, 0x80, 0x86], [0xE2, 0x80, 0x87],
      [0xE2, 0x80, 0x88], [0xE2, 0x80, 0x89], [0xE2, 0x80, 0x8A],
      [0xE2, 0x80, 0xA8], [0xE2, 0x80, 0xA9], [0xE2, 0x80, 0xAF], [0xE2, 0x81, 0x9F],
      [0xE3, 0x80, 0x80]]"

function trim_prefixes :: "string list \<Rightarrow> string \<Rightarrow> string" where
  "trim_prefixes es s =
     (case find (\<lambda>e. e \<noteq> [] \<and> prefix e s) es of
        None \<Rightarrow> s
      | Some e \<Rightarrow> trim_prefixes es (drop (length e) s))"
  by pat_completeness auto
termination
proof (relation "measure (\<lambda>(es, s). length s)", goal_cases)
  case 1
  show ?case by simp
next
  case (2 es s e)
  then have "e \<noteq> [] \<and> prefix e s"
    by (auto simp: find_Some_iff)
  then show ?case
    by (cases e; cases s) auto
qed

declare trim_prefixes.simps [simp del]

definition TrimSpace :: "string \<Rightarrow> string" where
  "TrimSpace s =
     (let es = map (map char_of) space_encodings
      in rev (trim_prefixes (map rev es) (rev (trim_prefixes es s))))"

text \<open>\<open>strconv.Itoa\<close> and \<open>strconv.FormatInt(_, 10)\<close>.\<close>

fun digits :: "nat \<Rightarrow> string" where
  "digits n = (if n < 10 then [char_of (48 + n)] else digits (n div 10) @ [char_of (48 + n mod 10)])"

declare digits.simps [simp del]

definition Itoa :: "int \<Rightarrow> string" where
  "Itoa n = (if n < 0 then CHR ''-'' # digits (nat (- n)) else digits (nat n))"

section \<open>Lemmas\<close>

lemma bind_outcome_simps [simp, go_simps]:
  "bind_outcome (Ok x) f = f x"
  "bind_outcome (Err e) f = Err e"
  "bind_outcome (Panic p) f = Panic p"
  by (simp_all add: bind_outcome_def)

lemma bind_outcome_Ok [go_simps]:
  "bind_outcome r f = Ok y \<longleftrightarrow> (\<exists>x. r = Ok x \<and> f x = Ok y)"
  by (cases r) simp_all

lemma is_panic_simps [simp]:
  "\<not> is_panic (Ok x)" "\<not> is_panic (Err e)" "is_panic (Panic p)"
  by (simp_all add: is_panic_def)

lemma index_outcome_Ok [simp, go_simps]: "i < length xs \<Longrightarrow> index_outcome xs i = Ok (xs ! i)"
  by (simp add: index_outcome_def)

lemma index_outcome_panic [simp, go_simps]:
  "length xs \<le> i \<Longrightarrow> index_outcome xs i = Panic ''index out of range''"
  by (simp add: index_outcome_def)

lemma wrap64_id [simp]: "- (2 ^ 63) \<le> n \<Longrightarrow> n < 2 ^ 63 \<Longrightarrow> wrap64 n = n"
  by (simp add: wrap64_def signed_take_bit_int_eq_self_iff)

subsection \<open>Maps\<close>

lemma gm_get_empty [simp, go_simps]: "gm_get gm_empty k = None"
  by (simp add: gm_get_def gm_empty_def)

lemma gm_get_put [simp, go_simps]: "gm_get (gm_put k v m) k' = (if k' = k then Some v else gm_get m k')"
  by (simp add: gm_get_def gm_put_def update_conv')

lemma gm_get_del [simp, go_simps]: "gm_get (gm_del k m) k' = (if k' = k then None else gm_get m k')"
  by (simp add: gm_get_def gm_del_def delete_conv')

lemma gm_wf_empty [simp]: "gm_wf gm_empty"
  by (simp add: gm_wf_def gm_empty_def)

lemma gm_wf_put [simp]: "gm_wf m \<Longrightarrow> gm_wf (gm_put k v m)"
  by (simp add: gm_wf_def gm_put_def distinct_update)

lemma gm_wf_del [simp]: "gm_wf m \<Longrightarrow> gm_wf (gm_del k m)"
  by (simp add: gm_wf_def gm_del_def distinct_delete)

lemma gm_keys_get: "k \<in> set (gm_keys m) \<longleftrightarrow> gm_get m k \<noteq> None"
  by (simp add: gm_keys_def gm_get_def map_of_eq_None_iff)

lemma gm_vals_get: "gm_wf m \<Longrightarrow> v \<in> set (gm_vals m) \<longleftrightarrow> (\<exists>k. gm_get m k = Some v)"
  by (force simp: gm_vals_def gm_get_def gm_wf_def)

lemma gm_map_vals [simp]:
  "gm_wf (map (\<lambda>(k, v). (k, f v)) m) = gm_wf m"
  "gm_get (map (\<lambda>(k, v). (k, f v)) m) k = map_option f (gm_get m k)"
  by (simp_all add: gm_wf_def gm_get_def map_of_map comp_def case_prod_beta)

lemma gm_get_Nil [simp]: "gm_get [] k = None"
  by (simp add: gm_get_def)

lemma gm_get_Cons: "gm_get ((k, v) # m) k' = (if k' = k then Some v else gm_get m k')"
  by (simp add: gm_get_def)

lemma gm_nonempty_get: "m \<noteq> [] \<longleftrightarrow> (\<exists>k. gm_get m k \<noteq> None)"
  by (cases m) (auto simp: gm_get_def)

subsection \<open>Strings\<close>

lemma string_of_bytes_of_string [simp]: "string_of_bytes (bytes_of_string s) = s"
proof -
  have "char_of (unat (of_nat (of_char c) :: byte)) = c" for c
    by (simp add: unat_of_nat)
  then show ?thesis
    by (simp add: string_of_bytes_def bytes_of_string_def comp_def)
qed

lemma length_bytes_of_string [simp]: "length (bytes_of_string s) = length s"
  by (simp add: bytes_of_string_def)

lemma split_on_not_Nil [simp]: "split_on c s \<noteq> []"
  by (induction s) (auto split: list.splits)

lemma join_split: "join_with c (split_on c s) = s"
proof (induction s)
  case Nil
  then show ?case by simp
next
  case (Cons x xs)
  then show ?case
    by (cases "split_on c xs"; cases "tl (split_on c xs)") auto
qed

lemma split_on_no_sep: "c \<notin> set s \<Longrightarrow> split_on c s = [s]"
  by (induction s) auto

lemma split_on_append: "c \<notin> set p \<Longrightarrow> split_on c (p @ c # s) = p # split_on c s"
  by (induction p) auto

lemma split_on_pieces: "p \<in> set (split_on c s) \<Longrightarrow> c \<notin> set p"
proof (induction s arbitrary: p)
  case Nil
  then show ?case by simp
next
  case (Cons x xs)
  show ?case
    using Cons by (cases "split_on c xs") (auto split: if_splits)
qed

subsection \<open>Lists\<close>

text \<open>Replacing an element of a list in a sum over it.\<close>

lemma sum_list_map_update:
  fixes f :: "'a \<Rightarrow> 'b::comm_monoid_add"
  assumes "i < length xs"
  shows "sum_list (map f (xs[i := y])) + f (xs ! i) = sum_list (map f xs) + f y"
  using assms
proof (induction xs arbitrary: i)
  case Nil
  then show ?case by simp
next
  case (Cons x xs)
  then show ?case by (cases i) (simp_all add: add_ac)
qed

lemma sum_list_pos: "0 < sum_list (map (w :: 'a \<Rightarrow> nat) xs) \<Longrightarrow> \<exists>i < length xs. 0 < w (xs ! i)"
proof (induction xs)
  case Nil
  then show ?case by simp
next
  case (Cons x xs)
  show ?case
  proof (cases "w x > 0")
    case True
    then show ?thesis by (intro exI [of _ 0]) simp
  next
    case False
    then obtain i where "i < length xs" "0 < w (xs ! i)" using Cons by auto
    then show ?thesis by (intro exI [of _ "Suc i"]) simp
  qed
qed

section \<open>Codecs\<close>

text \<open>
  A printer \<open>enc\<close> and a parser \<open>dec\<close> that reads back, of every printable value, its \<open>view\<close>. Two printed values then
  look the same only when their views are the same.
\<close>

locale codec =
  fixes enc :: "'a \<Rightarrow> 'w" and dec :: "'w \<Rightarrow> ('e, 'b) outcome" and printable :: "'a \<Rightarrow> bool" and view :: "'a \<Rightarrow> 'b"
  assumes dec_enc: "printable x \<Longrightarrow> dec (enc x) = Ok (view x)"
begin

lemma enc_inj: "printable x \<Longrightarrow> printable y \<Longrightarrow> enc x = enc y \<Longrightarrow> view x = view y"
  using dec_enc [of x] dec_enc [of y] by simp

lemma map_enc_inj: "\<forall>x \<in> set xs. printable x \<Longrightarrow> \<forall>y \<in> set ys. printable y \<Longrightarrow> map enc xs = map enc ys \<Longrightarrow> map view xs = map view ys"
proof (induction xs arbitrary: ys)
  case (Cons x xs)
  then show ?case by (cases ys) (auto dest: enc_inj)
qed simp

end

section \<open>Step relations\<close>

text \<open>
  Goroutines that share an object are modelled by step relations. \<open>step_invariant\<close>: what every step keeps, every run
  keeps. \<open>step_progress\<close>: when every state of a set that has not reached its goal has a step within the set that makes it
  lighter, the goal can be reached.
\<close>

locale step_invariant =
  fixes step :: "'s \<Rightarrow> 's \<Rightarrow> bool" and inv :: "'s \<Rightarrow> bool"
  assumes kept: "step s s' \<Longrightarrow> inv s \<Longrightarrow> inv s'"
begin

lemma steps: "step\<^sup>*\<^sup>* s s' \<Longrightarrow> inv s \<Longrightarrow> inv s'"
  by (induction rule: rtranclp_induct) (auto intro: kept)

end

locale step_progress =
  fixes step :: "'s \<Rightarrow> 's \<Rightarrow> bool" and inv :: "'s \<Rightarrow> bool" and weight :: "'s \<Rightarrow> nat" and goal :: "'s \<Rightarrow> bool"
  assumes lighter: "inv s \<Longrightarrow> \<not> goal s \<Longrightarrow> \<exists>s'. step s s' \<and> inv s' \<and> weight s' < weight s"
begin

lemma reaches: "inv s \<Longrightarrow> \<exists>s'. step\<^sup>*\<^sup>* s s' \<and> inv s' \<and> goal s'"
proof (induction "weight s" arbitrary: s rule: less_induct)
  case less
  show ?case
  proof (cases "goal s")
    case False
    then show ?thesis using lighter [OF less.prems False] less.hyps by (meson converse_rtranclp_into_rtranclp)
  qed (use less.prems in blast)
qed

end

end
