(* ===== verification/Packet.thy ===== *)
theory Packet
  imports Prelude
begin

text \<open>
  The Pomelo packet layer: \<open>conn/packet\<close> (the packet and its type constants) and
  \<open>conn/codec\<close> (header parsing, the encoder and the stream decoder).
  A packet on the wire is one type byte, three big-endian length bytes and the payload.
  \<open>PacketDecode\<close> is the decoder's loop; \<open>frames\<close> is the abstract specification, a
  recursive reading of the stream, and \<open>PacketDecode_frames\<close> the refinement between them.
\<close>

section \<open>Data\<close>

record packet =
  pkt_Type :: byte
  pkt_Length :: int
  pkt_Data :: bytes

definition Handshake :: byte where "Handshake = 0x01"
definition HandshakeAck :: byte where "HandshakeAck = 0x02"
definition Heartbeat :: byte where "Heartbeat = 0x03"
definition DataPacket :: byte where "DataPacket = 0x04"

definition HeadLength :: nat where "HeadLength = 4"
definition MaxPacketSize :: int where "MaxPacketSize = push_bit 24 1"

datatype codec_err = ErrInvalidPomeloHeader | ErrWrongPomeloPacketType | ErrPacketSizeExcced

section \<open>Operations\<close>

definition BytesToInt :: "bytes \<Rightarrow> int" where
  "BytesToInt b = foldl (\<lambda>result v. wrap64 (wrap64 (push_bit 8 result) + uint v)) 0 b"

definition IntToBytes :: "int \<Rightarrow> bytes" where
  "IntToBytes n =
     [word_of_int (drop_bit 16 n AND 0xFF), word_of_int (drop_bit 8 n AND 0xFF),
      word_of_int (n AND 0xFF)]"

definition ParseHeader :: "bytes \<Rightarrow> (codec_err, int \<times> byte) outcome" where
  "ParseHeader header =
     (if length header \<noteq> HeadLength then Err ErrInvalidPomeloHeader
      else let ty = header ! 0 in
        if ty < Handshake \<or> ty > DataPacket then Err ErrWrongPomeloPacketType
        else let sz = BytesToInt (drop 1 header) in
          if sz > MaxPacketSize then Err ErrPacketSizeExcced
          else Ok (sz, ty))"

definition PacketEncode :: "byte \<Rightarrow> bytes \<Rightarrow> (codec_err, bytes) outcome" where
  "PacketEncode ty data =
     (if ty < Handshake \<or> ty > DataPacket then Err ErrWrongPomeloPacketType
      else if int (length data) > MaxPacketSize then Err ErrPacketSizeExcced
      else Ok (ty # IntToBytes (int (length data)) @ data))"

text \<open>\<open>forward\<close> takes the header off the buffer: \<open>buf.Next(HeadLength)\<close>.\<close>

definition forward :: "bytes \<Rightarrow> (codec_err, int \<times> byte) outcome \<times> bytes" where
  "forward buf = (ParseHeader (take HeadLength buf), drop HeadLength buf)"

text \<open>
  The loop of \<open>Decode\<close>: its state is the size and type of the pending packet, the unread
  buffer and the packets found so far. \<open>buf.Next(size)\<close> with \<open>size \<le> buf.Len()\<close> takes
  exactly \<open>size\<close> bytes.
\<close>

function decode_loop :: "int \<Rightarrow> byte \<Rightarrow> bytes \<Rightarrow> packet list \<Rightarrow> (codec_err, packet list) outcome"
  where
  "decode_loop sz ty buf packets =
     (if sz \<le> int (length buf) then
        let p = \<lparr>pkt_Type = ty, pkt_Length = sz, pkt_Data = take (nat sz) buf\<rparr>;
            packets' = packets @ [p];
            buf' = drop (nat sz) buf
        in if length buf' < HeadLength then Ok packets'
           else (case fst (forward buf') of
                   Ok (sz', ty') \<Rightarrow> decode_loop sz' ty' (snd (forward buf')) packets'
                 | Err e \<Rightarrow> Err e
                 | Panic p \<Rightarrow> Panic p)
      else Ok packets)"
  by pat_completeness auto
termination
  by (relation "measure (\<lambda>(sz, ty, buf, packets). length buf)")
     (auto simp: forward_def HeadLength_def)

declare decode_loop.simps [simp del]

definition PacketDecode :: "bytes \<Rightarrow> (codec_err, packet list) outcome" where
  "PacketDecode data =
     (if length data < HeadLength then Ok []
      else (case fst (forward data) of
              Ok (sz, ty) \<Rightarrow> decode_loop sz ty (snd (forward data)) []
            | Err e \<Rightarrow> Err e
            | Panic p \<Rightarrow> Panic p))"

section \<open>Abstract specification: the frames of a byte stream\<close>

definition wire :: "packet \<Rightarrow> bytes" where
  "wire p = pkt_Type p # IntToBytes (pkt_Length p) @ pkt_Data p"

definition packet_ok :: "packet \<Rightarrow> bool" where
  "packet_ok p \<longleftrightarrow> Handshake \<le> pkt_Type p \<and> pkt_Type p \<le> DataPacket \<and>
     pkt_Length p = int (length (pkt_Data p)) \<and> length (pkt_Data p) < 2 ^ 24"

function frames :: "bytes \<Rightarrow> (codec_err, packet list) outcome" where
  "frames data =
     (if length data < HeadLength then Ok []
      else (case ParseHeader (take HeadLength data) of
              Ok (sz, ty) \<Rightarrow>
                let body = drop HeadLength data in
                if int (length body) < sz then Ok []
                else bind_outcome (frames (drop (nat sz) body)) (\<lambda>ps.
                       Ok (\<lparr>pkt_Type = ty, pkt_Length = sz, pkt_Data = take (nat sz) body\<rparr> # ps))
            | Err e \<Rightarrow> Err e
            | Panic p \<Rightarrow> Panic p))"
  by pat_completeness auto
termination
  by (relation "measure length") (auto simp: HeadLength_def)

declare frames.simps [simp del]

section \<open>Header arithmetic\<close>

lemmas packet_consts = Handshake_def HandshakeAck_def Heartbeat_def DataPacket_def
  HeadLength_def MaxPacketSize_def

lemma uint_byte_bounds: "0 \<le> uint (b :: byte) \<and> uint b < 256"
  using uint_bounded [of b] by simp

lemma wrap64_small: "0 \<le> n \<Longrightarrow> n < 4294967296 \<Longrightarrow> wrap64 n = n"
  by (rule wrap64_id) simp_all

lemma BytesToInt_3: "BytesToInt [a, b, c] = uint a * 65536 + uint b * 256 + uint c"
proof -
  have "0 \<le> uint a" "uint a < 256" "0 \<le> uint b" "uint b < 256" "0 \<le> uint c" "uint c < 256"
    using uint_byte_bounds by auto
  moreover from this have
    "wrap64 (uint a) = uint a" "wrap64 (uint a * 256) = uint a * 256"
    "wrap64 (uint a * 256 + uint b) = uint a * 256 + uint b"
    "wrap64 ((uint a * 256 + uint b) * 256) = (uint a * 256 + uint b) * 256"
    "wrap64 ((uint a * 256 + uint b) * 256 + uint c) = (uint a * 256 + uint b) * 256 + uint c"
    by (simp_all add: wrap64_small)
  ultimately show ?thesis
    by (simp add: BytesToInt_def push_bit_eq_mult wrap64_small)
qed

lemma BytesToInt_3_bounds:
  assumes "length b = 3"
  shows "0 \<le> BytesToInt b \<and> BytesToInt b < 2 ^ 24"
proof -
  obtain x y z where b: "b = [x, y, z]"
    using assms by (auto simp: numeral_3_eq_3 length_Suc_conv)
  show ?thesis
    using uint_byte_bounds [of x] uint_byte_bounds [of y] uint_byte_bounds [of z]
    by (simp add: b BytesToInt_3)
qed

lemma byte_div_mod:
  assumes "0 \<le> r" "r < (256 :: int)"
  shows "(a * 256 + r) div 256 = a" "(a * 256 + r) mod 256 = r"
  using assms by (simp_all add: div_pos_pos_trivial mod_pos_pos_trivial)

lemma word_of_int_byte: "n mod 256 = uint w \<Longrightarrow> word_of_int n = (w :: byte)"
  by (simp add: word_uint_eq_iff uint_word_of_int)

lemma and_255_mod: "(n :: int) AND 255 = n mod 256"
proof -
  have "n AND mask 8 = n mod 2 ^ 8"
    by (simp only: take_bit_eq_mask [symmetric] take_bit_eq_mod)
  then show ?thesis
    by (simp add: mask_eq_exp_minus_1)
qed

lemma IntToBytes_mod:
  "IntToBytes n = [word_of_int (n div 65536), word_of_int (n div 256), word_of_int n]"
  by (simp add: IntToBytes_def and_255_mod drop_bit_eq_div word_of_int_eq_iff take_bit_eq_mod)

lemma BytesToInt_IntToBytes: "BytesToInt (IntToBytes n) = n mod 2 ^ 24"
proof -
  have "n mod (256 * 65536) = 256 * (n div 256 mod 65536) + n mod 256"
    by (rule zmod_zmult2_eq) simp
  moreover have "n div 256 mod (256 * 256) = 256 * (n div 256 div 256 mod 256) + n div 256 mod 256"
    by (rule zmod_zmult2_eq) simp
  moreover have "n div (256 * 256) = n div 256 div 256"
    by (rule zdiv_zmult2_eq) simp
  ultimately have "(n div 65536 mod 256) * 65536 + (n div 256 mod 256) * 256 + n mod 256 = n mod 16777216"
    by simp
  then show ?thesis
    by (simp add: IntToBytes_mod BytesToInt_3 uint_word_of_int)
qed

lemma length_IntToBytes [simp]: "length (IntToBytes n) = 3"
  by (simp add: IntToBytes_def)

lemma IntToBytes_BytesToInt:
  assumes "length b = 3"
  shows "IntToBytes (BytesToInt b) = b"
proof -
  obtain x y z where b: "b = [x, y, z]"
    using assms by (auto simp: numeral_3_eq_3 length_Suc_conv)
  have u: "0 \<le> uint x" "uint x < 256" "0 \<le> uint y" "uint y < 256" "0 \<le> uint z" "uint z < 256"
    using uint_byte_bounds by auto
  define v where "v = uint x * 256 + uint y"
  have v: "uint x * 65536 + uint y * 256 + uint z = v * 256 + uint z"
    by (simp add: v_def)
  have "(uint x * 65536 + uint y * 256 + uint z) div 256 = v"
    "(uint x * 65536 + uint y * 256 + uint z) mod 256 = uint z"
    using u unfolding v by (simp_all add: byte_div_mod)
  moreover have "v div 256 = uint x" "v mod 256 = uint y"
    using u by (simp_all add: v_def byte_div_mod)
  moreover have "n div 65536 = n div 256 div 256" for n :: int
    using zdiv_zmult2_eq [of 256 n 256] by simp
  ultimately have "(uint x * 65536 + uint y * 256 + uint z) div 65536 = uint x"
    "((uint x * 65536 + uint y * 256 + uint z) div 256) mod 256 = uint y"
    "(uint x * 65536 + uint y * 256 + uint z) mod 256 = uint z"
    by simp_all
  then have "word_of_int ((uint x * 65536 + uint y * 256 + uint z) div 65536) = x"
    "word_of_int ((uint x * 65536 + uint y * 256 + uint z) div 256) = y"
    "word_of_int (uint x * 65536 + uint y * 256 + uint z) = z"
    using u by - (rule word_of_int_byte, simp)+
  then show ?thesis
    by (simp add: b BytesToInt_3 IntToBytes_mod)
qed

lemma ParseHeader_bounds:
  assumes "ParseHeader h = Ok (sz, ty)"
  shows "0 \<le> sz \<and> sz < 2 ^ 24 \<and> Handshake \<le> ty \<and> ty \<le> DataPacket \<and> h = ty # IntToBytes sz"
proof -
  from assms have len: "length h = 4" and t: "ty = h ! 0" "Handshake \<le> ty" "ty \<le> DataPacket"
    and sz: "sz = BytesToInt (drop 1 h)"
    by (auto simp: ParseHeader_def Let_def HeadLength_def split: if_splits)
  have "h = ty # drop 1 h"
    using len t by (cases h) auto
  moreover have "IntToBytes sz = drop 1 h"
    using len by (simp add: sz IntToBytes_BytesToInt)
  ultimately show ?thesis
    using t BytesToInt_3_bounds [of "drop 1 h"] len by (simp add: sz)
qed

lemma ParseHeader_wire:
  assumes "Handshake \<le> ty" "ty \<le> DataPacket" "0 \<le> n" "n < 2 ^ 24"
  shows "ParseHeader (ty # IntToBytes n) = Ok (n, ty)"
  using assms by (simp add: ParseHeader_def Let_def HeadLength_def BytesToInt_IntToBytes
      MaxPacketSize_def not_less)

lemma ParseHeader_not_panic [simp]: "ParseHeader h \<noteq> Panic p"
  by (simp add: ParseHeader_def Let_def)

section \<open>The loop implements the frame specification\<close>

lemma decode_loop_frames:
  assumes "0 \<le> sz"
  shows "decode_loop sz ty buf packets =
    (if int (length buf) < sz then Ok packets
     else bind_outcome (frames (drop (nat sz) buf)) (\<lambda>ps.
            Ok (packets @ \<lparr>pkt_Type = ty, pkt_Length = sz, pkt_Data = take (nat sz) buf\<rparr> # ps)))"
  using assms
proof (induction sz ty buf packets rule: decode_loop.induct)
  case (1 sz ty buf packets)
  let ?p = "\<lparr>pkt_Type = ty, pkt_Length = sz, pkt_Data = take (nat sz) buf\<rparr>"
  let ?buf = "drop (nat sz) buf"
  show ?case
  proof (cases "sz \<le> int (length buf) \<and> \<not> length ?buf < HeadLength")
    case False
    then show ?thesis
      by (auto simp: decode_loop.simps [of sz] frames.simps [of ?buf] Let_def)
  next
    case True
    show ?thesis
    proof (cases "ParseHeader (take HeadLength ?buf)")
      case (Ok st)
      obtain sz' ty' where st: "st = (sz', ty')" by (cases st)
      have "0 \<le> sz'"
        using ParseHeader_bounds [of "take HeadLength ?buf" sz' ty'] Ok st by simp
      with 1(1) [OF _ refl refl refl] True Ok st show ?thesis
        by (auto simp: decode_loop.simps [of sz] frames.simps [of ?buf] forward_def Let_def
            bind_outcome_def split: outcome.splits)
    qed (use True in \<open>auto simp: decode_loop.simps [of sz] frames.simps [of ?buf] forward_def Let_def\<close>)
  qed
qed

lemma PacketDecode_frames: "PacketDecode data = frames data"
proof (cases "\<not> length data < HeadLength")
  case True
  show ?thesis
  proof (cases "ParseHeader (take HeadLength data)")
    case (Ok st)
    obtain sz ty where st: "st = (sz, ty)" by (cases st)
    have "0 \<le> sz"
      using ParseHeader_bounds [of "take HeadLength data" sz ty] Ok st by simp
    with True Ok st show ?thesis
      by (simp add: PacketDecode_def frames.simps [of data] forward_def decode_loop_frames Let_def)
  qed (use True in \<open>simp_all add: PacketDecode_def frames.simps [of data] forward_def\<close>)
qed (simp add: PacketDecode_def frames.simps [of data])

section \<open>Properties of the codec\<close>

lemma frames_wire:
  assumes "packet_ok p"
  shows "frames (wire p @ rest) = bind_outcome (frames rest) (\<lambda>ps. Ok (p # ps))"
proof -
  have "take HeadLength (wire p @ rest) = pkt_Type p # IntToBytes (pkt_Length p)"
    and "drop HeadLength (wire p @ rest) = pkt_Data p @ rest"
    by (simp_all add: wire_def HeadLength_def numeral_eq_Suc)
  moreover have "ParseHeader (pkt_Type p # IntToBytes (pkt_Length p)) = Ok (pkt_Length p, pkt_Type p)"
    using assms by (intro ParseHeader_wire) (auto simp: packet_ok_def)
  moreover have "\<not> length (wire p @ rest) < HeadLength"
    by (simp add: wire_def HeadLength_def)
  moreover have "\<not> int (length (pkt_Data p @ rest)) < pkt_Length p"
    using assms by (simp add: packet_ok_def)
  ultimately have "frames (wire p @ rest) =
      bind_outcome (frames (drop (nat (pkt_Length p)) (pkt_Data p @ rest))) (\<lambda>ps.
        Ok (\<lparr>pkt_Type = pkt_Type p, pkt_Length = pkt_Length p,
              pkt_Data = take (nat (pkt_Length p)) (pkt_Data p @ rest)\<rparr> # ps))"
    by (simp only: frames.simps [of "wire p @ rest"] Let_def outcome.case prod.case if_False)
  moreover have "nat (pkt_Length p) = length (pkt_Data p)"
    using assms by (simp add: packet_ok_def)
  ultimately show ?thesis
    by (cases p) simp
qed

lemma frames_concat:
  assumes "\<forall>p \<in> set ps. packet_ok p" "length rest < HeadLength"
  shows "frames (concat (map wire ps) @ rest) = Ok ps"
  using assms by (induction ps) (simp_all add: frames_wire frames.simps [of rest])

text \<open>The byte stream of a list of packets determines the list: packets frame themselves.\<close>

interpretation packets: codec "\<lambda>ps. concat (map wire ps)" PacketDecode "\<lambda>ps. \<forall>p \<in> set ps. packet_ok p" "\<lambda>ps. ps"
  using frames_concat [of _ "[]"] by unfold_locales (simp add: PacketDecode_frames HeadLength_def)

lemma frames_prefix:
  assumes "frames data = Ok ps"
  shows "(\<forall>p \<in> set ps. packet_ok p) \<and>
    (\<exists>rest. data = concat (map wire ps) @ rest \<and> frames rest = Ok [])"
  using assms
proof (induction data arbitrary: ps rule: frames.induct)
  case (1 data)
  show ?case
  proof (cases "length data < HeadLength")
    case True
    with 1(2) show ?thesis by (simp add: frames.simps [of data])
  next
    case False
    with 1(2) obtain sz ty where h: "ParseHeader (take HeadLength data) = Ok (sz, ty)"
      by (auto simp: frames.simps [of data] split: outcome.splits)
    let ?body = "drop HeadLength data"
    let ?p = "\<lparr>pkt_Type = ty, pkt_Length = sz, pkt_Data = take (nat sz) ?body\<rparr>"
    note b = ParseHeader_bounds [OF h]
    show ?thesis
    proof (cases "int (length ?body) < sz")
      case True
      with 1(2) False h show ?thesis by (simp add: frames.simps [of data])
    next
      case body: False
      with 1(2) False h obtain qs where qs: "frames (drop (nat sz) ?body) = Ok qs" and ps: "ps = ?p # qs"
        by (auto simp: frames.simps [of data] bind_outcome_Ok)
      from 1(1) [OF False h refl refl body qs] obtain rest where
        ok: "\<forall>p \<in> set qs. packet_ok p" and
        rest: "drop (nat sz) ?body = concat (map wire qs) @ rest" "frames rest = Ok []"
        by auto
      have "data = take HeadLength data @ take (nat sz) ?body @ drop (nat sz) ?body"
        by (simp only: append_take_drop_id)
      also have "\<dots> = wire ?p @ drop (nat sz) ?body"
        using b by (simp add: wire_def)
      finally have "data = concat (map wire ps) @ rest"
        using rest by (simp add: ps)
      moreover have "packet_ok ?p"
        using b body by (auto simp: packet_ok_def nat_less_iff)
      ultimately show ?thesis using ok rest ps by auto
    qed
  qed
qed

lemma PacketEncode_wire:
  assumes "PacketEncode ty data = Ok bs" "length data < 2 ^ 24"
  shows "packet_ok \<lparr>pkt_Type = ty, pkt_Length = int (length data), pkt_Data = data\<rparr> \<and>
    bs = wire \<lparr>pkt_Type = ty, pkt_Length = int (length data), pkt_Data = data\<rparr>"
  using assms by (auto simp: PacketEncode_def packet_ok_def wire_def not_less split: if_splits)

text \<open>
  C2: decoding a stream of encoded packets returns exactly these packets, in order. Any list of
  payloads that the encoder accepts and that are shorter than 2^24 bytes, encoded and
  concatenated, followed by fewer than four stray bytes, decodes to the list itself.
\<close>

theorem packet_stream_roundtrip:
  assumes enc: "list_all2 (\<lambda>p bs. PacketEncode (pkt_Type p) (pkt_Data p) = Ok bs) ps bss"
    and len: "\<forall>p \<in> set ps. pkt_Length p = int (length (pkt_Data p)) \<and> length (pkt_Data p) < 2 ^ 24"
    and rest: "length rest < HeadLength"
  shows "PacketDecode (concat bss @ rest) = Ok ps"
proof -
  have "\<forall>p \<in> set ps. packet_ok p" and "bss = map wire ps"
    using enc len
    by (induction rule: list_all2_induct)
       (auto dest!: PacketEncode_wire simp: packet_ok_def wire_def)
  then show ?thesis
    using rest by (simp add: PacketDecode_frames frames_concat)
qed

theorem packet_stream_roundtrip_witness:
  "PacketDecode (concat [[1, 0, 0, 2, 7, 8], [4, 0, 0, 0]] @ [9]) =
     Ok [\<lparr>pkt_Type = 1, pkt_Length = 2, pkt_Data = [7, 8]\<rparr>,
         \<lparr>pkt_Type = 4, pkt_Length = 0, pkt_Data = []\<rparr>]"
  by (rule packet_stream_roundtrip)
     (simp_all add: PacketEncode_def packet_consts IntToBytes_mod)



text \<open>
  The header parser never reports an oversized packet. Three length bytes denote less than
  \<open>MaxPacketSize\<close> = 2^24, so the \<open>ErrPacketSizeExcced\<close> branch of \<open>ParseHeader\<close>
  is dead and every accepted header gives a size in range and a legal type.
\<close>

lemma ParseHeader_range:
  "ParseHeader h \<noteq> Err ErrPacketSizeExcced \<and>
   (ParseHeader h = Ok (sz, ty) \<longrightarrow>
      0 \<le> sz \<and> sz < MaxPacketSize \<and> Handshake \<le> ty \<and> ty \<le> DataPacket \<and> h = ty # IntToBytes sz)"
proof
  show "ParseHeader h \<noteq> Err ErrPacketSizeExcced"
    using BytesToInt_3_bounds [of "drop 1 h"]
    by (auto simp: ParseHeader_def Let_def HeadLength_def MaxPacketSize_def)
  show "ParseHeader h = Ok (sz, ty) \<longrightarrow>
      0 \<le> sz \<and> sz < MaxPacketSize \<and> Handshake \<le> ty \<and> ty \<le> DataPacket \<and> h = ty # IntToBytes sz"
    using ParseHeader_bounds [of h sz ty] by (simp add: MaxPacketSize_def)
qed

text \<open>
  The encoder's size check lets one size too many through. A payload of exactly
  \<open>MaxPacketSize\<close> bytes is encoded without error, but its length does not fit into three
  bytes: the header says 0, and the stream decoder never returns the payload that was sent.
\<close>

lemma PacketEncode_max_size:
  assumes "Handshake \<le> ty" "ty \<le> DataPacket" "int (length data) = MaxPacketSize"
  shows "PacketEncode ty data = Ok (ty # 0 # 0 # 0 # data) \<and>
    PacketDecode (ty # 0 # 0 # 0 # data) \<noteq>
      Ok [\<lparr>pkt_Type = ty, pkt_Length = int (length data), pkt_Data = data\<rparr>]"
proof
  have len: "int (length data) = 16777216"
    using assms by (simp add: MaxPacketSize_def)
  show "PacketEncode ty data = Ok (ty # 0 # 0 # 0 # data)"
    using assms len by (auto simp: PacketEncode_def IntToBytes_mod MaxPacketSize_def)
  show "PacketDecode (ty # 0 # 0 # 0 # data) \<noteq>
      Ok [\<lparr>pkt_Type = ty, pkt_Length = int (length data), pkt_Data = data\<rparr>]"
    using frames_prefix [of "ty # 0 # 0 # 0 # data"] len
    by (fastforce simp: PacketDecode_frames packet_ok_def)
qed

end
