(* ===== verification/Errors.thy ===== *)
theory Errors
  imports Prelude
begin

text \<open>
  \<open>errors/errors.go\<close> and \<open>errors/code.go\<close>: the error with a code and metadata that the
  framework sends over the wire, and the error constants of \<open>constants/errors.go\<close> that the
  modelled code returns. A Go error is \<open>goerror\<close>: the framework's own error, a plain one, or
  one that wraps others (\<open>fmt.Errorf\<close> with a wrap verb, \<open>errors.Join\<close>), since \<open>NewError\<close>
  looks through wrappers with \<open>errors.As\<close>.
\<close>

section \<open>Data\<close>

type_synonym metadata = "(string, string) gomap"

record nerror =
  ne_Code :: string
  ne_Message :: string
  ne_Metadata :: "metadata option"

datatype goerror =
    NrpcError nerror
  | PlainError string
  | WrapError string "goerror list"

text \<open>
  An error interface value as \<open>FromError\<close> sees it: nil, a nil \<open>*Error\<close> inside a non-nil
  interface, or an error.
\<close>

datatype err_iface = NilIface | NilNrpc | ErrVal goerror

definition ErrUnknownCode :: string where "ErrUnknownCode = ''PIT-000''"
definition ErrInternalCode :: string where "ErrInternalCode = ''PIT-500''"
definition ErrNotFoundCode :: string where "ErrNotFoundCode = ''PIT-404''"
definition ErrBadRequestCode :: string where "ErrBadRequestCode = ''PIT-400''"
definition ErrRequestTimeoutCode :: string where "ErrRequestTimeoutCode = ''PIT-408''"
definition ErrTooManyRequestCode :: string where "ErrTooManyRequestCode = ''PIT-429''"
definition ErrClientClosedRequest :: string where "ErrClientClosedRequest = ''PIT-499''"
definition ErrClosedRequest :: string where "ErrClosedRequest = ''PIT-498''"
definition ErrServiceUnavailable :: string where "ErrServiceUnavailable = ''PIT-503''"

lemmas err_codes = ErrUnknownCode_def ErrInternalCode_def ErrNotFoundCode_def
  ErrBadRequestCode_def ErrRequestTimeoutCode_def ErrTooManyRequestCode_def
  ErrClientClosedRequest_def ErrClosedRequest_def ErrServiceUnavailable_def

text \<open>Error constants of \<open>constants/errors.go\<close>.\<close>

definition ErrChangeDictionaryWhileRunning :: goerror where
  "ErrChangeDictionaryWhileRunning =
     PlainError ''you shouldn't change the dictionary while the app is already running''"
definition ErrChangeRouteWhileRunning :: goerror where
  "ErrChangeRouteWhileRunning = PlainError ''you shouldn't change routes while app is already running''"
definition ErrEtcdGrantLeaseTimeout :: goerror where
  "ErrEtcdGrantLeaseTimeout = PlainError ''timed out waiting for etcd lease grant''"
definition ErrNatsMessagesBufferSizeZero :: goerror where
  "ErrNatsMessagesBufferSizeZero = PlainError ''nrpc.buffer.cluster.rpc.server.nats.messages cant be zero''"
definition ErrNatsNoRequestTimeout :: goerror where
  "ErrNatsNoRequestTimeout = PlainError ''nrpc.cluster.rpc.client.nats.requesttimeout cant be empty''"
definition ErrNoContextFound :: goerror where
  "ErrNoContextFound = PlainError ''no context found''"
definition ErrNoNatsConnectionString :: goerror where
  "ErrNoNatsConnectionString = PlainError ''you have to provide a nats url''"
definition ErrNoServerTypeChosenForRPC :: goerror where
  "ErrNoServerTypeChosenForRPC = PlainError
     ''no server type chosen for sending RPC, send a full route in the format server.service.component''"
definition ErrNoServerWithID :: goerror where
  "ErrNoServerWithID = PlainError ''can't find any server with the provided ID''"
definition ErrNoServersAvailableOfType :: goerror where
  "ErrNoServersAvailableOfType = PlainError ''no servers available of this type''"
definition ErrNonsenseRPC :: goerror where
  "ErrNonsenseRPC = PlainError
     ''you are making a rpc that may be processed locally, either specify a different server type or specify a server id''"
definition ErrNotifyOnRequest :: goerror where
  "ErrNotifyOnRequest = PlainError ''tried to notify a request route''"
definition ErrRPCRequestTimeout :: goerror where
  "ErrRPCRequestTimeout = PlainError ''rpc client: request timeout''"
definition ErrRPCClientNotInitialized :: goerror where
  "ErrRPCClientNotInitialized = PlainError ''RPC client is not running''"
definition ErrRPCServerNotInitialized :: goerror where
  "ErrRPCServerNotInitialized = PlainError ''RPC server is not running''"
definition ErrReplyShouldBeNotNull :: goerror where
  "ErrReplyShouldBeNotNull = PlainError ''reply must not be null''"
definition ErrReplyShouldBePtr :: goerror where
  "ErrReplyShouldBePtr = PlainError ''reply must be a pointer''"
definition ErrRequestOnNotify :: goerror where
  "ErrRequestOnNotify = PlainError ''tried to request a notify route''"
definition ErrRouterNotInitialized :: goerror where
  "ErrRouterNotInitialized = PlainError ''router is not initialized''"
definition ErrServerNotFound :: goerror where
  "ErrServerNotFound = PlainError ''server not found''"
definition ErrServiceDiscoveryNotInitialized :: goerror where
  "ErrServiceDiscoveryNotInitialized = PlainError ''service discovery client is not initialized''"
definition ErrWrongValueType :: goerror where
  "ErrWrongValueType = PlainError ''protobuf: convert on wrong type value''"
definition ErrRateLimitExceeded :: goerror where
  "ErrRateLimitExceeded = PlainError ''rate limit exceeded''"
definition ErrInvalidSpanCarrier :: goerror where
  "ErrInvalidSpanCarrier = PlainError ''tracing: invalid span carrier''"
definition ErrMetricNotKnown :: goerror where
  "ErrMetricNotKnown = PlainError ''the provided metric does not exist''"
definition ErrNotImplemented :: goerror where
  "ErrNotImplemented = PlainError ''method not implemented''"

section \<open>Operations\<close>

fun err_Error :: "goerror \<Rightarrow> string" where
  "err_Error (NrpcError e) = ne_Message e"
| "err_Error (PlainError s) = s"
| "err_Error (WrapError s es) = s"

text \<open>\<open>errors.As(err, &nrpcErr)\<close>: the first framework error of the tree, depth first.\<close>

fun err_As :: "goerror \<Rightarrow> nerror option" where
  "err_As (NrpcError e) = Some e"
| "err_As (PlainError s) = None"
| "err_As (WrapError s es) =
     (case dropWhile (\<lambda>r. r = None) (map err_As es) of [] \<Rightarrow> None | r # _ \<Rightarrow> r)"

definition mergeMetadatas :: "nerror \<Rightarrow> metadata option \<Rightarrow> nerror" where
  "mergeMetadatas e md =
     (case ne_Metadata e of
        None \<Rightarrow> e\<lparr>ne_Metadata := md\<rparr>
      | Some old \<Rightarrow>
          e\<lparr>ne_Metadata := Some (fold (\<lambda>(k, v) m. gm_put k v m) (case md of None \<Rightarrow> [] | Some m \<Rightarrow> m) old)\<rparr>)"

definition NewError :: "goerror \<Rightarrow> string \<Rightarrow> metadata option list \<Rightarrow> nerror" where
  "NewError err code mds =
     (case err_As err of
        Some e \<Rightarrow> (case mds of [] \<Rightarrow> e | md # _ \<Rightarrow> mergeMetadatas e md)
      | None \<Rightarrow>
          (let e = \<lparr>ne_Code = code, ne_Message = err_Error err, ne_Metadata = None\<rparr>
           in case mds of [] \<Rightarrow> e | md # _ \<Rightarrow> e\<lparr>ne_Metadata := md\<rparr>))"

definition FromError :: "err_iface \<Rightarrow> string" where
  "FromError err =
     (case err of
        NilIface \<Rightarrow> ''''
      | NilNrpc \<Rightarrow> ErrUnknownCode
      | ErrVal (NrpcError e) \<Rightarrow> ne_Code e
      | ErrVal _ \<Rightarrow> ErrUnknownCode)"

section \<open>Lemmas and properties\<close>

lemma fold_put_get:
  "gm_wf new \<Longrightarrow>
   gm_get (fold (\<lambda>(k, v) m. gm_put k v m) new old) k =
     (case gm_get new k of Some v \<Rightarrow> Some v | None \<Rightarrow> gm_get old k)"
proof (induction new arbitrary: old)
  case Nil
  then show ?case by (simp add: gm_get_def)
next
  case (Cons kv new)
  obtain a b where kv: "kv = (a, b)" by (cases kv)
  from Cons.prems have "gm_wf new" and "gm_get new a = None"
    by (auto simp: gm_wf_def gm_get_def kv map_of_eq_None_iff)
  with Cons.IH [of "gm_put a b old"] show ?case
    by (auto simp: kv gm_get_def [of "(a, b) # new"] gm_get_def [of new] split: option.splits)
qed

lemma fold_put_wf: "gm_wf old \<Longrightarrow> gm_wf (fold (\<lambda>(k, v) m. gm_put k v m) new old)"
  by (induction new arbitrary: old) auto

text \<open>
  Wrapping an error that already carries a framework error, at any depth, keeps its code and
  message; the given metadata is merged key by key, the new value winning over the old one.
  An error without one gets the given code and its own text. A code is thus never overwritten.
\<close>

lemma NewError_spec:
  assumes "gm_wf md"
  shows "(case err_As err of
      Some e \<Rightarrow>
        ne_Code (NewError err code [Some md]) = ne_Code e \<and>
        ne_Message (NewError err code [Some md]) = ne_Message e \<and>
        (\<exists>m. ne_Metadata (NewError err code [Some md]) = Some m \<and>
          (\<forall>k. gm_get m k =
            (case gm_get md k of
               Some v \<Rightarrow> Some v
             | None \<Rightarrow> (case ne_Metadata e of None \<Rightarrow> None | Some old \<Rightarrow> gm_get old k))))
    | None \<Rightarrow> NewError err code [Some md] =
        \<lparr>ne_Code = code, ne_Message = err_Error err, ne_Metadata = Some md\<rparr>)"
  using assms
  by (auto simp: NewError_def mergeMetadatas_def Let_def fold_put_get split: option.splits)

end
