(* ===== verification/Server.thy ===== *)
theory Server
  imports Errors
begin

text \<open>
  \<open>cluster/server.go\<close>, \<open>cluster/info_retriever.go\<close> and the parts of
  \<open>cluster/etcd_service_discovery.go\<close> that name servers in etcd: the server record, its etcd key
  and the parsing of keys. The JSON text of a server is produced and read by the standard library's
  encoder: the parameter \<open>json_codec\<close>, with the contract \<open>json_lossless\<close> that what was
  marshalled is read back.
\<close>

section \<open>Data\<close>

record server =
  sv_ID :: string
  sv_Type :: string
  sv_Metadata :: metadata
  sv_Hostname :: string

record json_codec =
  json_marshal :: "server \<Rightarrow> string + string"
  json_unmarshal :: "string \<Rightarrow> string + server option"

record infoRetriever =
  ir_region :: string

section \<open>Operations\<close>

text \<open>The host name is what \<open>os.Hostname\<close> returned; on its error the name is empty.\<close>

definition NewServer :: "(string + string) \<Rightarrow> string \<Rightarrow> string \<Rightarrow> metadata list \<Rightarrow> server" where
  "NewServer os_hostname ident serverType md =
     \<lparr>sv_ID = ident, sv_Type = serverType,
      sv_Metadata = (case md of [] \<Rightarrow> gm_empty | d # _ \<Rightarrow> d),
      sv_Hostname = (case os_hostname of Inl _ \<Rightarrow> '''' | Inr h \<Rightarrow> h)\<rparr>"

definition AsJSONString :: "json_codec \<Rightarrow> server \<Rightarrow> string" where
  "AsJSONString js s = (case json_marshal js s of Inl _ \<Rightarrow> '''' | Inr str \<Rightarrow> str)"

text \<open>
  \<open>parseServer\<close> unmarshals into a nil \<open>*Server\<close>: the JSON text \<open>null\<close> gives no error and
  leaves the pointer nil, which is \<open>None\<close> here.
\<close>

definition parseServer :: "json_codec \<Rightarrow> string \<Rightarrow> (goerror, server option) outcome" where
  "parseServer js val =
     (case json_unmarshal js val of Inl e \<Rightarrow> Err (PlainError e) | Inr sv \<Rightarrow> Ok sv)"

definition getKey :: "string \<Rightarrow> string \<Rightarrow> string" where
  "getKey serverID serverType = ''servers/'' @ serverType @ ''/'' @ serverID"

definition parseEtcdKey :: "string \<Rightarrow> (goerror, string \<times> string) outcome" where
  "parseEtcdKey key =
     (let splittedServer = split_on CHR ''/'' key in
      if length splittedServer \<noteq> 3
      then Err (PlainError (''error parsing etcd key '' @ key @ '' (server name can't contain /)''))
      else Ok (splittedServer ! 1, splittedServer ! 2))"

definition NewInfoRetriever :: "string \<Rightarrow> infoRetriever" where
  "NewInfoRetriever region = \<lparr>ir_region = region\<rparr>"

definition Region :: "infoRetriever \<Rightarrow> string" where
  "Region c = ir_region c"

section \<open>Lemmas and properties\<close>

text \<open>The JSON codec reads back this server (it does when its strings are valid UTF-8).\<close>

definition json_lossless :: "json_codec \<Rightarrow> server \<Rightarrow> bool" where
  "json_lossless js s \<longleftrightarrow>
     (case json_marshal js s of Inl _ \<Rightarrow> False | Inr t \<Rightarrow> json_unmarshal js t = Inr (Some s))"

lemma parse_AsJSONString: "json_lossless js s \<Longrightarrow> parseServer js (AsJSONString js s) = Ok (Some s)"
  by (simp add: json_lossless_def AsJSONString_def parseServer_def split: sum.splits)

lemma parseEtcdKey_Ok:
  "parseEtcdKey key = Ok (ty, ident) \<longleftrightarrow> (\<exists>p. split_on CHR ''/'' key = [p, ty, ident])"
  by (auto simp: parseEtcdKey_def Let_def numeral_3_eq_3 length_Suc_conv)

lemma parseEtcdKey_not_panic [simp]: "parseEtcdKey key \<noteq> Panic p"
  by (simp add: parseEtcdKey_def Let_def)

lemma parseServer_not_panic [simp]: "parseServer js val \<noteq> Panic p"
  by (simp add: parseServer_def split: sum.splits)

text \<open>
  The etcd key of a server is parsed back to its type and id exactly when neither contains a
  slash; with a slash in either, the key has more than three parts and is rejected.
\<close>

lemma etcd_key_roundtrip:
  "parseEtcdKey (getKey ident ty) = Ok (ty, ident) \<longleftrightarrow> CHR ''/'' \<notin> set ty \<and> CHR ''/'' \<notin> set ident"
proof -
  have s: "split_on CHR ''/'' (getKey ident ty) = ''servers'' # split_on CHR ''/'' (ty @ CHR ''/'' # ident)"
    using split_on_append [of "CHR ''/''" "''servers''" "ty @ CHR ''/'' # ident"]
    by (simp add: getKey_def)
  show ?thesis
  proof
    assume "parseEtcdKey (getKey ident ty) = Ok (ty, ident)"
    then have "set [ty, ident] \<subseteq> set (split_on CHR ''/'' (ty @ CHR ''/'' # ident))"
      by (auto simp: parseEtcdKey_Ok s)
    then show "CHR ''/'' \<notin> set ty \<and> CHR ''/'' \<notin> set ident"
      using split_on_pieces by (metis insert_subset list.simps(15))
  next
    assume "CHR ''/'' \<notin> set ty \<and> CHR ''/'' \<notin> set ident"
    then show "parseEtcdKey (getKey ident ty) = Ok (ty, ident)"
      by (simp add: parseEtcdKey_Ok s split_on_append split_on_no_sep)
  qed
qed

text \<open>
  Keys in etcd and the JSON of servers as codecs: no two servers without a slash in type or id share a key, and no two
  servers the JSON library can read back share a value.
\<close>

interpretation etcdkey: codec "\<lambda>(ty, ident). getKey ident ty" parseEtcdKey
    "\<lambda>(ty, ident). CHR ''/'' \<notin> set ty \<and> CHR ''/'' \<notin> set ident" "\<lambda>x. x"
  by unfold_locales (auto simp: etcd_key_roundtrip)

lemma parseEtcdKey_getKey: "CHR ''/'' \<notin> set ty \<Longrightarrow> CHR ''/'' \<notin> set ident \<Longrightarrow> parseEtcdKey (getKey ident ty) = Ok (ty, ident)"
  using etcdkey.dec_enc [of "(ty, ident)"] by simp

interpretation serverjson: codec "AsJSONString js" "parseServer js" "json_lossless js" Some for js
  by unfold_locales (rule parse_AsJSONString)

end
