(* ===== verification/Config.thy ===== *)
theory Config
  imports Complex_Main Errors
begin

text \<open>
  \<open>config/config.go\<close> and \<open>metrics/models/models.go\<close>: the configuration structures, one record
  each, and their defaults. A \<open>time.Duration\<close> is its number of nanoseconds, a \<open>float64\<close> a real
  number. Anonymous inner structs are flattened into fields named by their path.
\<close>

section \<open>Durations\<close>

definition Millisecond :: int where "Millisecond = 1000000"
definition Second :: int where "Second = 1000 * Millisecond"
definition Minute :: int where "Minute = 60 * Second"
definition Hour :: int where "Hour = 60 * Minute"

lemmas durations = Millisecond_def Second_def Minute_def Hour_def

section \<open>Metric specifications\<close>

record mSummary =
  mS_Subsystem :: string
  mS_Name :: string
  mS_Help :: string
  mS_Objectives :: "(real, real) gomap"
  mS_Labels :: "string list"

record mHistogram =
  mH_Subsystem :: string
  mH_Name :: string
  mH_Help :: string
  mH_Buckets :: "real list"
  mH_Labels :: "string list"

record mGauge =
  mG_Subsystem :: string
  mG_Name :: string
  mG_Help :: string
  mG_Labels :: "string list"

record mCounter =
  mC_Subsystem :: string
  mC_Name :: string
  mC_Help :: string
  mC_Labels :: "string list"

record CustomMetricsSpec =
  spec_Summaries :: "mSummary list"
  spec_Histograms :: "mHistogram list"
  spec_Gauges :: "mGauge list"
  spec_Counters :: "mCounter list"

section \<open>Configuration records\<close>

record NatsRPCClientConfig =
  ncc_Connect :: string
  ncc_MaxReconnectionRetries :: int
  ncc_RequestTimeout :: int
  ncc_ConnectionTimeout :: int
  ncc_WebsocketCompression :: bool
  ncc_ReconnectJitter :: int
  ncc_ReconnectJitterTLS :: int
  ncc_ReconnectWait :: int
  ncc_PingInterval :: int
  ncc_MaxPingsOutstanding :: int

record NatsRPCServerConfig =
  nsc_Connect :: string
  nsc_MaxReconnectionRetries :: int
  nsc_Buffer_Messages :: int
  nsc_Services :: int
  nsc_Semaphore :: int
  nsc_ConnectionTimeout :: int
  nsc_WebsocketCompression :: bool
  nsc_ReconnectJitter :: int
  nsc_ReconnectJitterTLS :: int
  nsc_ReconnectWait :: int
  nsc_PingInterval :: int
  nsc_MaxPingsOutstanding :: int

record InfoRetrieverConfig =
  irc_Region :: string

record EtcdServiceDiscoveryConfig =
  esd_Endpoints :: "string list"
  esd_User :: string
  esd_Pass :: string
  esd_DialTimeout :: int
  esd_Prefix :: string
  esd_Heartbeat_TTL :: int
  esd_Heartbeat_Log :: bool
  esd_SyncServers_Interval :: int
  esd_SyncServers_Parallelism :: int
  esd_Revoke_Timeout :: int
  esd_GrantLease_Timeout :: int
  esd_GrantLease_MaxRetries :: int
  esd_GrantLease_RetryInterval :: int
  esd_Shutdown_Delay :: int
  esd_ServerTypesBlacklist :: "string list"

record PrometheusConfig =
  pc_Port :: int
  pc_Enabled :: bool

record StatsdConfig =
  sc_Enabled :: bool
  sc_Host :: string
  sc_Prefix :: string
  sc_Rate :: real

record MetricsConfig =
  mc_App :: string
  mc_Period :: int
  mc_AdditionalLabels :: "(string, string) gomap"
  mc_ConstLabels :: "(string, string) gomap option"
  mc_Custom :: CustomMetricsSpec
  mc_Prometheus :: PrometheusConfig
  mc_Statsd :: StatsdConfig

record ClusterRPCConfig =
  crpc_Client_Nats :: NatsRPCClientConfig
  crpc_Server_Nats :: NatsRPCServerConfig

record ClusterSDConfig =
  csd_Etcd :: EtcdServiceDiscoveryConfig

record ClusterConfig =
  cc_Info :: InfoRetrieverConfig
  cc_RPC :: ClusterRPCConfig
  cc_SD :: ClusterSDConfig

record EnqueueOpts =
  eo_Enabled :: bool
  eo_Max :: int
  eo_Exponential :: int
  eo_MinDelay :: int
  eo_MaxDelay :: int
  eo_MaxRandom :: int

record WorkerConfig =
  wc_Redis_ServerURL :: string
  wc_Redis_Pool :: string
  wc_Redis_Password :: string
  wc_Namespace :: string
  wc_Concurrency :: int
  wc_Retry :: EnqueueOpts

record MemoryGroupConfig =
  mgc_TickDuration :: int

record EtcdGroupServiceConfig =
  egc_DialTimeout :: int
  egc_Endpoints :: "string list"
  egc_Prefix :: string
  egc_TransactionTimeout :: int

record GroupsConfig =
  gc_Etcd :: EtcdGroupServiceConfig
  gc_Memory :: MemoryGroupConfig

record ETCDBindingConfig =
  ebc_DialTimeout :: int
  ebc_Endpoints :: "string list"
  ebc_Prefix :: string
  ebc_LeaseTTL :: int

record ModulesConfig =
  mod_BindingStorage_Etcd :: ETCDBindingConfig

record RateLimitingConfig =
  rl_Limit :: int
  rl_Interval :: int
  rl_ForceDisable :: bool

record config =
  cfg_ServerID :: int
  cfg_SerializerType :: "16 word"
  cfg_StructValidation_Enabled :: bool
  cfg_Modules :: ModulesConfig
  cfg_Heartbeat_Interval :: int
  cfg_Messages_Compression :: bool
  cfg_Concurrency_PoolSize :: int
  cfg_Concurrency_QueueSize :: int
  cfg_Concurrency_ClearInterval :: int
  cfg_Concurrency_ClearTimePass :: int
  cfg_RateLimiting :: RateLimitingConfig
  cfg_Metrics :: MetricsConfig
  cfg_Cluster :: ClusterConfig
  cfg_Groups :: GroupsConfig
  cfg_Worker :: WorkerConfig

section \<open>Defaults\<close>

definition newDefaultNatsRPCClientConfig :: NatsRPCClientConfig where
  "newDefaultNatsRPCClientConfig =
     \<lparr>ncc_Connect = ''nats://localhost:4222'', ncc_MaxReconnectionRetries = 15,
      ncc_RequestTimeout = 5 * Second, ncc_ConnectionTimeout = 2 * Second,
      ncc_WebsocketCompression = True, ncc_ReconnectJitter = 100 * Millisecond,
      ncc_ReconnectJitterTLS = 1 * Second, ncc_ReconnectWait = Second,
      ncc_PingInterval = 2 * Minute, ncc_MaxPingsOutstanding = 3\<rparr>"

definition newDefaultNatsRPCServerConfig :: NatsRPCServerConfig where
  "newDefaultNatsRPCServerConfig =
     \<lparr>nsc_Connect = ''nats://localhost:4222'', nsc_MaxReconnectionRetries = 15,
      nsc_Buffer_Messages = 75, nsc_Services = 30, nsc_Semaphore = 256,
      nsc_ConnectionTimeout = 2 * Second, nsc_WebsocketCompression = True,
      nsc_ReconnectJitter = 100 * Millisecond, nsc_ReconnectJitterTLS = 1 * Second,
      nsc_ReconnectWait = Second, nsc_PingInterval = 2 * Minute, nsc_MaxPingsOutstanding = 3\<rparr>"

definition newDefaultInfoRetrieverConfig :: InfoRetrieverConfig where
  "newDefaultInfoRetrieverConfig = \<lparr>irc_Region = ''''\<rparr>"

definition newDefaultEtcdServiceDiscoveryConfig :: EtcdServiceDiscoveryConfig where
  "newDefaultEtcdServiceDiscoveryConfig =
     \<lparr>esd_Endpoints = [''localhost:2379''], esd_User = '''', esd_Pass = '''',
      esd_DialTimeout = 5 * Second, esd_Prefix = ''nrpc/'',
      esd_Heartbeat_TTL = 60 * Second, esd_Heartbeat_Log = False,
      esd_SyncServers_Interval = 120 * Second, esd_SyncServers_Parallelism = 10,
      esd_Revoke_Timeout = 5 * Second,
      esd_GrantLease_Timeout = 60 * Second, esd_GrantLease_MaxRetries = 15,
      esd_GrantLease_RetryInterval = 5 * Second,
      esd_Shutdown_Delay = 300 * Millisecond, esd_ServerTypesBlacklist = []\<rparr>"

definition NewDefaultCustomMetricsSpec :: CustomMetricsSpec where
  "NewDefaultCustomMetricsSpec =
     \<lparr>spec_Summaries = [], spec_Histograms = [], spec_Gauges = [], spec_Counters = []\<rparr>"

definition newDefaultPrometheusConfig :: PrometheusConfig where
  "newDefaultPrometheusConfig = \<lparr>pc_Port = 9090, pc_Enabled = False\<rparr>"

definition newDefaultStatsdConfig :: StatsdConfig where
  "newDefaultStatsdConfig =
     \<lparr>sc_Enabled = False, sc_Host = ''localhost:9125'', sc_Prefix = ''nrpc.'', sc_Rate = 1\<rparr>"

definition newDefaultMetricsConfig :: MetricsConfig where
  "newDefaultMetricsConfig =
     \<lparr>mc_App = '''', mc_Period = 15 * Second, mc_AdditionalLabels = gm_empty, mc_ConstLabels = Some gm_empty,
      mc_Custom = NewDefaultCustomMetricsSpec, mc_Prometheus = newDefaultPrometheusConfig,
      mc_Statsd = newDefaultStatsdConfig\<rparr>"

definition newDefaultClusterRPCConfig :: ClusterRPCConfig where
  "newDefaultClusterRPCConfig =
     \<lparr>crpc_Client_Nats = newDefaultNatsRPCClientConfig, crpc_Server_Nats = newDefaultNatsRPCServerConfig\<rparr>"

definition newDefaultClusterSDConfig :: ClusterSDConfig where
  "newDefaultClusterSDConfig = \<lparr>csd_Etcd = newDefaultEtcdServiceDiscoveryConfig\<rparr>"

definition newDefaultClusterConfig :: ClusterConfig where
  "newDefaultClusterConfig =
     \<lparr>cc_Info = newDefaultInfoRetrieverConfig, cc_RPC = newDefaultClusterRPCConfig,
      cc_SD = newDefaultClusterSDConfig\<rparr>"

definition newDefaultEnqueueOpts :: EnqueueOpts where
  "newDefaultEnqueueOpts =
     \<lparr>eo_Enabled = True, eo_Max = 2, eo_Exponential = 5, eo_MinDelay = 10, eo_MaxDelay = 10,
      eo_MaxRandom = 0\<rparr>"

definition newDefaultWorkerConfig :: WorkerConfig where
  "newDefaultWorkerConfig =
     \<lparr>wc_Redis_ServerURL = ''localhost:6379'', wc_Redis_Pool = ''10'', wc_Redis_Password = '''',
      wc_Namespace = '''', wc_Concurrency = 1, wc_Retry = newDefaultEnqueueOpts\<rparr>"

definition newDefaultMemoryGroupConfig :: MemoryGroupConfig where
  "newDefaultMemoryGroupConfig = \<lparr>mgc_TickDuration = 30 * Second\<rparr>"

definition newDefaultEtcdGroupServiceConfig :: EtcdGroupServiceConfig where
  "newDefaultEtcdGroupServiceConfig =
     \<lparr>egc_DialTimeout = 5 * Second, egc_Endpoints = [''localhost:2379''], egc_Prefix = ''nrpc/'',
      egc_TransactionTimeout = 5 * Second\<rparr>"

definition newDefaultGroupsConfig :: GroupsConfig where
  "newDefaultGroupsConfig =
     \<lparr>gc_Etcd = newDefaultEtcdGroupServiceConfig, gc_Memory = newDefaultMemoryGroupConfig\<rparr>"

definition newDefaultETCDBindingConfig :: ETCDBindingConfig where
  "newDefaultETCDBindingConfig =
     \<lparr>ebc_DialTimeout = 5 * Second, ebc_Endpoints = [''localhost:2379''], ebc_Prefix = ''nrpc/'',
      ebc_LeaseTTL = 5 * Hour\<rparr>"

definition newDefaultModulesConfig :: ModulesConfig where
  "newDefaultModulesConfig = \<lparr>mod_BindingStorage_Etcd = newDefaultETCDBindingConfig\<rparr>"

definition newDefaultRateLimitingConfig :: RateLimitingConfig where
  "newDefaultRateLimitingConfig = \<lparr>rl_Limit = 20, rl_Interval = Second, rl_ForceDisable = False\<rparr>"

definition NewDefaultConfig :: config where
  "NewDefaultConfig =
     \<lparr>cfg_ServerID = 0, cfg_SerializerType = 1, cfg_StructValidation_Enabled = False,
      cfg_Modules = newDefaultModulesConfig,
      cfg_Heartbeat_Interval = 30 * Second, cfg_Messages_Compression = True,
      cfg_Concurrency_PoolSize = 128, cfg_Concurrency_QueueSize = 256,
      cfg_Concurrency_ClearInterval = 30 * Second, cfg_Concurrency_ClearTimePass = 300 * Second,
      cfg_RateLimiting = newDefaultRateLimitingConfig,
      cfg_Metrics = newDefaultMetricsConfig, cfg_Cluster = newDefaultClusterConfig,
      cfg_Groups = newDefaultGroupsConfig, cfg_Worker = newDefaultWorkerConfig\<rparr>"

lemmas config_defaults = newDefaultNatsRPCClientConfig_def newDefaultNatsRPCServerConfig_def
  newDefaultInfoRetrieverConfig_def newDefaultEtcdServiceDiscoveryConfig_def
  NewDefaultCustomMetricsSpec_def newDefaultPrometheusConfig_def newDefaultStatsdConfig_def
  newDefaultMetricsConfig_def newDefaultClusterRPCConfig_def newDefaultClusterSDConfig_def
  newDefaultClusterConfig_def newDefaultEnqueueOpts_def newDefaultWorkerConfig_def
  newDefaultMemoryGroupConfig_def newDefaultEtcdGroupServiceConfig_def newDefaultGroupsConfig_def
  newDefaultETCDBindingConfig_def newDefaultModulesConfig_def newDefaultRateLimitingConfig_def
  NewDefaultConfig_def

end
