(* ===== verification/Registry.thy ===== *)
theory Registry
  imports Server Config
begin

text \<open>
  The local server registry of \<open>cluster/etcd_service_discovery.go\<close>: \<open>serverMapByID\<close>,
  \<open>serverMapByType\<close>, the listeners and the operations that read and change them. Calls into the
  listeners are recorded in \<open>sd_log\<close> in the order they are made. \<open>sd_inv\<close> is the invariant
  that the two maps describe the same servers; \<open>registry_abs\<close> is the abstract view, a partial map
  from ids to servers. The locale \<open>discovery\<close> states what the clients of the service discovery
  interface rely on, and is interpreted on these operations.
\<close>

section \<open>Data\<close>

text \<open>
  The fields that \<open>configure\<close> copies one by one from the configuration are kept together in
  \<open>sd_cfg\<close>; \<open>sd_cli\<close> and \<open>sd_appDieChan\<close> say whether the client and the die channel are
  not nil. The channel \<open>syncServersRunning\<close> is the subject of the theory \<open>SyncGate\<close>.
\<close>

datatype action = ADD | DEL

text \<open>
  The calls that leave the component, in the order they are made (\<open>sd_calls\<close>): requests to etcd,
  the goroutines started, and the send on the application's die channel.
\<close>

datatype etcd_call =
    CallNew | CallGrant int | CallKeepAlive int | CallPut string string int
  | CallGetPrefix bool | CallRevoke int | CallWatch
  | GoWatchLeaseChan | GoWatchEtcdChanges | GoSyncTicker | AppDie

record sdstate =
  sd_serverMapByType :: "(string, (string, server) gomap) gomap"
  sd_serverMapByID :: "(string, server) gomap"
  sd_server :: server
  sd_listeners :: "nat list"
  sd_log :: "(action \<times> nat \<times> server) list"
  sd_cfg :: EtcdServiceDiscoveryConfig
  sd_cli :: bool
  sd_appDieChan :: bool
  sd_running :: bool
  sd_leaseID :: int
  sd_stopChan_closed :: bool
  sd_stopLeaseChan_closed :: bool
  sd_lastSyncTime :: int
  sd_calls :: "etcd_call list"

section \<open>Operations\<close>

definition AddListener :: "nat \<Rightarrow> sdstate \<Rightarrow> sdstate" where
  "AddListener l sd = sd\<lparr>sd_listeners := sd_listeners sd @ [l]\<rparr>"

definition notifyListeners :: "action \<Rightarrow> server \<Rightarrow> sdstate \<Rightarrow> sdstate" where
  "notifyListeners act sv sd =
     sd\<lparr>sd_log := sd_log sd @ map (\<lambda>l. (act, l, sv)) (sd_listeners sd)\<rparr>"

definition isServerTypeBlacklisted :: "string \<Rightarrow> sdstate \<Rightarrow> bool" where
  "isServerTypeBlacklisted svType sd = list_ex (\<lambda>b. b = svType) (esd_ServerTypesBlacklist (sd_cfg sd))"

fun SliceContainsString :: "string list \<Rightarrow> string \<Rightarrow> bool" where
  "SliceContainsString [] str = False"
| "SliceContainsString (v # vs) str = (if v = str then True else SliceContainsString vs str)"

text \<open>\<open>addServer\<close>: \<open>LoadOrStore\<close> keeps the entry that is there and then nothing else happens.\<close>

definition addServer :: "server \<Rightarrow> sdstate \<Rightarrow> sdstate" where
  "addServer sv sd =
     (case gm_get (sd_serverMapByID sd) (sv_ID sv) of
        Some _ \<Rightarrow> sd
      | None \<Rightarrow>
          let byType = sd_serverMapByType sd;
              mapSvByType = (case gm_get byType (sv_Type sv) of None \<Rightarrow> gm_empty | Some m \<Rightarrow> m);
              sd = sd\<lparr>sd_serverMapByID := gm_put (sv_ID sv) sv (sd_serverMapByID sd),
                      sd_serverMapByType := gm_put (sv_Type sv) (gm_put (sv_ID sv) sv mapSvByType) byType\<rparr>
          in if sv_ID sv \<noteq> sv_ID (sd_server sd) then notifyListeners ADD sv sd else sd)"

definition deleteServer :: "string \<Rightarrow> sdstate \<Rightarrow> sdstate" where
  "deleteServer serverID sd =
     (case gm_get (sd_serverMapByID sd) serverID of
        None \<Rightarrow> sd
      | Some sv \<Rightarrow>
          let byType = sd_serverMapByType sd;
              sd = sd\<lparr>sd_serverMapByID := gm_del (sv_ID sv) (sd_serverMapByID sd),
                      sd_serverMapByType :=
                        (case gm_get byType (sv_Type sv) of
                           None \<Rightarrow> byType
                         | Some svMap \<Rightarrow> gm_put (sv_Type sv) (gm_del (sv_ID sv) svMap) byType)\<rparr>
          in notifyListeners DEL sv sd)"

text \<open>\<open>Range\<close> visits the keys present at its start, each once.\<close>

definition deleteLocalInvalidServers :: "string list \<Rightarrow> sdstate \<Rightarrow> sdstate" where
  "deleteLocalInvalidServers actualServers sd =
     fold (\<lambda>k sd. if \<not> SliceContainsString actualServers k then deleteServer k sd else sd)
       (gm_keys (sd_serverMapByID sd)) sd"

definition GetServersByType :: "string \<Rightarrow> sdstate \<Rightarrow> (goerror, (string, server) gomap) outcome" where
  "GetServersByType serverType sd =
     (case gm_get (sd_serverMapByType sd) serverType of
        Some m \<Rightarrow>
          if length m > 0 then Ok (fold (\<lambda>(k, v) ret. gm_put k v ret) m gm_empty)
          else Err ErrNoServersAvailableOfType
      | None \<Rightarrow> Err ErrNoServersAvailableOfType)"

definition GetServers :: "sdstate \<Rightarrow> server list" where
  "GetServers sd = gm_vals (sd_serverMapByID sd)"

definition GetServer :: "string \<Rightarrow> sdstate \<Rightarrow> (goerror, server) outcome" where
  "GetServer ident sd =
     (case gm_get (sd_serverMapByID sd) ident of Some sv \<Rightarrow> Ok sv | None \<Rightarrow> Err ErrNoServerWithID)"

section \<open>Abstract view and invariant\<close>

definition registry_abs :: "sdstate \<Rightarrow> string \<Rightarrow> server option" where
  "registry_abs sd = gm_get (sd_serverMapByID sd)"

definition type_entry :: "sdstate \<Rightarrow> string \<Rightarrow> string \<Rightarrow> server option" where
  "type_entry sd t ident =
     (case gm_get (sd_serverMapByType sd) t of None \<Rightarrow> None | Some m \<Rightarrow> gm_get m ident)"

definition sd_inv :: "sdstate \<Rightarrow> bool" where
  "sd_inv sd \<longleftrightarrow>
     gm_wf (sd_serverMapByID sd) \<and>
     (\<forall>t m. gm_get (sd_serverMapByType sd) t = Some m \<longrightarrow> gm_wf m) \<and>
     (\<forall>ident sv. registry_abs sd ident = Some sv \<longrightarrow> sv_ID sv = ident) \<and>
     (\<forall>t ident sv. type_entry sd t ident = Some sv \<longleftrightarrow> registry_abs sd ident = Some sv \<and> sv_Type sv = t)"

section \<open>The operations on the abstract view\<close>

named_theorems registry_simps \<open>how the registry operations act on the abstract view\<close>

lemma SliceContainsString_iff [simp]: "SliceContainsString xs s \<longleftrightarrow> s \<in> set xs"
  by (induction xs) auto

lemma notifyListeners_frame [simp]:
  "sd_serverMapByType (notifyListeners a sv sd) = sd_serverMapByType sd"
  "sd_serverMapByID (notifyListeners a sv sd) = sd_serverMapByID sd"
  "sd_server (notifyListeners a sv sd) = sd_server sd"
  "sd_cfg (notifyListeners a sv sd) = sd_cfg sd"
  "sd_listeners (notifyListeners a sv sd) = sd_listeners sd"
  by (simp_all add: notifyListeners_def)

lemma notifyListeners_abs [simp]:
  "registry_abs (notifyListeners a sv sd) = registry_abs sd"
  "type_entry (notifyListeners a sv sd) = type_entry sd"
  "sd_inv (notifyListeners a sv sd) = sd_inv sd"
  by (simp_all add: registry_abs_def type_entry_def sd_inv_def fun_eq_iff)

lemma addServer_abs [registry_simps]:
  "registry_abs (addServer sv sd) =
     (if registry_abs sd (sv_ID sv) = None then (registry_abs sd)(sv_ID sv \<mapsto> sv) else registry_abs sd)"
  by (auto simp: addServer_def registry_abs_def Let_def fun_eq_iff notifyListeners_def split: option.splits)

lemma deleteServer_abs [registry_simps]:
  assumes "sd_inv sd"
  shows "registry_abs (deleteServer ident sd) = (registry_abs sd)(ident := None)"
  using assms
  by (auto simp: deleteServer_def registry_abs_def Let_def fun_eq_iff notifyListeners_def sd_inv_def
      split: option.splits)

lemma addServer_inv: "sd_inv sd \<Longrightarrow> sd_inv (addServer sv sd)"
proof (cases "registry_abs sd (sv_ID sv)")
  case None
  assume inv: "sd_inv sd"
  let ?m = "case gm_get (sd_serverMapByType sd) (sv_Type sv) of None \<Rightarrow> gm_empty | Some m \<Rightarrow> m"
  let ?sd = "sd\<lparr>sd_serverMapByID := gm_put (sv_ID sv) sv (sd_serverMapByID sd),
      sd_serverMapByType := gm_put (sv_Type sv) (gm_put (sv_ID sv) sv ?m) (sd_serverMapByType sd)\<rparr>"
  have te: "type_entry ?sd t i =
      (if t = sv_Type sv \<and> i = sv_ID sv then Some sv else type_entry sd t i)" for t i
    by (auto simp: type_entry_def split: option.splits)
  have none: "type_entry sd t (sv_ID sv) = None" for t
    using inv None by (metis sd_inv_def not_None_eq)
  have "sd_inv ?sd"
    using inv None none te by (auto simp: sd_inv_def registry_abs_def split: option.splits)
  moreover have "addServer sv sd =
      (if sv_ID sv \<noteq> sv_ID (sd_server sd) then notifyListeners ADD sv ?sd else ?sd)"
    using None by (simp add: addServer_def registry_abs_def Let_def)
  ultimately show ?thesis by (simp only: notifyListeners_abs split: if_split) blast
qed (simp add: addServer_def registry_abs_def)

lemma deleteServer_inv: "sd_inv sd \<Longrightarrow> sd_inv (deleteServer ident sd)"
proof (cases "registry_abs sd ident")
  case (Some sv)
  assume inv: "sd_inv sd"
  have ids: "sv_ID sv = ident" "type_entry sd (sv_Type sv) ident = Some sv"
    using inv Some by (auto simp: sd_inv_def)
  then obtain m where m: "gm_get (sd_serverMapByType sd) (sv_Type sv) = Some m"
    by (auto simp: type_entry_def split: option.splits)
  let ?sd = "sd\<lparr>sd_serverMapByID := gm_del ident (sd_serverMapByID sd),
      sd_serverMapByType := gm_put (sv_Type sv) (gm_del ident m) (sd_serverMapByType sd)\<rparr>"
  have te: "type_entry ?sd t i =
      (if t = sv_Type sv \<and> i = ident then None else type_entry sd t i)" for t i
    by (simp add: type_entry_def m)
  have "sd_inv ?sd"
    using inv Some m te by (auto simp: sd_inv_def registry_abs_def)
  moreover have "deleteServer ident sd = notifyListeners DEL sv ?sd"
    using Some m ids by (simp add: deleteServer_def registry_abs_def Let_def)
  ultimately show ?thesis by simp
qed (simp add: deleteServer_def registry_abs_def)

lemma addServer_frame [simp]:
  "sd_server (addServer sv sd) = sd_server sd" "sd_cfg (addServer sv sd) = sd_cfg sd"
  "sd_listeners (addServer sv sd) = sd_listeners sd"
  by (simp_all add: addServer_def Let_def split: option.splits)

lemma deleteServer_frame [simp]:
  "sd_server (deleteServer i sd) = sd_server sd" "sd_cfg (deleteServer i sd) = sd_cfg sd"
  "sd_listeners (deleteServer i sd) = sd_listeners sd"
  by (simp_all add: deleteServer_def Let_def split: option.splits)

lemma fold_delete:
  assumes "sd_inv sd"
  shows "sd_inv (fold (\<lambda>k sd. if \<not> SliceContainsString keep k then deleteServer k sd else sd) ks sd) \<and>
    registry_abs (fold (\<lambda>k sd. if \<not> SliceContainsString keep k then deleteServer k sd else sd) ks sd) i =
      (if i \<in> set ks \<and> i \<notin> set keep then None else registry_abs sd i)"
  using assms by (induction ks arbitrary: sd) (auto simp: deleteServer_inv registry_simps)

lemma deleteLocalInvalidServers_inv: "sd_inv sd \<Longrightarrow> sd_inv (deleteLocalInvalidServers keep sd)"
  using fold_delete [of sd keep] unfolding deleteLocalInvalidServers_def by blast

lemma deleteLocalInvalidServers_abs [registry_simps]:
  assumes "sd_inv sd"
  shows "registry_abs (deleteLocalInvalidServers keep sd) = (registry_abs sd) |` set keep"
proof
  fix i
  have "i \<notin> set (gm_keys (sd_serverMapByID sd)) \<longleftrightarrow> registry_abs sd i = None"
    by (simp add: gm_keys_get registry_abs_def)
  then show "registry_abs (deleteLocalInvalidServers keep sd) i = ((registry_abs sd) |` set keep) i"
    using fold_delete [OF assms, of keep "gm_keys (sd_serverMapByID sd)" i]
    unfolding deleteLocalInvalidServers_def by (auto simp: restrict_map_def)
qed

lemma GetServersByType_Ok:
  assumes "sd_inv sd" "GetServersByType t sd = Ok m"
  shows "m \<noteq> [] \<and> gm_wf m \<and> gm_get m i = type_entry sd t i"
proof -
  from assms(2) obtain m0 where m0: "gm_get (sd_serverMapByType sd) t = Some m0" "m0 \<noteq> []"
    and m: "m = fold (\<lambda>(k, v) ret. gm_put k v ret) m0 gm_empty"
    by (auto simp: GetServersByType_def split: option.splits if_splits)
  have wf: "gm_wf m0" using assms(1) m0 by (auto simp: sd_inv_def)
  have g: "gm_get m j = gm_get m0 j" for j
    unfolding m using fold_put_get [OF wf, of gm_empty j] by (simp split: option.splits)
  then show ?thesis
    using m0 by (auto simp: m fold_put_wf type_entry_def gm_nonempty_get)
qed

lemma GetServersByType_Err:
  assumes "sd_inv sd" "GetServersByType t sd = Err e"
  shows "e = ErrNoServersAvailableOfType \<and> type_entry sd t i = None"
  using assms by (auto simp: GetServersByType_def type_entry_def gm_get_def split: option.splits if_splits)

section \<open>The service discovery interface\<close>

text \<open>
  What the clients of \<open>cluster.ServiceDiscovery\<close> (the router, the remote service) rely on:
  \<open>GetServersByType\<close> returns exactly the known servers of the type, and an error only when there
  are none; \<open>GetServer\<close> finds a server under its id.
\<close>

locale discovery =
  fixes inv :: "'s \<Rightarrow> bool"
    and lookup :: "'s \<Rightarrow> string \<Rightarrow> server option"
    and by_type :: "string \<Rightarrow> 's \<Rightarrow> (goerror, (string, server) gomap) outcome"
    and by_id :: "string \<Rightarrow> 's \<Rightarrow> (goerror, server) outcome"
  assumes by_type_Ok: "inv s \<Longrightarrow> by_type t s = Ok m \<Longrightarrow>
      m \<noteq> [] \<and> gm_wf m \<and> (\<forall>i sv. gm_get m i = Some sv \<longleftrightarrow> lookup s i = Some sv \<and> sv_Type sv = t)"
    and by_type_Err: "inv s \<Longrightarrow> by_type t s = Err e \<Longrightarrow>
      e = ErrNoServersAvailableOfType \<and> (\<forall>i sv. lookup s i = Some sv \<longrightarrow> sv_Type sv \<noteq> t)"
    and by_type_total: "\<not> is_panic (by_type t s)"
    and by_id_spec: "by_id i s = (case lookup s i of Some sv \<Rightarrow> Ok sv | None \<Rightarrow> Err ErrNoServerWithID)"
    and lookup_id: "inv s \<Longrightarrow> lookup s i = Some sv \<Longrightarrow> sv_ID sv = i"
begin

lemma by_type_values:
  assumes "inv s" "by_type t s = Ok m"
  shows "sv \<in> set (gm_vals m) \<longleftrightarrow> (lookup s (sv_ID sv) = Some sv \<and> sv_Type sv = t)"
  using by_type_Ok [OF assms] lookup_id [OF assms(1)] by (auto simp: gm_vals_get)

lemma by_type_known:
  assumes "inv s" "lookup s i = Some sv"
  shows "\<exists>m. by_type (sv_Type sv) s = Ok m \<and> gm_get m i = Some sv"
proof (cases "by_type (sv_Type sv) s")
  case (Ok m)
  then show ?thesis using by_type_Ok [OF assms(1) Ok] assms(2) by auto
next
  case (Err e)
  then show ?thesis using by_type_Err [OF assms(1) Err] assms(2) by auto
next
  case (Panic p)
  then show ?thesis using by_type_total [of "sv_Type sv" s] by simp
qed

lemma by_type_none:
  assumes "inv s" "\<And>i sv. lookup s i = Some sv \<Longrightarrow> sv_Type sv \<noteq> t"
  shows "by_type t s = Err ErrNoServersAvailableOfType"
proof (cases "by_type t s")
  case (Ok m)
  then have "m \<noteq> []" "gm_get m i = None" for i
    using by_type_Ok [OF assms(1) Ok] assms(2) by (auto, cases "gm_get m i") auto
  then show ?thesis by (auto simp: gm_nonempty_get)
next
  case (Err e)
  then show ?thesis using by_type_Err [OF assms(1) Err] by simp
next
  case (Panic p)
  then show ?thesis using by_type_total [of t s] by simp
qed

end

text \<open>The registry as the watcher and the synchronisation see it: it can also be changed.\<close>

locale discovery_updates = discovery +
  fixes add :: "server \<Rightarrow> 's \<Rightarrow> 's"
    and del :: "string \<Rightarrow> 's \<Rightarrow> 's"
  assumes add_inv: "inv s \<Longrightarrow> inv (add sv s)"
    and del_inv: "inv s \<Longrightarrow> inv (del i s)"
    and add_lookup: "lookup (add sv s) =
      (if lookup s (sv_ID sv) = None then (lookup s)(sv_ID sv \<mapsto> sv) else lookup s)"
    and del_lookup: "inv s \<Longrightarrow> lookup (del i s) = (lookup s)(i := None)"
begin

lemma by_type_after_add:
  assumes "inv s" "lookup s (sv_ID sv) = None"
  shows "\<exists>m. by_type (sv_Type sv) (add sv s) = Ok m \<and> gm_get m (sv_ID sv) = Some sv"
  using assms by (intro by_type_known) (simp_all add: add_inv add_lookup)

lemma add_known: "lookup s (sv_ID sv) = Some sv' \<Longrightarrow> lookup (add sv s) = lookup s"
  by (simp add: add_lookup)

lemma by_id_after_del: "inv s \<Longrightarrow> by_id i (del i s) = Err ErrNoServerWithID"
  by (simp add: by_id_spec del_lookup)

lemma add_del_lookup: "inv s \<Longrightarrow> lookup (add sv (del (sv_ID sv) s)) = (lookup s)(sv_ID sv \<mapsto> sv)"
  by (simp add: add_lookup del_lookup)

end

interpretation sdreg: discovery_updates sd_inv registry_abs GetServersByType GetServer addServer deleteServer
proof
  fix s t m
  assume "sd_inv s" "GetServersByType t s = Ok m"
  then show "m \<noteq> [] \<and> gm_wf m \<and>
      (\<forall>i sv. gm_get m i = Some sv \<longleftrightarrow> registry_abs s i = Some sv \<and> sv_Type sv = t)"
    using GetServersByType_Ok [of s t m] by (auto simp: sd_inv_def)
next
  fix s t e
  assume "sd_inv s" "GetServersByType t s = Err e"
  moreover have "type_entry s t i = Some sv" if "registry_abs s i = Some sv" "sv_Type sv = t" for i sv
    using \<open>sd_inv s\<close> that by (simp add: sd_inv_def)
  ultimately show "e = ErrNoServersAvailableOfType \<and> (\<forall>i sv. registry_abs s i = Some sv \<longrightarrow> sv_Type sv \<noteq> t)"
    using GetServersByType_Err [of s t e] by fastforce
next
  fix t s
  show "\<not> is_panic (GetServersByType t s)"
    by (simp add: GetServersByType_def split: option.splits)
next
  fix s i
  show "GetServer i s = (case registry_abs s i of Some sv \<Rightarrow> Ok sv | None \<Rightarrow> Err ErrNoServerWithID)"
    by (simp add: GetServer_def registry_abs_def)
next
  fix s i sv
  assume "sd_inv s" "registry_abs s i = Some sv"
  then show "sv_ID sv = i" by (simp add: sd_inv_def)
qed (auto simp: addServer_inv deleteServer_inv registry_simps)

section \<open>Properties\<close>

text \<open>
  C4: the two maps of the registry never disagree. The invariant (the type map holds exactly the
  servers of the id map, each under its own type and id) is kept by adding, deleting and pruning
  servers; on the abstract view, adding inserts only an unknown id, deleting removes one id, and
  pruning keeps exactly the ids that are listed.
\<close>

theorem registry_refines:
  assumes "sd_inv sd"
  shows "sd_inv (addServer sv sd) \<and> sd_inv (deleteServer i sd) \<and> sd_inv (deleteLocalInvalidServers keep sd) \<and>
    registry_abs (addServer sv sd) =
      (if registry_abs sd (sv_ID sv) = None then (registry_abs sd)(sv_ID sv \<mapsto> sv) else registry_abs sd) \<and>
    registry_abs (deleteServer i sd) = (registry_abs sd)(i := None) \<and>
    registry_abs (deleteLocalInvalidServers keep sd) = (registry_abs sd) |` set keep"
  using assms
  by (simp add: addServer_inv deleteServer_inv deleteLocalInvalidServers_inv registry_simps)

definition sample_sd :: sdstate where
  "sample_sd =
     \<lparr>sd_serverMapByType = [(''chat'', [(''c1'', \<lparr>sv_ID = ''c1'', sv_Type = ''chat'', sv_Metadata = [], sv_Hostname = ''h''\<rparr>)])],
      sd_serverMapByID = [(''c1'', \<lparr>sv_ID = ''c1'', sv_Type = ''chat'', sv_Metadata = [], sv_Hostname = ''h''\<rparr>)],
      sd_server = \<lparr>sv_ID = ''me'', sv_Type = ''game'', sv_Metadata = [], sv_Hostname = ''h''\<rparr>,
      sd_listeners = [0, 1], sd_log = [], sd_cfg = newDefaultEtcdServiceDiscoveryConfig,
      sd_cli = True, sd_appDieChan = True, sd_running = True, sd_leaseID = 7,
      sd_stopChan_closed = False, sd_stopLeaseChan_closed = False, sd_lastSyncTime = 0, sd_calls = []\<rparr>"

lemma sample_sd_inv: "sd_inv sample_sd"
  by (auto simp: sd_inv_def sample_sd_def registry_abs_def type_entry_def gm_get_def gm_wf_def split: if_splits)

theorem registry_refines_witness:
  "sd_inv (deleteServer ''c1'' sample_sd) \<and> registry_abs (deleteServer ''c1'' sample_sd) ''c1'' = None"
  using registry_refines [OF sample_sd_inv, of _ "''c1''"] by simp

text \<open>
  Lookups agree with the registry. The servers returned for a type are exactly the registered
  ones of that type, the result is never empty, and an error is returned exactly when there is none.
\<close>

lemma GetServersByType_spec:
  assumes "sd_inv sd"
  shows "(case GetServersByType t sd of
      Ok m \<Rightarrow> m \<noteq> [] \<and> (\<forall>i sv. gm_get m i = Some sv \<longleftrightarrow> registry_abs sd i = Some sv \<and> sv_Type sv = t)
    | Err e \<Rightarrow> e = ErrNoServersAvailableOfType \<and> (\<forall>i sv. registry_abs sd i = Some sv \<longrightarrow> sv_Type sv \<noteq> t)
    | Panic p \<Rightarrow> False)"
  using sdreg.by_type_Ok [OF assms] sdreg.by_type_Err [OF assms] sdreg.by_type_total [of t sd]
  by (cases "GetServersByType t sd") simp_all

text \<open>
  Listeners hear of every change once. A new server of another node is announced to each
  listener in registration order, the node's own server and an already known id are not; a removal
  is announced with the server that was registered.
\<close>

lemma registry_notifications:
  "sd_log (addServer sv sd) = sd_log sd @
     (if registry_abs sd (sv_ID sv) = None \<and> sv_ID sv \<noteq> sv_ID (sd_server sd)
      then map (\<lambda>l. (ADD, l, sv)) (sd_listeners sd) else []) \<and>
   sd_log (deleteServer i sd) = sd_log sd @
     (case registry_abs sd i of None \<Rightarrow> [] | Some old \<Rightarrow> map (\<lambda>l. (DEL, l, old)) (sd_listeners sd))"
  by (auto simp: addServer_def deleteServer_def registry_abs_def Let_def notifyListeners_def
      split: option.splits)

end
