(* ===== verification/ParallelGetter.thy ===== *)
theory ParallelGetter
  imports Server "HOL-Library.Multiset"
begin

text \<open>
  The parallel getter of \<open>cluster/etcd_service_discovery.go\<close>: one caller hands works to a pool of
  goroutines over an unbuffered channel and waits on a wait group. \<open>pg_step\<close> is the interleaving
  of the caller and the workers; a load's outcome is what etcd and the JSON decoder give for the
  work. The theory shows that the getter neither deadlocks nor runs forever, and that every
  interleaving collects the same servers, each work's result exactly once.
\<close>

section \<open>Data\<close>

text \<open>\<open>pw_payload\<close> is nil (\<open>None\<close>) when the value still has to be fetched.\<close>

record parallelGetterWork =
  pw_serverType :: string
  pw_serverID :: string
  pw_payload :: "string option"

text \<open>What \<open>cli.Get\<close> answers for a key: an error, or the key-value pairs found.\<close>

type_synonym etcd_get = "string \<Rightarrow> string + (string \<times> string option) list"

record pgstate =
  pg_todo :: "parallelGetterWork list"
  pg_sending :: "parallelGetterWork option"
  pg_busy :: "parallelGetterWork multiset"
  pg_wg :: int
  pg_result :: "server option list"

section \<open>Operations\<close>

definition getServerFromEtcd ::
  "etcd_get \<Rightarrow> json_codec \<Rightarrow> string \<Rightarrow> string \<Rightarrow> (goerror, server option) outcome" where
  "getServerFromEtcd get js serverType serverID =
     (let svKey = getKey serverID serverType in
      case get svKey of
        Inl err \<Rightarrow> Err (PlainError (''error getting server: '' @ svKey @ '' from etcd, error: '' @ err))
      | Inr kvs \<Rightarrow>
          (case kvs of
             [] \<Rightarrow> Err (PlainError (''didn't found server: '' @ svKey @ '' in etcd''))
           | (_, val) # _ \<Rightarrow> parseServer js (case val of None \<Rightarrow> '''' | Some v \<Rightarrow> v)))"

definition load_work :: "etcd_get \<Rightarrow> json_codec \<Rightarrow> parallelGetterWork \<Rightarrow> (goerror, server option) outcome" where
  "load_work get js work =
     (case pw_payload work of
        None \<Rightarrow> getServerFromEtcd get js (pw_serverType work) (pw_serverID work)
      | Some val \<Rightarrow> parseServer js val)"

definition numWorkers_of :: "int \<Rightarrow> nat" where
  "numWorkers_of numWorkers = nat (if numWorkers \<le> 0 then 10 else numWorkers)"

definition newParallelGetter :: "parallelGetterWork list \<Rightarrow> pgstate" where
  "newParallelGetter works =
     \<lparr>pg_todo = works, pg_sending = None, pg_busy = {#}, pg_wg = 0, pg_result = []\<rparr>"

text \<open>
  One step of the caller (\<open>addWork\<close>: \<open>wg.Add(1)\<close>, then the send that waits for an idle worker)
  or of a worker (it has loaded its work; a failed load is only counted down, a successful one is
  appended under the result mutex first).
\<close>

inductive pg_step :: "nat \<Rightarrow> (parallelGetterWork \<Rightarrow> (goerror, server option) outcome) \<Rightarrow>
    pgstate \<Rightarrow> pgstate \<Rightarrow> bool"
  for n load where
  addWork: "pg_todo s = w # ws \<Longrightarrow> pg_sending s = None \<Longrightarrow>
    pg_step n load s (s\<lparr>pg_todo := ws, pg_sending := Some w, pg_wg := pg_wg s + 1\<rparr>)"
| receive: "pg_sending s = Some w \<Longrightarrow> size (pg_busy s) < n \<Longrightarrow>
    pg_step n load s (s\<lparr>pg_sending := None, pg_busy := add_mset w (pg_busy s)\<rparr>)"
| loaded: "pg_busy s = add_mset w b \<Longrightarrow> load w = Ok sv \<Longrightarrow>
    pg_step n load s (s\<lparr>pg_busy := b, pg_result := pg_result s @ [sv], pg_wg := pg_wg s - 1\<rparr>)"
| failed: "pg_busy s = add_mset w b \<Longrightarrow> load w = Err e \<Longrightarrow>
    pg_step n load s (s\<lparr>pg_busy := b, pg_wg := pg_wg s - 1\<rparr>)"

text \<open>\<open>waitAndGetResult\<close> returns when all works are handed over and the wait group is at zero.\<close>

definition pg_final :: "pgstate \<Rightarrow> bool" where
  "pg_final s \<longleftrightarrow> pg_todo s = [] \<and> pg_sending s = None \<and> pg_wg s = 0"

definition pg_collects ::
  "nat \<Rightarrow> (parallelGetterWork \<Rightarrow> (goerror, server option) outcome) \<Rightarrow>
    parallelGetterWork list \<Rightarrow> server option list \<Rightarrow> bool" where
  "pg_collects n load works result \<longleftrightarrow>
     (\<exists>s. (pg_step n load)\<^sup>*\<^sup>* (newParallelGetter works) s \<and> pg_final s \<and> pg_result s = result)"

section \<open>Specification: the loads that succeed\<close>

fun loads :: "(parallelGetterWork \<Rightarrow> (goerror, server option) outcome) \<Rightarrow>
    parallelGetterWork list \<Rightarrow> server option list" where
  "loads load [] = []"
| "loads load (w # ws) = (case load w of Ok sv \<Rightarrow> sv # loads load ws | _ \<Rightarrow> loads load ws)"

section \<open>Invariant\<close>

definition load_mset :: "(parallelGetterWork \<Rightarrow> (goerror, server option) outcome) \<Rightarrow>
    parallelGetterWork multiset \<Rightarrow> server option multiset" where
  "load_mset load ws = (\<Sum>w\<in>#ws. (case load w of Ok sv \<Rightarrow> {#sv#} | _ \<Rightarrow> {#}))"

definition pg_pending :: "pgstate \<Rightarrow> parallelGetterWork multiset" where
  "pg_pending s = mset (pg_todo s) + (case pg_sending s of None \<Rightarrow> {#} | Some w \<Rightarrow> {#w#}) + pg_busy s"

text \<open>
  The wait group counts the works that are being handed over or loaded, and the results so far
  together with what the pending works will give are the specified ones.
\<close>

definition pg_inv :: "nat \<Rightarrow> (parallelGetterWork \<Rightarrow> (goerror, server option) outcome) \<Rightarrow>
    parallelGetterWork list \<Rightarrow> pgstate \<Rightarrow> bool" where
  "pg_inv n load works s \<longleftrightarrow>
     pg_wg s = int (size (pg_busy s)) + (if pg_sending s = None then 0 else 1) \<and>
     size (pg_busy s) \<le> n \<and>
     mset (pg_result s) + load_mset load (pg_pending s) = mset (loads load works) \<and>
     pg_pending s \<subseteq># mset works"

text \<open>Every work passes three stages; each step moves one of them on.\<close>

definition pg_measure :: "pgstate \<Rightarrow> nat" where
  "pg_measure s = 3 * length (pg_todo s) + (if pg_sending s = None then 0 else 2) + size (pg_busy s)"

inductive_cases pg_stepE: "pg_step n load s s'"

lemma load_mset_simps [simp]:
  "load_mset load {#} = {#}"
  "load_mset load (add_mset w ws) = (case load w of Ok sv \<Rightarrow> {#sv#} | _ \<Rightarrow> {#}) + load_mset load ws"
  "load_mset load (ws + ws') = load_mset load ws + load_mset load ws'"
  by (simp_all add: load_mset_def)

lemma load_mset_loads: "load_mset load (mset ws) = mset (loads load ws)"
  by (induction ws) (auto split: outcome.splits)

lemma pg_inv_new: "pg_inv n load works (newParallelGetter works)"
  by (simp add: pg_inv_def newParallelGetter_def pg_pending_def load_mset_loads)

lemma pg_pending_step: "pg_step n load s s' \<Longrightarrow> pg_pending s' \<subseteq># pg_pending s"
  by (erule pg_stepE) (simp_all add: pg_pending_def)

lemma pg_inv_step:
  assumes step: "pg_step n load s s'" and inv: "pg_inv n load works s"
  shows "pg_inv n load works s'"
proof -
  have "pg_pending s' \<subseteq># mset works"
    using pg_pending_step [OF step] inv by (meson pg_inv_def subset_mset.order_trans)
  moreover from step inv
  have "mset (pg_result s') + load_mset load (pg_pending s') = mset (loads load works)"
    by cases (simp_all add: pg_inv_def pg_pending_def add_ac)
  moreover from step inv
  have "pg_wg s' = int (size (pg_busy s')) + (if pg_sending s' = None then 0 else 1) \<and> size (pg_busy s') \<le> n"
    by cases (simp_all add: pg_inv_def)
  ultimately show ?thesis by (simp add: pg_inv_def)
qed

interpretation pgrun: step_invariant "pg_step n load" "pg_inv n load works" for n load works
  by unfold_locales (rule pg_inv_step)

lemmas pg_inv_steps = pgrun.steps

lemma pg_step_measure: "pg_step n load s s' \<Longrightarrow> pg_measure s' < pg_measure s"
  by (erule pg_stepE) (simp_all add: pg_measure_def)

lemma pg_progress:
  assumes "pg_inv n load works s" "0 < n" "\<not> pg_final s" "\<And>w. w \<in> set works \<Longrightarrow> \<not> is_panic (load w)"
  shows "\<exists>s'. pg_step n load s s'"
proof (cases "pg_busy s = {#}")
  case True
  then have "pg_sending s \<noteq> None \<or> pg_todo s \<noteq> []"
    using assms by (auto simp: pg_inv_def pg_final_def)
  then show ?thesis
  proof (cases "pg_sending s")
    case None
    then obtain w ws where "pg_todo s = w # ws"
      using \<open>pg_sending s \<noteq> None \<or> pg_todo s \<noteq> []\<close> by (cases "pg_todo s") auto
    then show ?thesis using None pg_step.addWork by blast
  next
    case (Some w)
    then show ?thesis using True assms(2) pg_step.receive [of s w n] by auto
  qed
next
  case False
  then obtain w b where b: "pg_busy s = add_mset w b" by (meson multiset_cases)
  have "w \<in># pg_pending s" by (simp add: pg_pending_def b)
  then have "w \<in># mset works"
    using assms(1) unfolding pg_inv_def by (meson mset_subset_eqD)
  then show ?thesis
    using assms(4) [of w] pg_step.loaded [OF b] pg_step.failed [OF b]
    by (cases "load w") (auto, blast+)
qed
lemma pg_run_finishes:
  assumes "pg_inv n load works s" "0 < n" "\<And>w. w \<in> set works \<Longrightarrow> \<not> is_panic (load w)"
  shows "\<exists>s'. (pg_step n load)\<^sup>*\<^sup>* s s' \<and> pg_final s'"
  using assms(1)
proof (induction "pg_measure s" arbitrary: s rule: less_induct)
  case less
  show ?case
  proof (cases "pg_final s")
    case False
    then obtain s1 where s1: "pg_step n load s s1"
      using pg_progress [OF less.prems assms(2) _ assms(3)] by blast
    then obtain s' where "(pg_step n load)\<^sup>*\<^sup>* s1 s'" "pg_final s'"
      using less.hyps pg_step_measure pg_inv_step less.prems by blast
    then show ?thesis using s1 by (meson converse_rtranclp_into_rtranclp)
  qed blast
qed

lemma pg_run_length: "(pg_step n load ^^ k) s s' \<Longrightarrow> k + pg_measure s' \<le> pg_measure s"
proof (induction k arbitrary: s')
  case (Suc k)
  then show ?case using pg_step_measure by fastforce
qed simp

lemma pg_final_result:
  assumes "pg_inv n load works s" "pg_final s"
  shows "mset (pg_result s) = mset (loads load works)"
proof -
  have "pg_busy s = {#}" using assms by (auto simp: pg_inv_def pg_final_def)
  then show ?thesis using assms by (simp add: pg_inv_def pg_final_def pg_pending_def)
qed

lemma pg_collects_mset: "pg_collects n load works r \<Longrightarrow> mset r = mset (loads load works)"
  using pg_inv_steps pg_inv_new pg_final_result by (fastforce simp: pg_collects_def)

lemma getServerFromEtcd_not_panic [simp]: "\<not> is_panic (getServerFromEtcd get js ty i)"
  by (auto simp: getServerFromEtcd_def Let_def is_panic_def split: sum.splits list.splits outcome.splits)

lemma load_work_not_panic [simp]: "\<not> is_panic (load_work get js w)"
  by (auto simp: load_work_def is_panic_def getServerFromEtcd_def Let_def
      split: option.splits sum.splits list.splits outcome.splits)

lemma numWorkers_of_pos [simp]: "0 < numWorkers_of k"
  by (simp add: numWorkers_of_def)

text \<open>One of the interleavings handles the works one after the other.\<close>

lemma pg_sequential:
  assumes "0 < n" "\<And>w. \<not> is_panic (load w)"
  shows "(pg_step n load)\<^sup>*\<^sup>*
      \<lparr>pg_todo = works, pg_sending = None, pg_busy = {#}, pg_wg = 0, pg_result = r\<rparr>
      \<lparr>pg_todo = [], pg_sending = None, pg_busy = {#}, pg_wg = 0, pg_result = r @ loads load works\<rparr>"
proof (induction works arbitrary: r)
  case (Cons w ws)
  let ?S = "\<lambda>td sd b wg r. \<lparr>pg_todo = td, pg_sending = sd, pg_busy = b, pg_wg = wg, pg_result = r\<rparr>"
  have "pg_step n load (?S (w # ws) None {#} 0 r) (?S ws (Some w) {#} 1 r)"
    using pg_step.addWork [of "?S (w # ws) None {#} 0 r"] by simp
  moreover have "pg_step n load (?S ws (Some w) {#} 1 r) (?S ws None {#w#} 1 r)"
    using pg_step.receive [of "?S ws (Some w) {#} 1 r"] assms(1) by simp
  moreover have "pg_step n load (?S ws None {#w#} 1 r) (?S ws None {#} 0 (r @ loads load [w]))"
    using assms(2) [of w] pg_step.loaded [of "?S ws None {#w#} 1 r" w "{#}" load]
      pg_step.failed [of "?S ws None {#w#} 1 r" w "{#}" load] by (cases "load w") simp_all
  moreover have "(pg_step n load)\<^sup>*\<^sup>* (?S ws None {#} 0 (r @ loads load [w])) (?S [] None {#} 0 (r @ loads load (w # ws)))"
    using Cons [of "r @ loads load [w]"] by (cases "load w") simp_all
  ultimately show ?case by (meson converse_rtranclp_into_rtranclp)
qed simp

lemma pg_collects_loads: "pg_collects (numWorkers_of k) (load_work get js) works (loads (load_work get js) works)"
  unfolding pg_collects_def newParallelGetter_def
  using pg_sequential [of "numWorkers_of k" "load_work get js" works "[]"] by (force simp: pg_final_def)

section \<open>Properties\<close>

text \<open>
  C34: the parallel getter terminates, does not deadlock and loses nothing. Whatever number of workers
  is configured, every interleaving of the caller and the workers ends after at most three
  steps per work; a state that is not final can always be continued to a final one; and when
  \<open>waitAndGetResult\<close> returns, the results are exactly those of the works whose load succeeded, each
  as often as it was asked for.
\<close>

theorem parallelGetter_collects:
  assumes "(pg_step (numWorkers_of k) (load_work get js) ^^ m) (newParallelGetter works) s"
  shows "m \<le> 3 * length works \<and>
    (\<exists>s'. (pg_step (numWorkers_of k) (load_work get js))\<^sup>*\<^sup>* s s' \<and> pg_final s') \<and>
    (pg_final s \<longrightarrow> mset (pg_result s) = mset (loads (load_work get js) works))"
proof -
  have "pg_inv (numWorkers_of k) (load_work get js) works s"
    using assms pg_inv_steps pg_inv_new by (metis relpowp_imp_rtranclp)
  moreover have "m \<le> 3 * length works"
    using pg_run_length [OF assms] by (simp add: newParallelGetter_def pg_measure_def)
  ultimately show ?thesis
    using pg_run_finishes pg_final_result by fastforce
qed

definition sample_works :: "parallelGetterWork list" where
  "sample_works = [\<lparr>pw_serverType = ''chat'', pw_serverID = ''c1'', pw_payload = None\<rparr>]"

theorem parallelGetter_collects_witness:
  "\<exists>s'. (pg_step (numWorkers_of 0) (load_work (\<lambda>_. Inl ''down'') \<lparr>json_marshal = \<lambda>_. Inl [], json_unmarshal = \<lambda>_. Inl []\<rparr>))\<^sup>*\<^sup>*
      (newParallelGetter sample_works) s' \<and> pg_final s'"
  using parallelGetter_collects [of 0 0 "\<lambda>_. Inl ''down''" "\<lparr>json_marshal = \<lambda>_. Inl [], json_unmarshal = \<lambda>_. Inl []\<rparr>"
      sample_works "newParallelGetter sample_works"] by simp

end
