(* ===== verification/Discovery.thy ===== *)
theory Discovery
  imports Registry ParallelGetter
begin

text \<open>
  The rest of \<open>cluster/etcd_service_discovery.go\<close>: construction and \<open>Init\<close>, the lease that keeps
  the server announced and its renewal, \<open>SyncServers\<close>, the watcher of etcd changes and shutdown.
  etcd answers each request as the record \<open>etcd_env\<close> says; every call of an operation gets its own
  answers, so they may differ from call to call. \<open>ee_schedule\<close> is what the parallel getter returned
  for the works it was given (an interleaving, see \<open>ParallelGetter\<close>). Requests and started
  goroutines are appended to \<open>sd_calls\<close>.
\<close>

section \<open>etcd as the component sees it\<close>

record etcd_env =
  ee_New :: "string option"
  ee_Grant :: "int \<Rightarrow> string + int"
  ee_KeepAlive :: "int \<Rightarrow> string option"
  ee_Put :: "string \<Rightarrow> string \<Rightarrow> int \<Rightarrow> string option"
  ee_GetPrefix :: "bool \<Rightarrow> string + (string \<times> string option) list"
  ee_Get :: etcd_get
  ee_Revoke :: "int \<Rightarrow> string option"
  ee_json :: json_codec
  ee_schedule :: "parallelGetterWork list \<Rightarrow> server option list"
  ee_now :: int

definition nil_deref :: string where
  "nil_deref = ''invalid memory address or nil pointer dereference''"

definition called :: "etcd_call \<Rightarrow> sdstate \<Rightarrow> sdstate" where
  "called c sd = sd\<lparr>sd_calls := sd_calls sd @ [c]\<rparr>"

text \<open>\<open>int64(d.Seconds())\<close>: whole seconds, truncated towards zero.\<close>

definition whole_seconds :: "int \<Rightarrow> int" where
  "whole_seconds d = (if d < 0 then - ((- d) div Second) else d div Second)"

section \<open>Construction\<close>

definition configure_sd :: "EtcdServiceDiscoveryConfig \<Rightarrow> sdstate \<Rightarrow> sdstate" where
  "configure_sd cfg sd = sd\<lparr>sd_cfg := cfg\<rparr>"

definition NewEtcdServiceDiscovery ::
  "EtcdServiceDiscoveryConfig \<Rightarrow> server \<Rightarrow> bool \<Rightarrow> bool list \<Rightarrow> sdstate" where
  "NewEtcdServiceDiscovery cfg sv appDieChan cli =
     configure_sd cfg
       \<lparr>sd_serverMapByType = gm_empty, sd_serverMapByID = gm_empty, sd_server = sv, sd_listeners = [],
        sd_log = [], sd_cfg = cfg, sd_cli = (case cli of [] \<Rightarrow> False | c # _ \<Rightarrow> c),
        sd_appDieChan = appDieChan, sd_running = False, sd_leaseID = 0,
        sd_stopChan_closed = False, sd_stopLeaseChan_closed = False, sd_lastSyncTime = 0, sd_calls = []\<rparr>"

definition InitETCDClient :: "etcd_env \<Rightarrow> sdstate \<Rightarrow> (goerror, unit) outcome \<times> sdstate" where
  "InitETCDClient env sd =
     (let sd = called CallNew sd in
      case ee_New env of
        Some err \<Rightarrow> (Err (PlainError err), sd)
      | None \<Rightarrow> (Ok (), sd\<lparr>sd_cli := True\<rparr>))"

section \<open>Synchronisation\<close>

text \<open>The loop over the listed keys: the ids seen, and the works for the ids not known locally.\<close>

fun scan_kvs :: "bool \<Rightarrow> sdstate \<Rightarrow> (string \<times> string option) list \<Rightarrow> string list \<times> parallelGetterWork list" where
  "scan_kvs firstSync sd [] = ([], [])"
| "scan_kvs firstSync sd ((key, val) # kvs) =
     (case parseEtcdKey key of
        Ok (svType, svID) \<Rightarrow>
          if isServerTypeBlacklisted svType sd \<and> svID \<noteq> sv_ID (sd_server sd) then scan_kvs firstSync sd kvs
          else
            let (allIds, works) = scan_kvs firstSync sd kvs in
            (svID # allIds,
             (case gm_get (sd_serverMapByID sd) svID of
                Some _ \<Rightarrow> works
              | None \<Rightarrow> \<lparr>pw_serverType = svType, pw_serverID = svID,
                          pw_payload = (if firstSync then val else None)\<rparr> # works))
      | _ \<Rightarrow> scan_kvs firstSync sd kvs)"

fun add_servers :: "server option list \<Rightarrow> sdstate \<Rightarrow> (goerror, unit) outcome \<times> sdstate" where
  "add_servers [] sd = (Ok (), sd)"
| "add_servers (None # svs) sd = (Panic nil_deref, sd)"
| "add_servers (Some sv # svs) sd = add_servers svs (addServer sv sd)"

definition SyncServers :: "etcd_env \<Rightarrow> bool \<Rightarrow> sdstate \<Rightarrow> (goerror, unit) outcome \<times> sdstate" where
  "SyncServers env firstSync sd =
     (if \<not> sd_cli sd then (Panic nil_deref, sd)
      else
        let keysOnly = (\<not> firstSync);
            sd = called (CallGetPrefix keysOnly) sd
        in
        case ee_GetPrefix env keysOnly of
          Inl err \<Rightarrow> (Err (PlainError err), sd)
        | Inr kvs \<Rightarrow>
            let (allIds, works) = scan_kvs firstSync sd kvs in
            case add_servers (ee_schedule env works) sd of
              (Ok _, sd) \<Rightarrow> (Ok (), (deleteLocalInvalidServers allIds sd)\<lparr>sd_lastSyncTime := ee_now env\<rparr>)
            | (r, sd) \<Rightarrow> (r, sd))"

section \<open>The lease\<close>

definition grantLease :: "etcd_env \<Rightarrow> sdstate \<Rightarrow> (goerror, unit) outcome \<times> sdstate" where
  "grantLease env sd =
     (if \<not> sd_cli sd then (Panic nil_deref, sd)
      else
        let ttl = whole_seconds (esd_Heartbeat_TTL (sd_cfg sd));
            sd = called (CallGrant ttl) sd
        in
        case ee_Grant env ttl of
          Inl err \<Rightarrow> (Err (PlainError err), sd)
        | Inr leaseID \<Rightarrow>
            let sd = called (CallKeepAlive leaseID) (sd\<lparr>sd_leaseID := leaseID\<rparr>) in
            case ee_KeepAlive env leaseID of
              Some err \<Rightarrow> (Err (PlainError err), sd)
            | None \<Rightarrow> (Ok (), called GoWatchLeaseChan sd))"

definition addServerIntoEtcd :: "etcd_env \<Rightarrow> server \<Rightarrow> sdstate \<Rightarrow> (goerror, unit) outcome \<times> sdstate" where
  "addServerIntoEtcd env sv sd =
     (if \<not> sd_cli sd then (Panic nil_deref, sd)
      else
        let key = getKey (sv_ID sv) (sv_Type sv);
            val = AsJSONString (ee_json env) sv;
            sd = called (CallPut key val (sd_leaseID sd)) sd
        in
        (case ee_Put env key val (sd_leaseID sd) of None \<Rightarrow> Ok () | Some err \<Rightarrow> Err (PlainError err), sd))"

text \<open>The error of \<open>SyncServers\<close> is dropped; a panic in it is not.\<close>

definition bootstrapServer :: "etcd_env \<Rightarrow> server \<Rightarrow> sdstate \<Rightarrow> (goerror, unit) outcome \<times> sdstate" where
  "bootstrapServer env sv sd =
     (case addServerIntoEtcd env sv sd of
        (Ok _, sd) \<Rightarrow>
          (case SyncServers env True sd of
             (Panic p, sd) \<Rightarrow> (Panic p, sd)
           | (_, sd) \<Rightarrow> (Ok (), sd))
      | (r, sd) \<Rightarrow> (r, sd))"

definition bootstrap :: "etcd_env \<Rightarrow> sdstate \<Rightarrow> (goerror, unit) outcome \<times> sdstate" where
  "bootstrap env sd =
     (case grantLease env sd of
        (Ok _, sd) \<Rightarrow> bootstrapServer env (sd_server sd) sd
      | (r, sd) \<Rightarrow> (r, sd))"

text \<open>
  \<open>renewLease\<close> races the granting goroutine against a timer. When the timer wins the goroutine is
  left running; what it still does happens after the return and is not part of the result.
\<close>

record renew_attempt =
  ra_env :: etcd_env
  ra_timedOut :: bool

definition renewLease :: "renew_attempt \<Rightarrow> sdstate \<Rightarrow> (goerror, unit) outcome \<times> sdstate" where
  "renewLease att sd =
     (if ra_timedOut att then (Err ErrEtcdGrantLeaseTimeout, sd)
      else
        case grantLease (ra_env att) sd of
          (Ok _, sd) \<Rightarrow> bootstrapServer (ra_env att) (sd_server sd) sd
        | (r, sd) \<Rightarrow> (r, sd))"

definition signal_die :: "sdstate \<Rightarrow> sdstate" where
  "signal_die sd = (if sd_appDieChan sd then called AppDie sd else sd)"

text \<open>
  The inner retry loop of \<open>watchLeaseChan\<close>, with \<open>maxRetries\<close> for \<open>sd.grantLeaseMaxRetries\<close>;
  \<open>atts k\<close> is what happens at the k-th attempt. The result carries the number of attempts made.
\<close>

function renew_loop :: "int \<Rightarrow> (nat \<Rightarrow> renew_attempt) \<Rightarrow> nat \<Rightarrow> int \<Rightarrow> sdstate \<Rightarrow>
    (goerror, unit) outcome \<times> nat \<times> sdstate" where
  "renew_loop maxRetries atts k failed sd =
     (case renewLease (atts k) sd of
        (Ok _, sd) \<Rightarrow> (Ok (), Suc k, sd)
      | (Panic p, sd) \<Rightarrow> (Panic p, Suc k, sd)
      | (Err e, sd) \<Rightarrow>
          let failed = failed + 1 in
          if e = ErrEtcdGrantLeaseTimeout then (Err e, Suc k, signal_die sd)
          else if failed \<ge> maxRetries then (Err e, Suc k, signal_die sd)
          else renew_loop maxRetries atts (Suc k) failed sd)"
  by pat_completeness auto
termination
  by (relation "measure (\<lambda>(maxRetries, atts, k, failed, sd). nat (maxRetries - failed))") auto

declare renew_loop.simps [simp del]

text \<open>
  What the select of \<open>watchLeaseChan\<close> receives. A lost lease (a closed channel or a nil response)
  leads to the retry loop, after which the goroutine returns in every case. The boolean says whether
  it has returned.
\<close>

datatype lease_input = StopReceived | StopLeaseReceived | LeaseResponse | LeaseLost

fun watchLeaseChan :: "(nat \<Rightarrow> renew_attempt) \<Rightarrow> lease_input list \<Rightarrow> int \<Rightarrow> sdstate \<Rightarrow>
    (goerror, unit) outcome \<times> bool \<times> sdstate" where
  "watchLeaseChan atts [] failed sd = (Ok (), False, sd)"
| "watchLeaseChan atts (StopReceived # ins) failed sd = (Ok (), True, sd)"
| "watchLeaseChan atts (StopLeaseReceived # ins) failed sd = (Ok (), True, sd)"
| "watchLeaseChan atts (LeaseResponse # ins) failed sd = watchLeaseChan atts ins 0 sd"
| "watchLeaseChan atts (LeaseLost # ins) failed sd =
     (case renew_loop (esd_GrantLease_MaxRetries (sd_cfg sd)) atts 0 failed sd of
        (r, _, sd) \<Rightarrow> (r, True, sd))"

section \<open>The watcher\<close>

datatype event_type = EventTypePut | EventTypeDelete

record watch_event =
  ev_Type :: event_type
  ev_Key :: string
  ev_Value :: "string option"

text \<open>One iteration of the loop over the events of a response.\<close>

definition handle_event :: "json_codec \<Rightarrow> watch_event \<Rightarrow> sdstate \<Rightarrow> (goerror, unit) outcome \<times> sdstate" where
  "handle_event js ev sd =
     (case parseEtcdKey (ev_Key ev) of
        Ok (svType, svID) \<Rightarrow>
          if isServerTypeBlacklisted svType sd \<and> sv_ID (sd_server sd) \<noteq> svID then (Ok (), sd)
          else
            (case ev_Type ev of
               EventTypePut \<Rightarrow>
                 (case parseServer js (case ev_Value ev of None \<Rightarrow> '''' | Some v \<Rightarrow> v) of
                    Ok None \<Rightarrow> (Panic nil_deref, sd)
                  | Ok (Some sv) \<Rightarrow> (Ok (), addServer sv sd)
                  | _ \<Rightarrow> (Ok (), sd))
             | EventTypeDelete \<Rightarrow> (Ok (), deleteServer svID sd))
      | _ \<Rightarrow> (Ok (), sd))"

fun handle_events :: "json_codec \<Rightarrow> watch_event list \<Rightarrow> sdstate \<Rightarrow> (goerror, unit) outcome \<times> sdstate" where
  "handle_events js [] sd = (Ok (), sd)"
| "handle_events js (ev # evs) sd =
     (case handle_event js ev sd of
        (Ok _, sd) \<Rightarrow> handle_events js evs sd
      | (r, sd) \<Rightarrow> (r, sd))"

text \<open>
  The case \<open>wResp, ok := <-chn\<close> of the watcher's select. The argument of \<open>WatchResponse\<close> is
  the response's events (its error is only logged), \<open>WatchDied\<close> is a receive on the closed channel, with
  the answers of etcd for the client that may be created then.
\<close>

datatype watch_input = WatchResponse "watch_event list" | WatchDied etcd_env

definition watch_receive :: "json_codec \<Rightarrow> watch_input \<Rightarrow> nat \<Rightarrow> sdstate \<Rightarrow>
    (goerror, unit) outcome \<times> nat \<times> sdstate" where
  "watch_receive js inp failedWatchAttempts sd =
     (case inp of
        WatchDied env \<Rightarrow>
          let failed = failedWatchAttempts + 1 in
          if failed > 10 then
            (case InitETCDClient env sd of
               (Ok _, sd) \<Rightarrow> (Ok (), 0, called CallWatch sd)
             | (_, sd) \<Rightarrow> (Ok (), 0, sd))
          else (Ok (), failed, sd)
      | WatchResponse evs \<Rightarrow> (case handle_events js evs sd of (r, sd) \<Rightarrow> (r, 0, sd)))"

fun watch_run :: "json_codec \<Rightarrow> watch_input list \<Rightarrow> nat \<Rightarrow> sdstate \<Rightarrow>
    (goerror, unit) outcome \<times> nat \<times> sdstate" where
  "watch_run js [] failed sd = (Ok (), failed, sd)"
| "watch_run js (i # ins) failed sd =
     (if \<not> sd_running sd then (Ok (), failed, sd)
      else
        case watch_receive js i failed sd of
          (Ok _, failed, sd) \<Rightarrow> watch_run js ins failed sd
        | (r, failed, sd) \<Rightarrow> (r, failed, sd))"

section \<open>Start and stop\<close>

text \<open>
  \<open>Init\<close>: wrapping an existing client in the key namespace is a call into the etcd library and
  does not fail. \<open>time.NewTicker\<close> panics on a non-positive interval.
\<close>

definition sd_Init :: "etcd_env \<Rightarrow> sdstate \<Rightarrow> (goerror, unit) outcome \<times> sdstate" where
  "sd_Init env sd =
     (let sd = sd\<lparr>sd_running := True\<rparr> in
      case (if sd_cli sd then (Ok (), sd) else InitETCDClient env sd) of
        (Ok _, sd) \<Rightarrow>
          (case bootstrap env (called GoWatchEtcdChanges sd) of
             (Ok _, sd) \<Rightarrow>
               if esd_SyncServers_Interval (sd_cfg sd) \<le> 0 then (Panic ''non-positive interval for NewTicker'', sd)
               else (Ok (), called GoSyncTicker sd)
           | (r, sd) \<Rightarrow> (r, sd))
      | (r, sd) \<Rightarrow> (r, sd))"

text \<open>
  \<open>revoke\<close> closes a channel, which panics the second time. Without a client nothing is ever sent
  on the result channel and nobody closes it: the receive never returns (\<open>None\<close>).
\<close>

definition revoke :: "etcd_env \<Rightarrow> sdstate \<Rightarrow> ((goerror, unit) outcome \<times> sdstate) option" where
  "revoke env sd =
     (if sd_stopLeaseChan_closed sd then Some (Panic ''close of closed channel'', sd)
      else
        let sd = sd\<lparr>sd_stopLeaseChan_closed := True\<rparr> in
        if \<not> sd_cli sd then None
        else
          let sd = called (CallRevoke (sd_leaseID sd)) sd in
          Some (case ee_Revoke env (sd_leaseID sd) of None \<Rightarrow> Ok () | Some err \<Rightarrow> Err (PlainError err), sd))"

definition sd_BeforeShutdown :: "etcd_env \<Rightarrow> sdstate \<Rightarrow> ((goerror, unit) outcome \<times> sdstate) option" where
  "sd_BeforeShutdown env sd =
     (case revoke env sd of
        None \<Rightarrow> None
      | Some (Panic p, sd) \<Rightarrow> Some (Panic p, sd)
      | Some (_, sd) \<Rightarrow> Some (Ok (), sd))"

definition sd_Shutdown :: "sdstate \<Rightarrow> (goerror, unit) outcome \<times> sdstate" where
  "sd_Shutdown sd =
     (let sd = sd\<lparr>sd_running := False\<rparr> in
      if sd_stopChan_closed sd then (Panic ''close of closed channel'', sd)
      else (Ok (), sd\<lparr>sd_stopChan_closed := True\<rparr>))"

section \<open>The operations keep the registry consistent\<close>

text \<open>
  \<open>sd_same\<close>: two states with the same registry, listeners and notifications. The operations that
  talk to etcd change nothing else.
\<close>

definition sd_same :: "sdstate \<Rightarrow> sdstate \<Rightarrow> bool" where
  "sd_same sd sd' \<longleftrightarrow>
     sd_serverMapByType sd' = sd_serverMapByType sd \<and> sd_serverMapByID sd' = sd_serverMapByID sd \<and>
     sd_server sd' = sd_server sd \<and> sd_listeners sd' = sd_listeners sd \<and> sd_log sd' = sd_log sd"

text \<open>What a listener that hears every notification knows: its additions and removals replayed.\<close>

fun replay :: "nat \<Rightarrow> (action \<times> nat \<times> server) list \<Rightarrow> (string \<rightharpoonup> server) \<Rightarrow> (string \<rightharpoonup> server)" where
  "replay l [] m = m"
| "replay l ((act, l', sv) # evs) m =
     replay l evs (if l' = l then (case act of ADD \<Rightarrow> m(sv_ID sv \<mapsto> sv) | DEL \<Rightarrow> m(sv_ID sv := None)) else m)"

definition listener_inv :: "nat \<Rightarrow> sdstate \<Rightarrow> bool" where
  "listener_inv l sd \<longleftrightarrow>
     sd_inv sd \<and> l \<in> set (sd_listeners sd) \<and>
     replay l (sd_log sd) Map.empty = (registry_abs sd)(sv_ID (sd_server sd) := None)"

lemma replay_append: "replay l (xs @ ys) m = replay l ys (replay l xs m)"
  by (induction l xs m rule: replay.induct) auto

lemma replay_notify:
  "replay l (map (\<lambda>l. (act, l, sv)) ls) m =
     (if l \<in> set ls then (case act of ADD \<Rightarrow> m(sv_ID sv \<mapsto> sv) | DEL \<Rightarrow> m(sv_ID sv := None)) else m)"
  by (induction ls arbitrary: m) (auto split: action.splits)

lemma sd_same_refl [simp]: "sd_same sd sd"
  by (simp add: sd_same_def)

lemma sd_same_called [simp]: "sd_same sd (called c sd') \<longleftrightarrow> sd_same sd sd'"
  by (simp add: sd_same_def called_def)

lemma sd_same_upd [simp]:
  "sd_same sd (sd'\<lparr>sd_leaseID := i\<rparr>) \<longleftrightarrow> sd_same sd sd'"
  "sd_same sd (sd'\<lparr>sd_cli := b\<rparr>) \<longleftrightarrow> sd_same sd sd'"
  "sd_same sd (sd'\<lparr>sd_running := b\<rparr>) \<longleftrightarrow> sd_same sd sd'"
  "sd_same sd (sd'\<lparr>sd_lastSyncTime := i\<rparr>) \<longleftrightarrow> sd_same sd sd'"
  "sd_same sd (sd'\<lparr>sd_stopChan_closed := b\<rparr>) \<longleftrightarrow> sd_same sd sd'"
  "sd_same sd (sd'\<lparr>sd_stopLeaseChan_closed := b\<rparr>) \<longleftrightarrow> sd_same sd sd'"
  by (simp_all add: sd_same_def)

lemma sd_same_inv: "sd_same sd sd' \<Longrightarrow> sd_inv sd' = sd_inv sd"
  by (simp add: sd_same_def sd_inv_def registry_abs_def type_entry_def)

lemma sd_same_abs: "sd_same sd sd' \<Longrightarrow> registry_abs sd' = registry_abs sd"
  by (simp add: sd_same_def registry_abs_def fun_eq_iff)

lemma sd_same_listener: "sd_same sd sd' \<Longrightarrow> listener_inv l sd' = listener_inv l sd"
  using sd_same_inv [of sd sd'] sd_same_abs [of sd sd'] by (simp add: listener_inv_def sd_same_def)

lemma registry_log:
  "sd_log (addServer sv sd) = sd_log sd @
     (if registry_abs sd (sv_ID sv) = None \<and> sv_ID sv \<noteq> sv_ID (sd_server sd)
      then map (\<lambda>l. (ADD, l, sv)) (sd_listeners sd) else [])"
  "sd_log (deleteServer i sd) = sd_log sd @
     (case registry_abs sd i of None \<Rightarrow> [] | Some old \<Rightarrow> map (\<lambda>l. (DEL, l, old)) (sd_listeners sd))"
  by (auto simp: addServer_def deleteServer_def registry_abs_def Let_def notifyListeners_def
      split: option.splits)

lemma addServer_listener: "listener_inv l sd \<Longrightarrow> listener_inv l (addServer sv sd)"
  by (auto simp: listener_inv_def addServer_inv registry_simps registry_log replay_append replay_notify
      fun_eq_iff)

lemma deleteServer_listener:
  assumes "listener_inv l sd"
  shows "listener_inv l (deleteServer i sd)"
proof (cases "registry_abs sd i")
  case (Some old)
  then have "sv_ID old = i" using assms by (simp add: listener_inv_def sd_inv_def)
  then show ?thesis
    using assms Some
    by (auto simp: listener_inv_def deleteServer_inv registry_simps registry_log replay_append replay_notify
        fun_eq_iff)
next
  case None
  then have "deleteServer i sd = sd" by (simp add: deleteServer_def registry_abs_def)
  then show ?thesis using assms by simp
qed

text \<open>
  A property of states is kept by every operation as soon as \<open>sd_same\<close>, adding and deleting a
  server keep it; the locale states this once for the two invariants.
\<close>

locale sd_kept =
  fixes I :: "sdstate \<Rightarrow> bool"
  assumes same: "sd_same sd sd' \<Longrightarrow> I sd \<Longrightarrow> I sd'"
    and add: "I sd \<Longrightarrow> I (addServer sv sd)"
    and del: "I sd \<Longrightarrow> I (deleteServer i sd)"
begin

lemma kept_called: "I sd \<Longrightarrow> I (called c sd)"
  using same [of sd "called c sd"] by simp

lemma kept_signal_die: "I sd \<Longrightarrow> I (signal_die sd)"
  by (simp add: signal_die_def kept_called)

lemma kept_prune: "I sd \<Longrightarrow> I (deleteLocalInvalidServers keep sd)"
  unfolding deleteLocalInvalidServers_def
  by (rule fold_invariant [where Q = "\<lambda>_. True"]) (simp_all add: del)

lemma kept_add_servers: "I sd \<Longrightarrow> I (snd (add_servers svs sd))"
  by (induction svs sd rule: add_servers.induct) (simp_all add: add)

lemma kept_SyncServers:
  assumes "I sd"
  shows "I (snd (SyncServers env firstSync sd))"
proof -
  have lst: "I (sd\<lparr>sd_lastSyncTime := t\<rparr>)" if "I sd" for sd t
    using that same [of sd "sd\<lparr>sd_lastSyncTime := t\<rparr>"] by simp
  have "I (snd (add_servers svs (called c sd)))" for svs c
    by (rule kept_add_servers) (rule kept_called [OF assms])
  then have "I (snd (Pair r sd'))" if "add_servers svs (called c sd) = (r, sd')" for svs c r sd'
    using that by (metis snd_conv)
  then show ?thesis
    using assms by (auto simp: SyncServers_def Let_def kept_called split: sum.splits prod.splits outcome.splits
        intro!: lst kept_prune)
qed

lemma kept_grantLease: "I sd \<Longrightarrow> I (snd (grantLease env sd))"
  by (rule same [of sd]) (simp_all add: grantLease_def Let_def split: sum.splits option.splits)

lemma kept_InitETCDClient: "I sd \<Longrightarrow> I (snd (InitETCDClient env sd))"
  by (rule same [of sd]) (simp_all add: InitETCDClient_def Let_def split: option.splits)

lemma kept_addServerIntoEtcd: "I sd \<Longrightarrow> I (snd (addServerIntoEtcd env sv sd))"
  by (rule same [of sd]) (simp_all add: addServerIntoEtcd_def Let_def)

lemma kept_bootstrapServer: "I sd \<Longrightarrow> I (snd (bootstrapServer env sv sd))"
  using kept_addServerIntoEtcd [of sd env sv] kept_SyncServers [of "snd (addServerIntoEtcd env sv sd)" env True]
  by (auto simp: bootstrapServer_def split: prod.splits outcome.splits)

lemma kept_bootstrap: "I sd \<Longrightarrow> I (snd (bootstrap env sd))"
  using kept_grantLease [of sd env] kept_bootstrapServer [of "snd (grantLease env sd)" env]
  by (auto simp: bootstrap_def split: prod.splits outcome.splits)

lemma kept_renewLease: "I sd \<Longrightarrow> I (snd (renewLease att sd))"
  using kept_grantLease [of sd "ra_env att"] kept_bootstrapServer [of "snd (grantLease (ra_env att) sd)" "ra_env att"]
  by (auto simp: renewLease_def split: prod.splits outcome.splits)

lemma kept_renew_loop: "I sd \<Longrightarrow> I (snd (snd (renew_loop mx atts k failed sd)))"
proof (induction mx atts k failed sd rule: renew_loop.induct)
  case (1 mx atts k failed sd)
  have "I (snd (renewLease (atts k) sd))" by (rule kept_renewLease) (rule 1)
  then show ?case
    using 1(1)
    by (auto simp: renew_loop.simps [of mx atts k failed sd] Let_def kept_signal_die
        split: prod.splits outcome.splits)
qed

lemma kept_watchLeaseChan: "I sd \<Longrightarrow> I (snd (snd (watchLeaseChan atts ins failed sd)))"
proof (induction atts ins failed sd rule: watchLeaseChan.induct)
  case (5 atts ins failed sd)
  then show ?case
    using kept_renew_loop [of sd "esd_GrantLease_MaxRetries (sd_cfg sd)" atts 0 failed]
    by (auto split: prod.splits)
qed simp_all

lemma kept_handle_event: "I sd \<Longrightarrow> I (snd (handle_event js ev sd))"
  by (auto simp: handle_event_def add del split: outcome.splits option.splits event_type.splits)

lemma kept_handle_events: "I sd \<Longrightarrow> I (snd (handle_events js evs sd))"
proof (induction evs arbitrary: sd)
  case (Cons ev evs)
  then show ?case
    using kept_handle_event [of sd js ev] by (auto split: prod.splits outcome.splits)
qed simp

lemma kept_watch_receive: "I sd \<Longrightarrow> I (snd (snd (watch_receive js inp failed sd)))"
proof (cases inp)
  case (WatchResponse evs)
  assume "I sd"
  then show ?thesis
    using WatchResponse kept_handle_events [of sd js evs] by (auto simp: watch_receive_def split: prod.splits)
next
  case (WatchDied env)
  assume "I sd"
  then show ?thesis
    using WatchDied kept_InitETCDClient [of sd env]
    by (auto simp: watch_receive_def Let_def kept_called split: prod.splits outcome.splits)
qed

lemma kept_watch_run: "I sd \<Longrightarrow> I (snd (snd (watch_run js ins failed sd)))"
proof (induction js ins failed sd rule: watch_run.induct)
  case (2 js i ins failed sd)
  have "I (snd (snd (watch_receive js i failed sd)))" by (rule kept_watch_receive) (rule 2)
  then show ?case using 2 by (auto split: prod.splits outcome.splits)
qed simp

lemma kept_Init:
  assumes "I sd"
  shows "I (snd (sd_Init env sd))"
proof -
  have run: "I (sd\<lparr>sd_running := True\<rparr>)" using assms same [of sd "sd\<lparr>sd_running := True\<rparr>"] by simp
  have boot: "I (snd (bootstrap env (called GoWatchEtcdChanges sd')))" if "I sd'" for sd'
    by (rule kept_bootstrap) (rule kept_called [OF that])
  show ?thesis
    using run boot [OF run] boot [OF kept_InitETCDClient [OF run, of env]] kept_InitETCDClient [OF run, of env]
    by (auto simp: sd_Init_def Let_def kept_called split: prod.splits outcome.splits)
qed

lemma kept_stop:
  assumes "I sd"
  shows "I (snd (sd_Shutdown sd))" "revoke env sd = Some (r, sd') \<Longrightarrow> I sd'"
  using same [of sd "snd (sd_Shutdown sd)"] same [of sd sd'] assms
  by (auto simp: sd_Shutdown_def revoke_def Let_def split: if_splits)

end

interpretation sdinv: sd_kept sd_inv
  by unfold_locales (simp_all add: sd_same_inv addServer_inv deleteServer_inv)

interpretation sdlis: sd_kept "listener_inv l" for l
  by unfold_locales (simp_all add: sd_same_listener addServer_listener deleteServer_listener)

section \<open>Reachable states\<close>

text \<open>
  Everything that happens to a service discovery after its construction: the calls of the
  application, the periodic synchronisation, the watcher and the lease goroutine.
\<close>

inductive sd_step :: "sdstate \<Rightarrow> sdstate \<Rightarrow> bool" where
  step_AddListener: "sd_step sd (AddListener l sd)"
| step_Init: "sd_step sd (snd (sd_Init env sd))"
| step_SyncServers: "sd_step sd (snd (SyncServers env firstSync sd))"
| step_watch: "sd_step sd (snd (snd (watch_receive js inp failed sd)))"
| step_lease: "sd_step sd (snd (snd (watchLeaseChan atts ins failed sd)))"
| step_BeforeShutdown: "sd_BeforeShutdown env sd = Some (r, sd') \<Longrightarrow> sd_step sd sd'"
| step_Shutdown: "sd_step sd (snd (sd_Shutdown sd))"

inductive_cases sd_stepE: "sd_step sd sd'"

lemma BeforeShutdown_revoke:
  "sd_BeforeShutdown env sd = Some (r, sd') \<Longrightarrow> \<exists>r'. revoke env sd = Some (r', sd')"
  by (auto simp: sd_BeforeShutdown_def split: option.splits outcome.splits)

lemma AddListener_kept:
  "sd_inv sd \<Longrightarrow> sd_inv (AddListener l' sd)" "listener_inv l sd \<Longrightarrow> listener_inv l (AddListener l' sd)"
  by (simp_all add: AddListener_def listener_inv_def sd_inv_def registry_abs_def type_entry_def)

lemma sd_step_inv: "sd_step sd sd' \<Longrightarrow> sd_inv sd \<Longrightarrow> sd_inv sd'"
  by (erule sd_stepE)
    (auto simp: AddListener_kept sdinv.kept_Init sdinv.kept_SyncServers sdinv.kept_watch_receive
      sdinv.kept_watchLeaseChan sdinv.kept_stop dest!: BeforeShutdown_revoke)

lemma sd_step_listener: "sd_step sd sd' \<Longrightarrow> listener_inv l sd \<Longrightarrow> listener_inv l sd'"
  by (erule sd_stepE)
    (auto simp: AddListener_kept sdlis.kept_Init sdlis.kept_SyncServers sdlis.kept_watch_receive
      sdlis.kept_watchLeaseChan sdlis.kept_stop dest!: BeforeShutdown_revoke)

lemma sd_inv_new: "sd_inv (NewEtcdServiceDiscovery cfg sv die cli)"
  by (simp add: sd_inv_def NewEtcdServiceDiscovery_def configure_sd_def registry_abs_def type_entry_def)

lemma listener_inv_new: "listener_inv l (AddListener l (NewEtcdServiceDiscovery cfg sv die cli))"
proof -
  have "registry_abs (AddListener l (NewEtcdServiceDiscovery cfg sv die cli)) = Map.empty"
    by (simp add: registry_abs_def AddListener_def NewEtcdServiceDiscovery_def configure_sd_def fun_eq_iff)
  then show ?thesis
    using AddListener_kept(1) [OF sd_inv_new [of cfg sv die cli], of l]
    by (simp add: listener_inv_def) (simp add: AddListener_def NewEtcdServiceDiscovery_def configure_sd_def fun_eq_iff)
qed

interpretation sdrun: step_invariant sd_step sd_inv
  by unfold_locales (rule sd_step_inv)

interpretation sdlisrun: step_invariant sd_step "listener_inv l" for l
  by unfold_locales (rule sd_step_listener)

lemmas sd_steps_inv = sdrun.steps and sd_steps_listener = sdlisrun.steps

section \<open>What a synchronisation does\<close>

definition accepted :: "sdstate \<Rightarrow> string \<Rightarrow> string \<Rightarrow> bool" where
  "accepted sd svType svID \<longleftrightarrow> \<not> isServerTypeBlacklisted svType sd \<or> svID = sv_ID (sd_server sd)"

lemma called_frame [simp]:
  "registry_abs (called c sd) = registry_abs sd" "sd_inv (called c sd) = sd_inv sd"
  "sd_server (called c sd) = sd_server sd" "sd_cfg (called c sd) = sd_cfg sd"
  "sd_serverMapByID (called c sd) = sd_serverMapByID sd"
  "isServerTypeBlacklisted t (called c sd) = isServerTypeBlacklisted t sd"
  "accepted (called c sd) = accepted sd"
  by (simp_all add: called_def registry_abs_def sd_inv_def type_entry_def isServerTypeBlacklisted_def
      accepted_def fun_eq_iff)

lemma scan_kvs_called [simp]: "scan_kvs b (called c sd) kvs = scan_kvs b sd kvs"
proof (induction kvs)
  case (Cons kv kvs)
  then show ?case by (cases kv) (auto split: outcome.splits)
qed simp

lemma scan_kvs_ids:
  "i \<in> set (fst (scan_kvs b sd kvs)) \<longleftrightarrow>
     (\<exists>key val ty. (key, val) \<in> set kvs \<and> parseEtcdKey key = Ok (ty, i) \<and> accepted sd ty i)"
proof (induction kvs)
  case (Cons kv kvs)
  obtain key val where [simp]: "kv = (key, val)" by (cases kv)
  show ?case
    using Cons by (cases "parseEtcdKey key") (auto simp: accepted_def Let_def split: prod.splits)
qed simp

lemma add_servers_spec:
  assumes "sd_inv sd" "None \<notin> set svs"
  shows "\<exists>sd'. add_servers svs sd = (Ok (), sd') \<and> sd_inv sd' \<and>
    (\<forall>i. registry_abs sd' i =
       (case registry_abs sd i of Some sv \<Rightarrow> Some sv | None \<Rightarrow> find (\<lambda>sv. sv_ID sv = i) (map the svs)))"
  using assms
proof (induction svs sd rule: add_servers.induct)
  case (3 sv svs sd)
  then obtain sd' where "add_servers svs (addServer sv sd) = (Ok (), sd')" "sd_inv sd'"
    "\<And>i. registry_abs sd' i = (case registry_abs (addServer sv sd) i of Some sv \<Rightarrow> Some sv
        | None \<Rightarrow> find (\<lambda>sv. sv_ID sv = i) (map the svs))"
    using addServer_inv by auto
  then show ?case by (auto simp: registry_simps split: option.splits)
qed (auto split: option.splits)

lemma add_servers_nil: "None \<in> set svs \<Longrightarrow> fst (add_servers svs sd) = Panic nil_deref"
  by (induction svs sd rule: add_servers.induct) auto

lemma SyncServers_result:
  assumes inv: "sd_inv sd" "sd_cli sd" and kvs: "ee_GetPrefix env (\<not> firstSync) = Inr kvs"
    and svs: "None \<notin> set (ee_schedule env (snd (scan_kvs firstSync sd kvs)))"
  shows "\<exists>sd'. SyncServers env firstSync sd = (Ok (), sd') \<and> sd_inv sd' \<and>
    (\<forall>i. registry_abs sd' i =
      (if i \<notin> set (fst (scan_kvs firstSync sd kvs)) then None
       else case registry_abs sd i of Some sv \<Rightarrow> Some sv
            | None \<Rightarrow> find (\<lambda>sv. sv_ID sv = i) (map the (ee_schedule env (snd (scan_kvs firstSync sd kvs))))))"
proof -
  obtain ids works where sc: "scan_kvs firstSync sd kvs = (ids, works)" by (cases "scan_kvs firstSync sd kvs")
  obtain sd1 where sd1: "add_servers (ee_schedule env works) (called (CallGetPrefix (\<not> firstSync)) sd) = (Ok (), sd1)"
    "sd_inv sd1"
    "\<And>i. registry_abs sd1 i = (case registry_abs sd i of Some sv \<Rightarrow> Some sv
        | None \<Rightarrow> find (\<lambda>sv. sv_ID sv = i) (map the (ee_schedule env works)))"
    using add_servers_spec [of "called (CallGetPrefix (\<not> firstSync)) sd" "ee_schedule env works"] inv svs sc by auto
  let ?sd = "deleteLocalInvalidServers ids sd1"
  have same: "sd_same ?sd (?sd\<lparr>sd_lastSyncTime := ee_now env\<rparr>)" by simp
  have "registry_abs ?sd = registry_abs sd1 |` set ids" "sd_inv ?sd"
    using sd1(2) by (simp_all add: registry_simps deleteLocalInvalidServers_inv)
  moreover have "SyncServers env firstSync sd = (Ok (), ?sd\<lparr>sd_lastSyncTime := ee_now env\<rparr>)"
    using inv kvs sc sd1(1) by (simp add: SyncServers_def)
  ultimately show ?thesis
    using sc sd1(3) sd_same_inv [OF same] sd_same_abs [OF same]
    by (simp add: restrict_map_def cong: option.case_cong)
qed

lemma loads_find:
  fixes L r :: "server option list"
  assumes "mset r = mset L" "None \<notin> set L"
  shows "(case find (\<lambda>sv. sv_ID sv = i) (map the r) of
      Some s \<Rightarrow> Some s \<in> set L \<and> sv_ID s = i | None \<Rightarrow> \<forall>s. Some s \<in> set L \<longrightarrow> sv_ID s \<noteq> i)"
proof -
  have rL: "set r = set L" using assms(1) by (metis set_mset_mset)
  have m: "s \<in> set (map the r) \<longleftrightarrow> Some s \<in> set L" for s
  proof
    assume "s \<in> set (map the r)"
    then obtain x where "x \<in> set L" "s = the x" using rL by auto
    moreover from \<open>x \<in> set L\<close> have "x \<noteq> None" using assms(2) by (intro notI) simp
    ultimately show "Some s \<in> set L" by simp
  next
    assume "Some s \<in> set L"
    then show "s \<in> set (map the r)" using rL by force
  qed
  show ?thesis
  proof (cases "find (\<lambda>sv. sv_ID sv = i) (map the r)")
    case None
    then have "\<not> (\<exists>s. s \<in> set (map the r) \<and> sv_ID s = i)" by (simp only: find_None_iff not_False_eq_True)
    then have "\<forall>s. Some s \<in> set L \<longrightarrow> sv_ID s \<noteq> i" unfolding m by blast
    then show ?thesis using None by simp
  next
    case (Some s)
    then have "s \<in> set (map the r)" "sv_ID s = i" by (auto simp: find_Some_iff)
    then show ?thesis using m Some by auto
  qed
qed

definition sched_ok :: "etcd_env \<Rightarrow> sdstate \<Rightarrow> bool" where
  "sched_ok env sd \<longleftrightarrow>
     (\<forall>works. pg_collects (numWorkers_of (esd_SyncServers_Parallelism (sd_cfg sd)))
        (load_work (ee_Get env) (ee_json env)) works (ee_schedule env works))"

lemma sched_ok_mset: "sched_ok env sd \<Longrightarrow> mset (ee_schedule env works) = mset (loads (load_work (ee_Get env) (ee_json env)) works)"
  unfolding sched_ok_def by (rule pg_collects_mset) blast

text \<open>The keys and values under which a list of servers is published, and what a first scan makes of them.\<close>

definition published :: "json_codec \<Rightarrow> server list \<Rightarrow> (string \<times> string option) list" where
  "published js svs = map (\<lambda>s. (getKey (sv_ID s) (sv_Type s), Some (AsJSONString js s))) svs"

definition publishable :: "json_codec \<Rightarrow> server list \<Rightarrow> bool" where
  "publishable js svs \<longleftrightarrow>
     list_all (\<lambda>s. CHR ''/'' \<notin> set (sv_ID s) \<and> CHR ''/'' \<notin> set (sv_Type s) \<and> json_lossless js s) svs"


lemma scan_published:
  assumes "publishable js svs" "registry_abs sd = Map.empty"
  shows "fst (scan_kvs True sd (published js svs)) = map sv_ID (filter (\<lambda>s. accepted sd (sv_Type s) (sv_ID s)) svs) \<and>
    loads (load_work get js) (snd (scan_kvs True sd (published js svs))) =
      map Some (filter (\<lambda>s. accepted sd (sv_Type s) (sv_ID s)) svs)"
  using assms
proof (induction svs)
  case (Cons s svs)
  then have "gm_get (sd_serverMapByID sd) (sv_ID s) = None"
    by (metis registry_abs_def)
  then show ?case
    using Cons
    by (auto simp: published_def publishable_def parseEtcdKey_getKey accepted_def load_work_def
        parse_AsJSONString Let_def split: prod.splits)
qed (simp add: published_def)

section \<open>Properties\<close>


definition sample_chat :: server where
  "sample_chat = \<lparr>sv_ID = ''c1'', sv_Type = ''chat'', sv_Metadata = [], sv_Hostname = ''h''\<rparr>"

text \<open>A codec that can write every server and reads the empty text as one server, and etcd answers over it.\<close>

definition sample_json :: json_codec where
  "sample_json = \<lparr>json_marshal = \<lambda>_. Inr [], json_unmarshal = \<lambda>_. Inr (Some sample_chat)\<rparr>"

definition sample_env :: etcd_env where
  "sample_env =
     \<lparr>ee_New = None, ee_Grant = (\<lambda>_. Inr 7), ee_KeepAlive = (\<lambda>_. None), ee_Put = (\<lambda>_ _ _. None),
      ee_GetPrefix = (\<lambda>_. Inr (published sample_json [sample_chat])), ee_Get = (\<lambda>_. Inl ''down''),
      ee_Revoke = (\<lambda>_. None), ee_json = sample_json,
      ee_schedule = loads (load_work (\<lambda>_. Inl ''down'') sample_json),
      ee_now = 5\<rparr>"

definition sample_new :: sdstate where
  "sample_new = NewEtcdServiceDiscovery newDefaultEtcdServiceDiscoveryConfig (sd_server sample_sd) True [True]"

definition sample_put :: watch_event where
  "sample_put = \<lparr>ev_Type = EventTypePut, ev_Key = ''servers/chat/c1'', ev_Value = Some ''''\<rparr>"

definition watched :: "sdstate \<Rightarrow> sdstate" where
  "watched sd = snd (snd (watch_receive sample_json (WatchResponse [sample_put]) 0 sd))"

lemma watched_step: "sd_step\<^sup>*\<^sup>* sd (watched sd)"
  unfolding watched_def by (intro r_into_rtranclp sd_step.step_watch)

lemma watched_adds:
  assumes "esd_ServerTypesBlacklist (sd_cfg sd) = []"
  shows "watched sd = addServer sample_chat sd"
proof -
  have "parseEtcdKey ''servers/chat/c1'' = Ok (''chat'', ''c1'')"
    by (simp add: parseEtcdKey_def)
  then show ?thesis
    using assms by (simp add: watched_def watch_receive_def handle_event_def sample_put_def parseServer_def
        sample_json_def isServerTypeBlacklisted_def)
qed

lemma sample_blacklist: "esd_ServerTypesBlacklist newDefaultEtcdServiceDiscoveryConfig = []"
  by (simp add: newDefaultEtcdServiceDiscoveryConfig_def)





lemma sample_sched: "sched_ok sample_env sample_new"
  by (simp add: sched_ok_def sample_env_def pg_collects_loads)

lemma sample_publishable: "publishable sample_json [sample_chat]"
  by (simp add: publishable_def sample_chat_def sample_json_def json_lossless_def)

lemma sample_new_facts [simp]:
  "sd_inv sample_new" "sd_cli sample_new" "registry_abs sample_new = Map.empty"
  "accepted sample_new t i" "sv_ID (sd_server sample_new) = ''me''"
  "isServerTypeBlacklisted t sample_new \<longleftrightarrow> False"
  using sd_inv_new
  by (simp_all add: sample_new_def, simp_all add: NewEtcdServiceDiscovery_def configure_sd_def registry_abs_def
      fun_eq_iff accepted_def isServerTypeBlacklisted_def sample_blacklist sample_sd_def)


text \<open>
  The first synchronisation learns the cluster. When the keys and values in etcd are those
  of a list of servers with distinct ids (no slash in ids and types, values the codec reads back), a
  fresh registry holds after it exactly the servers of the list that are not blacklisted, and
  the node itself in any case; whatever the interleaving of the workers.
\<close>

lemma first_sync_published:
  assumes "sd_inv sd" "sd_cli sd" "sched_ok env sd" "registry_abs sd = Map.empty"
    and "publishable (ee_json env) svs" "distinct (map sv_ID svs)"
    and "ee_GetPrefix env False = Inr (published (ee_json env) svs)"
  shows "\<exists>sd'. SyncServers env True sd = (Ok (), sd') \<and>
    (\<forall>s. registry_abs sd' (sv_ID s) = Some s \<longleftrightarrow> s \<in> set svs \<and> accepted sd (sv_Type s) (sv_ID s))"
proof -
  let ?acc = "filter (\<lambda>s. accepted sd (sv_Type s) (sv_ID s)) svs"
  let ?kvs = "published (ee_json env) svs"
  let ?r = "ee_schedule env (snd (scan_kvs True sd ?kvs))"
  have ids: "fst (scan_kvs True sd ?kvs) = map sv_ID ?acc"
    and ms: "mset ?r = mset (map Some ?acc)"
    using scan_published [OF assms(5,4)] sched_ok_mset [OF assms(3)] by simp_all
  have "set ?r = set (map Some ?acc)" using ms by (metis set_mset_mset)
  then have nn: "None \<notin> set ?r" by auto
  have uniq: "s = s'" if "s \<in> set svs" "s' \<in> set svs" "sv_ID s = sv_ID s'" for s s'
    using that assms(6) by (simp add: distinct_map inj_on_def)
  obtain sd' where sd': "SyncServers env True sd = (Ok (), sd')"
    "\<And>i. registry_abs sd' i = (if i \<notin> set (map sv_ID ?acc) then None
       else find (\<lambda>sv. sv_ID sv = i) (map the ?r))"
    using SyncServers_result [of sd env True ?kvs] assms(1,2,4,7) nn ids by auto
  have "registry_abs sd' (sv_ID s) = Some s \<longleftrightarrow> s \<in> set ?acc" for s
  proof (cases "find (\<lambda>sv. sv_ID sv = sv_ID s) (map the ?r)")
    case None
    then show ?thesis using loads_find [OF ms, of "sv_ID s"] sd'(2) by auto
  next
    case (Some s')
    then have "s' \<in> set ?acc" "sv_ID s' = sv_ID s"
      using loads_find [OF ms, of "sv_ID s"] by auto
    then show ?thesis using Some sd'(2) uniq by auto
  qed
  then show ?thesis using sd'(1) by auto
qed

lemma renewLease_calls:
  "fst (renewLease att sd) = Ok () \<Longrightarrow> \<not> ra_timedOut att \<and> sd_cli sd"
  by (auto simp: renewLease_def grantLease_def split: if_splits)

lemma signal_die_calls: "sd_calls (signal_die sd) = sd_calls sd @ (if sd_appDieChan sd then [AppDie] else [])"
  by (simp add: signal_die_def called_def)

lemma renew_loop_attempts:
  "case renew_loop mx atts k failed sd of (r, k', sd') \<Rightarrow>
     k < k' \<and> int (k' - k) \<le> max 1 (mx - failed) \<and>
     (case r of
        Err e \<Rightarrow> (e = ErrEtcdGrantLeaseTimeout \<or> int (k' - k) = max 1 (mx - failed)) \<and> sd' \<in> range signal_die
      | _ \<Rightarrow> True)"
proof (induction mx atts k failed sd rule: renew_loop.induct)
  case (1 mx atts k failed sd)
  obtain r sd1 where r: "renewLease (atts k) sd = (r, sd1)" by (cases "renewLease (atts k) sd")
  show ?case
  proof (cases r)
    case (Err e)
    show ?thesis
    proof (cases "e = ErrEtcdGrantLeaseTimeout \<or> mx \<le> failed + 1")
      case True
      then show ?thesis
        using r Err by (cases "e = ErrEtcdGrantLeaseTimeout") (simp_all add: renew_loop.simps [of mx atts k failed sd])
    next
      case False
      then have "renew_loop mx atts k failed sd = renew_loop mx atts (Suc k) (failed + 1) sd1"
        using r Err by (simp add: renew_loop.simps [of mx atts k failed sd])
      then show ?thesis
        using 1 [OF r [symmetric] Err refl] False by (auto split: prod.splits outcome.splits)
    qed
  qed (use r in \<open>simp_all add: renew_loop.simps [of mx atts k failed sd]\<close>)
qed

text \<open>
  C35: the retry loop of the lease watcher terminates: it tries at least once and at most
  \<open>max 1 (MaxRetries - failed)\<close> times. When it gives up, then because an attempt timed out or because
  all the attempts were used, and then the application is told to die if it gave a channel for that.
\<close>

theorem renew_loop_bound:
  assumes "renew_loop mx atts 0 failed sd = (r, n, sd')"
  shows "1 \<le> n \<and> int n \<le> max 1 (mx - failed) \<and>
    (\<forall>e. r = Err e \<longrightarrow> (e = ErrEtcdGrantLeaseTimeout \<or> int n = max 1 (mx - failed)) \<and>
       (sd_appDieChan sd' \<longrightarrow> last (sd_calls sd') = AppDie))"
proof -
  have "sd_appDieChan (signal_die sd1) = sd_appDieChan sd1" for sd1
    by (simp add: signal_die_def called_def)
  then show ?thesis
    using renew_loop_attempts [where k = 0 and mx = mx and atts = atts and failed = failed and sd = sd] assms by (auto simp: signal_die_calls)
qed

theorem renew_loop_bound_witness:
  "last (sd_calls (snd (snd (renew_loop 3 (\<lambda>_. \<lparr>ra_env = sample_env\<lparr>ee_Grant := \<lambda>_. Inl ''down''\<rparr>, ra_timedOut = False\<rparr>) 0 0 sample_new)))) = AppDie"
proof -
  let ?att = "\<lambda>_ :: nat. \<lparr>ra_env = sample_env\<lparr>ee_Grant := \<lambda>_. Inl ''down''\<rparr>, ra_timedOut = False\<rparr>"
  have g: "renewLease (?att k) sd = (Err (PlainError ''down''), called (CallGrant (whole_seconds (esd_Heartbeat_TTL (sd_cfg sd)))) sd)"
    if "sd_cli sd" for k sd
    using that by (simp add: renewLease_def grantLease_def Let_def)
  have c: "sd_cli (called c sd) = sd_cli sd" for c sd by (simp add: called_def)
  have "fst (renew_loop 3 ?att 0 0 sample_new) = Err (PlainError ''down'')"
    "sd_appDieChan (snd (snd (renew_loop 3 ?att 0 0 sample_new)))"
    by (simp_all add: renew_loop.simps g c ErrEtcdGrantLeaseTimeout_def signal_die_def,
        simp_all add: called_def sample_new_def NewEtcdServiceDiscovery_def configure_sd_def)
  then show ?thesis
    using renew_loop_bound [of 3 ?att 0 sample_new "Err (PlainError ''down'')"
        "fst (snd (renew_loop 3 ?att 0 0 sample_new))" "snd (snd (renew_loop 3 ?att 0 0 sample_new))"]
    by (simp add: prod_eq_iff)
qed

lemma called_more [simp]:
  "sd_running (called c sd) = sd_running sd" "sd_cli (called c sd) = sd_cli sd"
  "sd_leaseID (called c sd) = sd_leaseID sd" "sd_calls (called c sd) = sd_calls sd @ [c]"
  "sd_appDieChan (called c sd) = sd_appDieChan sd"
  by (simp_all add: called_def)

lemma watch_run_died:
  "sd_running sd \<Longrightarrow> failed + length envs \<le> 10 \<Longrightarrow>
     watch_run js (map WatchDied envs @ ins) failed sd = watch_run js ins (failed + length envs) sd"
  by (induction envs arbitrary: failed) (simp_all add: watch_receive_def)

text \<open>
  The watcher survives a lost watch channel. Ten receives on the closed channel are only
  counted; the eleventh creates a new client and, when that succeeds, watches again; in both cases
  the count starts anew and the registry is untouched.
\<close>

lemma watcher_recovery:
  assumes "sd_running sd" "length envs = 10"
  shows "watch_run js (map WatchDied envs) 0 sd = (Ok (), 10, sd) \<and>
    watch_run js (map WatchDied envs @ [WatchDied env]) 0 sd =
      (Ok (), 0, if ee_New env = None then called CallWatch ((called CallNew sd)\<lparr>sd_cli := True\<rparr>)
                 else called CallNew sd)"
proof -
  have "watch_run js [WatchDied env] 10 sd =
      (Ok (), 0, if ee_New env = None then called CallWatch ((called CallNew sd)\<lparr>sd_cli := True\<rparr>)
                 else called CallNew sd)"
    using assms(1) by (cases "ee_New env") (simp_all add: watch_receive_def InitETCDClient_def)
  then show ?thesis
    using watch_run_died [OF assms(1), of 0 envs js] watch_run_died [OF assms(1), of 0 envs js "[]"] assms(2)
    by simp
qed

lemma add_servers_calls:
  "sd_calls (snd (add_servers svs sd)) = sd_calls sd" "sd_leaseID (snd (add_servers svs sd)) = sd_leaseID sd"
  "sd_cfg (snd (add_servers svs sd)) = sd_cfg sd" "sd_cli (snd (add_servers svs sd)) = sd_cli sd"
  "sd_appDieChan (snd (add_servers svs sd)) = sd_appDieChan sd"
  by (induction svs sd rule: add_servers.induct)
    (simp_all add: addServer_def Let_def notifyListeners_def split: option.splits)

lemma prune_calls:
  "sd_calls (deleteLocalInvalidServers keep sd) = sd_calls sd"
  "sd_leaseID (deleteLocalInvalidServers keep sd) = sd_leaseID sd"
  "sd_cfg (deleteLocalInvalidServers keep sd) = sd_cfg sd"
  "sd_cli (deleteLocalInvalidServers keep sd) = sd_cli sd"
  "sd_appDieChan (deleteLocalInvalidServers keep sd) = sd_appDieChan sd"
proof -
  define f where "f = (\<lambda>k sd. if \<not> SliceContainsString keep k then deleteServer k sd else sd)"
  have "sd_calls (fold f ks sd) = sd_calls sd \<and> sd_leaseID (fold f ks sd) = sd_leaseID sd \<and>
    sd_cfg (fold f ks sd) = sd_cfg sd \<and> sd_cli (fold f ks sd) = sd_cli sd \<and>
    sd_appDieChan (fold f ks sd) = sd_appDieChan sd" for ks
    by (induction ks arbitrary: sd)
      (simp_all add: f_def deleteServer_def Let_def notifyListeners_def split: option.splits)
  then show "sd_calls (deleteLocalInvalidServers keep sd) = sd_calls sd"
    "sd_leaseID (deleteLocalInvalidServers keep sd) = sd_leaseID sd"
    "sd_cfg (deleteLocalInvalidServers keep sd) = sd_cfg sd"
    "sd_cli (deleteLocalInvalidServers keep sd) = sd_cli sd"
    "sd_appDieChan (deleteLocalInvalidServers keep sd) = sd_appDieChan sd"
    by (simp_all add: deleteLocalInvalidServers_def f_def)
qed

lemma SyncServers_calls:
  assumes "sd_cli sd" "SyncServers env b sd = (r, sd')"
  shows "sd_calls sd' = sd_calls sd @ [CallGetPrefix (\<not> b)] \<and> sd_leaseID sd' = sd_leaseID sd \<and>
    sd_cfg sd' = sd_cfg sd \<and> sd_cli sd' \<and> sd_appDieChan sd' = sd_appDieChan sd"
proof (cases "ee_GetPrefix env (\<not> b)")
  case (Inr kvs)
  obtain ids works where sc: "scan_kvs b sd kvs = (ids, works)" by (cases "scan_kvs b sd kvs")
  obtain r1 sd1 where a: "add_servers (ee_schedule env works) (called (CallGetPrefix (\<not> b)) sd) = (r1, sd1)"
    by (cases "add_servers (ee_schedule env works) (called (CallGetPrefix (\<not> b)) sd)")
  then show ?thesis
    using assms Inr sc add_servers_calls [of "ee_schedule env works" "called (CallGetPrefix (\<not> b)) sd"]
    by (cases r1) (auto simp: SyncServers_def prune_calls)
qed (use assms in \<open>auto simp: SyncServers_def\<close>)

lemma bootstrapServer_calls:
  assumes "sd_cli sd" "bootstrapServer env sv sd = (r, sd')" "\<not> is_panic r"
  shows "let key = getKey (sv_ID sv) (sv_Type sv); val = AsJSONString (ee_json env) sv;
      put = CallPut key val (sd_leaseID sd) in
    (if ee_Put env key val (sd_leaseID sd) = None
     then r = Ok () \<and> sd_calls sd' = sd_calls sd @ [put, CallGetPrefix False]
     else (\<exists>e. r = Err (PlainError e) \<and> ee_Put env key val (sd_leaseID sd) = Some e) \<and>
       sd_calls sd' = sd_calls sd @ [put]) \<and>
    sd_leaseID sd' = sd_leaseID sd \<and> sd_cfg sd' = sd_cfg sd \<and> sd_cli sd' \<and> sd_appDieChan sd' = sd_appDieChan sd"
proof -
  let ?key = "getKey (sv_ID sv) (sv_Type sv)" and ?val = "AsJSONString (ee_json env) sv"
  let ?sd = "called (CallPut ?key ?val (sd_leaseID sd)) sd"
  obtain r1 sd1 where s: "SyncServers env True ?sd = (r1, sd1)" by (cases "SyncServers env True ?sd")
  show ?thesis
  proof (cases "ee_Put env ?key ?val (sd_leaseID sd)")
    case None
    then show ?thesis
      using assms s SyncServers_calls [of ?sd env True r1 sd1]
      by (cases r1) (auto simp: bootstrapServer_def addServerIntoEtcd_def Let_def)
  next
    case (Some e)
    then show ?thesis
      using assms by (auto simp: bootstrapServer_def addServerIntoEtcd_def Let_def)
  qed
qed

lemma grantLease_Ok:
  assumes "sd_cli sd" "ee_Grant env (whole_seconds (esd_Heartbeat_TTL (sd_cfg sd))) = Inr lease" "ee_KeepAlive env lease = None"
  shows "grantLease env sd = (Ok (), called GoWatchLeaseChan (called (CallKeepAlive lease)
     ((called (CallGrant (whole_seconds (esd_Heartbeat_TTL (sd_cfg sd)))) sd)\<lparr>sd_leaseID := lease\<rparr>)))"
  using assms by (simp add: grantLease_def Let_def)

lemma bootstrap_Ok:
  assumes "bootstrap env sd = (Ok (), sd')"
  shows "\<exists>lease. ee_Grant env (whole_seconds (esd_Heartbeat_TTL (sd_cfg sd))) = Inr lease \<and>
    sd_leaseID sd' = lease \<and> sd_cfg sd' = sd_cfg sd \<and>
    sd_calls sd' = sd_calls sd @
      [CallGrant (whole_seconds (esd_Heartbeat_TTL (sd_cfg sd))), CallKeepAlive lease, GoWatchLeaseChan,
       CallPut (getKey (sv_ID (sd_server sd)) (sv_Type (sd_server sd))) (AsJSONString (ee_json env) (sd_server sd)) lease,
       CallGetPrefix False]"
proof -
  let ?ttl = "whole_seconds (esd_Heartbeat_TTL (sd_cfg sd))"
  have cli: "sd_cli sd" using assms by (auto simp: bootstrap_def grantLease_def split: if_splits)
  then obtain lease where l: "ee_Grant env ?ttl = Inr lease" "ee_KeepAlive env lease = None"
    using assms by (auto simp: bootstrap_def grantLease_def Let_def split: sum.splits option.splits)
  let ?sd = "called GoWatchLeaseChan (called (CallKeepAlive lease) ((called (CallGrant ?ttl) sd)\<lparr>sd_leaseID := lease\<rparr>))"
  have "bootstrapServer env (sd_server sd) ?sd = (Ok (), sd')"
    using assms grantLease_Ok [OF cli l] by (simp add: bootstrap_def)
  then show ?thesis
    using bootstrapServer_calls [of ?sd env "sd_server sd" "Ok ()" sd'] cli l
    by (simp add: Let_def split: if_splits)
qed



definition lease_watchers :: "sdstate \<Rightarrow> nat" where
  "lease_watchers sd = count_list (sd_calls sd) GoWatchLeaseChan"

lemma renewLease_put_fails:
  assumes "sd_cli sd" "\<not> ra_timedOut att" "\<And>ttl. ee_Grant (ra_env att) ttl = Inr lease"
    "ee_KeepAlive (ra_env att) lease = None" "\<And>k v. ee_Put (ra_env att) k v lease = Some e"
  shows "\<exists>sd'. renewLease att sd = (Err (PlainError e), sd') \<and> sd_cli sd' \<and>
    lease_watchers sd' = lease_watchers sd + 1"
  using assms
  by (simp add: renewLease_def grantLease_Ok bootstrapServer_def addServerIntoEtcd_def Let_def lease_watchers_def)

lemma renew_loop_put_fails:
  assumes "\<And>k. \<not> ra_timedOut (atts k)" "\<And>k ttl. ee_Grant (ra_env (atts k)) ttl = Inr lease"
    "\<And>k. ee_KeepAlive (ra_env (atts k)) lease = None" "\<And>k x y. ee_Put (ra_env (atts k)) x y lease = Some e"
    "PlainError e \<noteq> ErrEtcdGrantLeaseTimeout" "sd_cli sd"
  shows "lease_watchers (snd (snd (renew_loop mx atts k failed sd))) = lease_watchers sd + nat (max 1 (mx - failed))"
  using assms(6)
proof (induction "nat (mx - failed)" arbitrary: k failed sd rule: less_induct)
  case less
  obtain sd1 where sd1: "renewLease (atts k) sd = (Err (PlainError e), sd1)" "sd_cli sd1"
    "lease_watchers sd1 = lease_watchers sd + 1"
    using renewLease_put_fails [OF less.prems assms(1) assms(2) assms(3) assms(4)] by blast
  show ?case
  proof (cases "mx \<le> failed + 1")
    case True
    then have "renew_loop mx atts k failed sd = (Err (PlainError e), Suc k, signal_die sd1)"
      using sd1 assms(5) by (simp add: renew_loop.simps [of mx atts k failed sd])
    then show ?thesis
      using True sd1 by (simp add: lease_watchers_def signal_die_calls)
  next
    case False
    then have "renew_loop mx atts k failed sd = renew_loop mx atts (Suc k) (failed + 1) sd1"
      using sd1 assms(5) by (simp add: renew_loop.simps [of mx atts k failed sd])
    then show ?thesis
      using False sd1 less.hyps [of "failed + 1" sd1 "Suc k"] by simp
  qed
qed

text \<open>
  A failing renewal piles up lease watchers. Every attempt whose lease is granted starts a new
  \<open>watchLeaseChan\<close> goroutine before the server is put into etcd; when the put fails, the attempt is
  retried and its goroutine stays. With \<open>MaxRetries\<close> failing puts, as many watchers are left running,
  each of which starts a renewal of its own.
\<close>

lemma renewal_leaks_watchers:
  assumes "sd_cli sd" "PlainError e \<noteq> ErrEtcdGrantLeaseTimeout"
    and "att = \<lparr>ra_env = env, ra_timedOut = False\<rparr>" "env = env0\<lparr>ee_Grant := \<lambda>_. Inr lease, ee_KeepAlive := \<lambda>_. None,
      ee_Put := \<lambda>_ _ _. Some e\<rparr>"
  shows "lease_watchers (snd (snd (renew_loop mx (\<lambda>_. att) 0 0 sd))) = lease_watchers sd + nat (max 1 mx)"
  using renew_loop_put_fails [of "\<lambda>_. att" lease e sd mx 0 0] assms by simp

end
