(* ===== verification/SyncGate.thy ===== *)
theory SyncGate
  imports Prelude
begin

text \<open>
  The channel \<open>syncServersRunning\<close> of \<open>cluster/etcd_service_discovery.go\<close>, by which a running
  \<open>SyncServers\<close> keeps the watcher from handling events. The channel is unbuffered: a step is a
  rendezvous of the watcher with one of the goroutines that synchronise (the ticker of \<open>Init\<close>, and a
  lease renewal through \<open>bootstrapServer\<close>). The theory shows that the exclusion holds for a single
  synchronising goroutine, and that two of them break it.
\<close>

section \<open>States and steps\<close>

text \<open>
  The watcher is at its select, in the inner loop that waits for \<open>false\<close>, at work on a
  response, or has returned. A synchronising goroutine is about to send \<open>true\<close>, is between the two
  sends (the body of \<open>SyncServers\<close>), or has returned from the call.
\<close>

datatype watcher_pc = Selecting | Draining | Handling | Returned
datatype sync_pc = Entering | Syncing | Left

record gate =
  gt_watcher :: watcher_pc
  gt_syncs :: "sync_pc list"

text \<open>What the watcher does with a value received from the channel.\<close>

definition gate_receive :: "bool \<Rightarrow> watcher_pc \<Rightarrow> watcher_pc" where
  "gate_receive v w = (if v then Draining else Selecting)"

inductive gate_step :: "gate \<Rightarrow> gate \<Rightarrow> bool" where
  send_true: "gt_watcher g \<in> {Selecting, Draining} \<Longrightarrow> i < length (gt_syncs g) \<Longrightarrow> gt_syncs g ! i = Entering \<Longrightarrow>
    gate_step g (g\<lparr>gt_watcher := gate_receive True (gt_watcher g), gt_syncs := (gt_syncs g)[i := Syncing]\<rparr>)"
| send_false: "gt_watcher g \<in> {Selecting, Draining} \<Longrightarrow> i < length (gt_syncs g) \<Longrightarrow> gt_syncs g ! i = Syncing \<Longrightarrow>
    gate_step g (g\<lparr>gt_watcher := gate_receive False (gt_watcher g), gt_syncs := (gt_syncs g)[i := Left]\<rparr>)"
| call_again: "i < length (gt_syncs g) \<Longrightarrow> gt_syncs g ! i = Left \<Longrightarrow>
    gate_step g (g\<lparr>gt_syncs := (gt_syncs g)[i := Entering]\<rparr>)"
| response: "gt_watcher g = Selecting \<Longrightarrow> gate_step g (g\<lparr>gt_watcher := Handling\<rparr>)"
| handled: "gt_watcher g = Handling \<Longrightarrow> gate_step g (g\<lparr>gt_watcher := Selecting\<rparr>)"
| stopped: "gt_watcher g = Selecting \<Longrightarrow> gate_step g (g\<lparr>gt_watcher := Returned\<rparr>)"

inductive_cases gate_stepE: "gate_step g g'"

definition gate_init :: "nat \<Rightarrow> gate" where
  "gate_init n = \<lparr>gt_watcher = Selecting, gt_syncs = replicate n Entering\<rparr>"

text \<open>The conflict the channel is there to prevent.\<close>

definition gate_conflict :: "gate \<Rightarrow> bool" where
  "gate_conflict g \<longleftrightarrow> gt_watcher g = Handling \<and> Syncing \<in> set (gt_syncs g)"

section \<open>One synchronising goroutine\<close>

definition gate_inv :: "gate \<Rightarrow> bool" where
  "gate_inv g \<longleftrightarrow>
     (\<exists>p. gt_syncs g = [p] \<and> (p = Syncing \<longleftrightarrow> gt_watcher g = Draining))"

lemma gate_inv_step: "gate_step g g' \<Longrightarrow> gate_inv g \<Longrightarrow> gate_inv g'"
  by (erule gate_stepE) (auto simp: gate_inv_def gate_receive_def)

interpretation gaterun: step_invariant gate_step gate_inv
  by unfold_locales (rule gate_inv_step)

lemma gate_progress:
  assumes "gate_inv g" "gt_watcher g \<noteq> Returned"
  shows "\<exists>g'. gate_step g g'"
proof (cases "gt_watcher g")
  case Draining
  then show ?thesis
    using assms(1) gate_step.send_false [of g 0] by (auto simp: gate_inv_def)
qed (use assms gate_step.response gate_step.handled in blast)+

text \<open>
  C11: with one goroutine that synchronises, a synchronisation and the handling of a watch response never overlap;
  a started synchronisation always can signal its end, and the watcher then selects again.
\<close>

theorem sync_excludes_watch:
  assumes "gate_step\<^sup>*\<^sup>* (gate_init 1) g"
  shows "\<not> gate_conflict g \<and>
    (gt_syncs g = [Syncing] \<longrightarrow> gate_step g \<lparr>gt_watcher = Selecting, gt_syncs = [Left]\<rparr>)"
proof -
  have inv: "gate_inv g"
    by (rule gaterun.steps [OF assms]) (simp add: gate_inv_def gate_init_def)
  moreover have "gate_step g \<lparr>gt_watcher = Selecting, gt_syncs = [Left]\<rparr>" if "gt_syncs g = [Syncing]"
  proof -
    have "g = \<lparr>gt_watcher = Draining, gt_syncs = [Syncing]\<rparr>"
      using inv that by (cases g) (auto simp: gate_inv_def)
    then show ?thesis
      using gate_step.send_false [of g 0] by (simp add: gate_receive_def)
  qed
  ultimately show ?thesis by (auto simp: gate_inv_def gate_conflict_def)
qed

theorem sync_excludes_watch_witness:
  "gate_step \<lparr>gt_watcher = Draining, gt_syncs = [Syncing]\<rparr> \<lparr>gt_watcher = Selecting, gt_syncs = [Left]\<rparr>"
proof -
  have "gate_step (gate_init 1) \<lparr>gt_watcher = Draining, gt_syncs = [Syncing]\<rparr>"
    using gate_step.send_true [of "gate_init 1" 0] by (simp add: gate_init_def gate_receive_def)
  then show ?thesis using sync_excludes_watch [OF r_into_rtranclp [where r = gate_step]] by simp
qed

text \<open>
  With two goroutines that synchronise, as when a lease is renewed while the ticker's synchronisation
  runs, the exclusion fails: the first to finish lets the watcher go on, and it handles events
  while the other synchronisation is still running.
\<close>

lemma two_syncs_conflict: "\<exists>g. gate_step\<^sup>*\<^sup>* (gate_init 2) g \<and> gate_conflict g"
proof -
  let ?g = "\<lambda>w a b. \<lparr>gt_watcher = w, gt_syncs = [a, b]\<rparr>"
  have "gate_init 2 = ?g Selecting Entering Entering"
    by (simp add: gate_init_def numeral_2_eq_2)
  moreover have "gate_step (?g Selecting Entering Entering) (?g Draining Syncing Entering)"
    using gate_step.send_true [of "?g Selecting Entering Entering" 0] by (simp add: gate_receive_def)
  moreover have "gate_step (?g Draining Syncing Entering) (?g Draining Syncing Syncing)"
    using gate_step.send_true [of "?g Draining Syncing Entering" 1] by (simp add: gate_receive_def)
  moreover have "gate_step (?g Draining Syncing Syncing) (?g Selecting Left Syncing)"
    using gate_step.send_false [of "?g Draining Syncing Syncing" 0] by (simp add: gate_receive_def)
  moreover have "gate_step (?g Selecting Left Syncing) (?g Handling Left Syncing)"
    using gate_step.response [of "?g Selecting Left Syncing"] by simp
  ultimately have "gate_step\<^sup>*\<^sup>* (gate_init 2) (?g Handling Left Syncing)"
    by (metis r_into_rtranclp rtranclp_trans)
  then show ?thesis by (force simp: gate_conflict_def)
qed

text \<open>
  Once the watcher has returned, a synchronisation that is still to start, or that is under
  way, never ends: no step changes it, the sends on the channel block for ever.
\<close>

lemma sync_stuck_after_stop:
  assumes "gate_step\<^sup>*\<^sup>* g g'" "gt_watcher g = Returned" "i < length (gt_syncs g)" "gt_syncs g ! i \<noteq> Left"
  shows "gt_watcher g' = Returned \<and> gt_syncs g' ! i = gt_syncs g ! i"
  using assms
proof (induction rule: rtranclp_induct)
  case (step y z)
  from step.hyps(1) have "length (gt_syncs y) = length (gt_syncs g)"
    by (induction rule: rtranclp_induct) (auto elim: gate_stepE)
  with step show ?case by (auto elim!: gate_stepE simp: nth_list_update)
qed simp

end
