(* ===== verification/RegistryRun.thy ===== *)
theory RegistryRun
  imports Registry SyncGate
begin

text \<open>
  The registry at the grain of its locks. \<open>addServer\<close> and \<open>deleteServer\<close> of \<open>cluster/etcd_service_discovery.go\<close> are several accesses: one to the
  concurrent map by id, one to the map by type under its mutex, and the calls of the listeners. The goroutines that write are
  the watcher, while it handles a response, and those that synchronise, between the two sends on \<open>syncServersRunning\<close>. With one
  synchronising goroutine the channel makes every write as good as atomic; with two it does not, and a deleted server can stay in the map by type.
\<close>

section \<open>A write in steps\<close>

text \<open>
  Where a goroutine is inside \<open>addServer\<close> (after \<open>LoadOrStore\<close>) or \<open>deleteServer\<close> (after \<open>Load\<close>), with the server it
  works on.
\<close>

datatype write_pc =
    WNone
  | AddType server
  | AddNotify server
  | DelID server
  | DelType server
  | DelNotify server

text \<open>The bodies of the two scopes of \<open>writeLockScope\<close>.\<close>

definition type_put :: "server \<Rightarrow> sdstate \<Rightarrow> sdstate" where
  "type_put sv sd =
     (let byType = sd_serverMapByType sd;
          mapSvByType = (case gm_get byType (sv_Type sv) of None \<Rightarrow> gm_empty | Some m \<Rightarrow> m)
      in sd\<lparr>sd_serverMapByType := gm_put (sv_Type sv) (gm_put (sv_ID sv) sv mapSvByType) byType\<rparr>)"

definition type_del :: "server \<Rightarrow> sdstate \<Rightarrow> sdstate" where
  "type_del sv sd =
     (let byType = sd_serverMapByType sd in
      sd\<lparr>sd_serverMapByType :=
           (case gm_get byType (sv_Type sv) of
              None \<Rightarrow> byType
            | Some svMap \<Rightarrow> gm_put (sv_Type sv) (gm_del (sv_ID sv) svMap) byType)\<rparr>)"

text \<open>The first access of the two operations.\<close>

definition add_load :: "server \<Rightarrow> sdstate \<Rightarrow> write_pc \<times> sdstate" where
  "add_load sv sd =
     (case gm_get (sd_serverMapByID sd) (sv_ID sv) of
        Some _ \<Rightarrow> (WNone, sd)
      | None \<Rightarrow> (AddType sv, sd\<lparr>sd_serverMapByID := gm_put (sv_ID sv) sv (sd_serverMapByID sd)\<rparr>))"

definition del_load :: "string \<Rightarrow> sdstate \<Rightarrow> write_pc \<times> sdstate" where
  "del_load serverID sd =
     (case gm_get (sd_serverMapByID sd) serverID of None \<Rightarrow> (WNone, sd) | Some sv \<Rightarrow> (DelID sv, sd))"

text \<open>The further accesses.\<close>

fun advance :: "write_pc \<Rightarrow> sdstate \<Rightarrow> write_pc \<times> sdstate" where
  "advance WNone sd = (WNone, sd)"
| "advance (AddType sv) sd = (AddNotify sv, type_put sv sd)"
| "advance (AddNotify sv) sd = (WNone, if sv_ID sv \<noteq> sv_ID (sd_server sd) then notifyListeners ADD sv sd else sd)"
| "advance (DelID sv) sd = (DelType sv, sd\<lparr>sd_serverMapByID := gm_del (sv_ID sv) (sd_serverMapByID sd)\<rparr>)"
| "advance (DelType sv) sd = (DelNotify sv, type_del sv sd)"
| "advance (DelNotify sv) sd = (WNone, notifyListeners DEL sv sd)"

text \<open>The registry once the pending write is done.\<close>

definition settle :: "write_pc \<Rightarrow> sdstate \<Rightarrow> sdstate" where
  "settle pc sd = snd (((\<lambda>(pc, sd). advance pc sd) ^^ 3) (pc, sd))"

lemma settle_simps [simp]:
  "settle WNone sd = sd"
  "settle (AddType sv) sd = settle (AddNotify sv) (type_put sv sd)"
  "settle (AddNotify sv) sd = (if sv_ID sv \<noteq> sv_ID (sd_server sd) then notifyListeners ADD sv sd else sd)"
  "settle (DelID sv) sd = settle (DelType sv) (sd\<lparr>sd_serverMapByID := gm_del (sv_ID sv) (sd_serverMapByID sd)\<rparr>)"
  "settle (DelType sv) sd = settle (DelNotify sv) (type_del sv sd)"
  "settle (DelNotify sv) sd = notifyListeners DEL sv sd"
  by (simp_all add: settle_def numeral_3_eq_3)

text \<open>A write that nobody disturbs is the operation of theory \<open>Registry\<close>.\<close>

lemma settle_advance: "advance pc sd = (pc', sd') \<Longrightarrow> settle pc' sd' = settle pc sd"
  by (cases pc) auto

lemma settle_add: "add_load sv sd = (pc, sd') \<Longrightarrow> settle pc sd' = addServer sv sd"
  by (auto simp: add_load_def addServer_def type_put_def Let_def split: option.splits)

lemma settle_del: "del_load i sd = (pc, sd') \<Longrightarrow> settle pc sd' = deleteServer i sd"
  by (auto simp: del_load_def deleteServer_def type_del_def Let_def split: option.splits)

section \<open>Goroutines\<close>

text \<open>\<open>rr_ops\<close> records, for the statements, the operations in the order of their first access.\<close>

datatype registry_op = OpAdd server | OpDelete string

fun apply_op :: "registry_op \<Rightarrow> sdstate \<Rightarrow> sdstate" where
  "apply_op (OpAdd sv) sd = addServer sv sd"
| "apply_op (OpDelete i) sd = deleteServer i sd"

fun op_load :: "registry_op \<Rightarrow> sdstate \<Rightarrow> write_pc \<times> sdstate" where
  "op_load (OpAdd sv) sd = add_load sv sd"
| "op_load (OpDelete i) sd = del_load i sd"

record registry_run =
  rr_gate :: gate
  rr_sd :: sdstate
  rr_syncs :: "write_pc list"
  rr_watch :: write_pc
  rr_ops :: "registry_op list"

definition run_init :: "nat \<Rightarrow> sdstate \<Rightarrow> registry_run" where
  "run_init n sd = \<lparr>rr_gate = gate_init n, rr_sd = sd, rr_syncs = replicate n WNone, rr_watch = WNone, rr_ops = []\<rparr>"

text \<open>
  A goroutine passes the channel, or the watcher takes or leaves a response, only when it is not inside a write. What a
  synchronisation or a response writes is not restricted: any sequence of additions and deletions.
\<close>

inductive run_step :: "registry_run \<Rightarrow> registry_run \<Rightarrow> bool" where
  gate: "gate_step (rr_gate r) g \<Longrightarrow>
    (\<forall>i < length (rr_syncs r). gt_syncs g ! i \<noteq> gt_syncs (rr_gate r) ! i \<longrightarrow> rr_syncs r ! i = WNone) \<Longrightarrow>
    (gt_watcher g \<noteq> gt_watcher (rr_gate r) \<longrightarrow> rr_watch r = WNone) \<Longrightarrow>
    run_step r (r\<lparr>rr_gate := g\<rparr>)"
| sync_begin: "i < length (rr_syncs r) \<Longrightarrow> gt_syncs (rr_gate r) ! i = Syncing \<Longrightarrow> rr_syncs r ! i = WNone \<Longrightarrow>
    op_load oper (rr_sd r) = (pc, sd) \<Longrightarrow>
    run_step r (r\<lparr>rr_sd := sd, rr_syncs := (rr_syncs r)[i := pc], rr_ops := rr_ops r @ [oper]\<rparr>)"
| sync_go: "i < length (rr_syncs r) \<Longrightarrow> rr_syncs r ! i \<noteq> WNone \<Longrightarrow> advance (rr_syncs r ! i) (rr_sd r) = (pc, sd) \<Longrightarrow>
    run_step r (r\<lparr>rr_sd := sd, rr_syncs := (rr_syncs r)[i := pc]\<rparr>)"
| watch_begin: "gt_watcher (rr_gate r) = Handling \<Longrightarrow> rr_watch r = WNone \<Longrightarrow> op_load oper (rr_sd r) = (pc, sd) \<Longrightarrow>
    run_step r (r\<lparr>rr_sd := sd, rr_watch := pc, rr_ops := rr_ops r @ [oper]\<rparr>)"
| watch_go: "rr_watch r \<noteq> WNone \<Longrightarrow> advance (rr_watch r) (rr_sd r) = (pc, sd) \<Longrightarrow>
    run_step r (r\<lparr>rr_sd := sd, rr_watch := pc\<rparr>)"

inductive_cases run_stepE: "run_step r r'"

text \<open>The registry once every pending write is done; with one writer the order does not matter.\<close>

definition run_settled :: "registry_run \<Rightarrow> sdstate" where
  "run_settled r = settle (rr_watch r) (fold settle (rr_syncs r) (rr_sd r))"

section \<open>One synchronising goroutine\<close>

definition run_inv :: "sdstate \<Rightarrow> registry_run \<Rightarrow> bool" where
  "run_inv sd0 r \<longleftrightarrow>
     gate_inv (rr_gate r) \<and>
     (\<exists>w. rr_syncs r = [w] \<and> (w \<noteq> WNone \<longrightarrow> gt_syncs (rr_gate r) = [Syncing])) \<and>
     (rr_watch r \<noteq> WNone \<longrightarrow> gt_watcher (rr_gate r) = Handling) \<and>
     run_settled r = fold apply_op (rr_ops r) sd0"

text \<open>At most one goroutine is inside a write.\<close>

lemma run_inv_alone:
  assumes "run_inv sd0 r"
  obtains w where "rr_syncs r = [w]" "w = WNone \<or> rr_watch r = WNone" "run_settled r = settle (if w = WNone then rr_watch r else w) (rr_sd r)"
  using assms by (auto simp: run_inv_def gate_inv_def run_settled_def)

lemma settle_op: "op_load oper sd = (pc, sd') \<Longrightarrow> settle pc sd' = apply_op oper sd"
  by (cases oper) (auto simp: settle_add settle_del)

lemma run_inv_step: "run_step r r' \<Longrightarrow> run_inv sd0 r \<Longrightarrow> run_inv sd0 r'"
proof (induction rule: run_step.induct)
  case (gate r g)
  then have "gate_inv g" using gate_inv_step by (auto simp: run_inv_def)
  then show ?case using gate by (auto simp: run_inv_def run_settled_def gate_inv_def)
next
  case (sync_begin i r oper pc sd)
  then have "rr_watch r = WNone" "rr_syncs r = [WNone]" "i = 0" by (auto simp: run_inv_def gate_inv_def)
  then show ?case using sync_begin settle_op [of oper "rr_sd r"] by (auto simp: run_inv_def gate_inv_def run_settled_def)
next
  case (sync_go i r pc sd)
  then have "rr_watch r = WNone" "i = 0" by (auto simp: run_inv_def gate_inv_def)
  then show ?case using sync_go settle_advance by (fastforce simp: run_inv_def run_settled_def)
next
  case (watch_begin r oper pc sd)
  then have "rr_syncs r = [WNone]" by (auto simp: run_inv_def gate_inv_def)
  then show ?case using watch_begin settle_op [of oper "rr_sd r"] by (auto simp: run_inv_def run_settled_def)
next
  case (watch_go r pc sd)
  then have "rr_syncs r = [WNone]" by (auto simp: run_inv_def gate_inv_def)
  then show ?case using watch_go settle_advance [of "rr_watch r" "rr_sd r"] by (auto simp: run_inv_def run_settled_def)
qed

interpretation regrun: step_invariant run_step "run_inv sd0" for sd0
  by unfold_locales (rule run_inv_step)

lemma run_inv_init: "run_inv sd0 (run_init 1 sd0)"
  by (simp add: run_inv_def run_init_def gate_inv_def gate_init_def run_settled_def)

lemma ops_inv: "sd_inv sd \<Longrightarrow> sd_inv (fold apply_op ops sd)"
proof (induction ops arbitrary: sd)
  case (Cons oper ops)
  then show ?case by (cases oper) (simp_all add: addServer_inv deleteServer_inv)
qed simp

text \<open>The id a goroutine is writing. A pending write touches nothing else in either map.\<close>

fun written_id :: "write_pc \<Rightarrow> string option" where
  "written_id WNone = None"
| "written_id (AddType sv) = Some (sv_ID sv)"
| "written_id (AddNotify sv) = Some (sv_ID sv)"
| "written_id (DelID sv) = Some (sv_ID sv)"
| "written_id (DelType sv) = Some (sv_ID sv)"
| "written_id (DelNotify sv) = Some (sv_ID sv)"

lemma type_entry_put: "type_entry (type_put sv sd) t i = (if t = sv_Type sv \<and> i = sv_ID sv then Some sv else type_entry sd t i)"
  by (auto simp: type_put_def type_entry_def Let_def split: option.splits)

lemma type_entry_del: "type_entry (type_del sv sd) t i = (if t = sv_Type sv \<and> i = sv_ID sv then None else type_entry sd t i)"
  by (auto simp: type_del_def type_entry_def Let_def split: option.splits)

lemma type_put_abs [simp]: "registry_abs (type_put sv sd) = registry_abs sd" "registry_abs (type_del sv sd) = registry_abs sd"
  by (simp_all add: type_put_def type_del_def registry_abs_def Let_def)

lemma byID_entry [simp]: "type_entry (sd\<lparr>sd_serverMapByID := m\<rparr>) = type_entry sd" "registry_abs (sd\<lparr>sd_serverMapByID := m\<rparr>) = gm_get m"
  by (simp_all add: type_entry_def registry_abs_def fun_eq_iff)

lemma settle_other:
  assumes "written_id pc \<noteq> Some i"
  shows "registry_abs (settle pc sd) i = registry_abs sd i" "type_entry (settle pc sd) t i = type_entry sd t i"
proof -
  show "registry_abs (settle pc sd) i = registry_abs sd i"
    using assms by (cases pc) (simp_all, simp_all add: registry_abs_def)
  show "type_entry (settle pc sd) t i = type_entry sd t i"
    using assms by (cases pc) (auto simp: type_entry_put type_entry_del)
qed

section \<open>Properties\<close>

text \<open>
  C12: with one synchronising goroutine the registry is linearizable. In every state that the watcher and the
  goroutine can reach together, the registry with the pending write completed is the result of the additions and
  deletions one after the other, in the order of their first access; when no write is pending this is the registry itself, and its two maps
  agree. A reader in the middle of a write sees both maps agree on every id but the one being written.
\<close>

theorem registry_linearizable:
  assumes "run_step\<^sup>*\<^sup>* (run_init 1 sd0) r" "sd_inv sd0"
  shows "\<exists>w. rr_syncs r = [w] \<and> (w = WNone \<or> rr_watch r = WNone) \<and> run_settled r = fold apply_op (rr_ops r) sd0 \<and>
    (w = WNone \<and> rr_watch r = WNone \<longrightarrow> rr_sd r = run_settled r \<and> sd_inv (rr_sd r)) \<and>
    (\<forall>i t sv. Some i \<notin> {written_id w, written_id (rr_watch r)} \<longrightarrow>
       (type_entry (rr_sd r) t i = Some sv \<longleftrightarrow> registry_abs (rr_sd r) i = Some sv \<and> sv_Type sv = t))"
proof -
  have inv: "run_inv sd0 r" using regrun.steps [OF assms(1) run_inv_init] .
  then obtain w where w: "rr_syncs r = [w]" "w = WNone \<or> rr_watch r = WNone"
    "run_settled r = settle (if w = WNone then rr_watch r else w) (rr_sd r)"
    using run_inv_alone by blast
  have s: "run_settled r = fold apply_op (rr_ops r) sd0" using inv by (simp add: run_inv_def)
  then have i: "sd_inv (run_settled r)" using ops_inv [OF assms(2)] by simp
  have c: "type_entry (run_settled r) t i = Some sv \<longleftrightarrow> registry_abs (run_settled r) i = Some sv \<and> sv_Type sv = t" for i t sv
    using i by (simp add: sd_inv_def)
  have "type_entry (rr_sd r) t i = Some sv \<longleftrightarrow> registry_abs (rr_sd r) i = Some sv \<and> sv_Type sv = t"
    if "Some i \<notin> {written_id w, written_id (rr_watch r)}" for i t sv
  proof -
    have "written_id (if w = WNone then rr_watch r else w) \<noteq> Some i" using that by auto
    from settle_other [OF this, of "rr_sd r"] show ?thesis using c [of t i sv] by (simp add: w(3))
  qed
  moreover have "w = WNone \<and> rr_watch r = WNone \<longrightarrow> rr_sd r = run_settled r \<and> sd_inv (rr_sd r)" using w(3) i by auto
  ultimately show ?thesis using w(1,2) s by blast
qed

theorem registry_linearizable_witness:
  "\<exists>sd sv r. run_step\<^sup>*\<^sup>* (run_init 1 sd) r \<and> rr_watch r = AddType sv \<and> run_settled r = addServer sv sd"
proof -
  fix sd0 :: sdstate and sv :: server
  define sd where "sd = sd0\<lparr>sd_serverMapByID := gm_empty, sd_serverMapByType := gm_empty\<rparr>"
  define g where "g = (run_init 1 sd)\<lparr>rr_gate := \<lparr>gt_watcher = Handling, gt_syncs = [Entering]\<rparr>\<rparr>"
  define r where "r = g\<lparr>rr_sd := snd (add_load sv sd), rr_watch := AddType sv, rr_ops := [OpAdd sv]\<rparr>"
  have "run_step (run_init 1 sd) g"
    unfolding g_def using gate_step.response [of "gate_init 1"] by (intro run_step.gate) (simp_all add: run_init_def gate_init_def)
  moreover have "run_step g r"
    using run_step.watch_begin [of g "OpAdd sv" "AddType sv" "snd (add_load sv sd)"]
    by (simp add: run_init_def g_def r_def add_load_def sd_def)
  ultimately have s: "run_step\<^sup>*\<^sup>* (run_init 1 sd) r" by (metis r_into_rtranclp rtranclp_trans)
  have "sd_inv sd" by (simp add: sd_inv_def sd_def registry_abs_def type_entry_def)
  from registry_linearizable [OF s this] have "run_settled r = addServer sv sd" by (auto simp: r_def)
  moreover have "rr_watch r = AddType sv" by (simp add: r_def)
  ultimately show ?thesis using s by blast
qed

section \<open>Two synchronising goroutines\<close>

text \<open>
  An entry of the map by type whose id is not in the map by id: no deletion and no addition of other servers removes it.
\<close>

definition ghost :: "server \<Rightarrow> sdstate \<Rightarrow> bool" where
  "ghost sv sd \<longleftrightarrow> registry_abs sd (sv_ID sv) = None \<and> type_entry sd (sv_Type sv) (sv_ID sv) = Some sv"

definition own_ids :: "sdstate \<Rightarrow> bool" where
  "own_ids sd \<longleftrightarrow> (\<forall>i sv. registry_abs sd i = Some sv \<longrightarrow> sv_ID sv = i)"

fun adds_id :: "string \<Rightarrow> registry_op \<Rightarrow> bool" where
  "adds_id i (OpAdd sv) = (sv_ID sv = i)"
| "adds_id i (OpDelete j) = False"

lemma settle_load: "apply_op oper sd = (case op_load oper sd of (pc, sd') \<Rightarrow> settle pc sd')"
  by (simp add: settle_op split: prod.splits)

lemma own_ids_op: "own_ids sd \<Longrightarrow> own_ids (apply_op oper sd)"
  by (cases oper)
    (auto simp: own_ids_def addServer_def deleteServer_def registry_abs_def Let_def notifyListeners_def split: if_splits option.splits)

lemma ghost_op:
  assumes "ghost sv sd" "own_ids sd" "\<not> adds_id (sv_ID sv) oper"
  shows "ghost sv (apply_op oper sd)"
proof (cases "op_load oper sd")
  case (Pair pc sd')
  with assms have "written_id pc \<noteq> Some (sv_ID sv)" "registry_abs sd' (sv_ID sv) = None" "type_entry sd' = type_entry sd"
    by (cases oper; auto simp: add_load_def del_load_def ghost_def own_ids_def registry_abs_def split: option.splits if_splits)+
  with settle_other [of pc "sv_ID sv"] show ?thesis using assms(1) Pair by (simp add: settle_load ghost_def)
qed

lemma ghost_stays:
  "ghost sv sd \<Longrightarrow> own_ids sd \<Longrightarrow> list_all (\<lambda>oper. \<not> adds_id (sv_ID sv) oper) ops \<Longrightarrow> ghost sv (fold apply_op ops sd)"
proof (induction ops arbitrary: sd)
  case (Cons oper ops)
  then show ?case using ghost_op own_ids_op by simp
qed simp

text \<open>The steps of two goroutines that synchronise while the watcher waits for them.\<close>

abbreviation two_run :: "watcher_pc \<Rightarrow> sync_pc list \<Rightarrow> sdstate \<Rightarrow> write_pc list \<Rightarrow> registry_op list \<Rightarrow> registry_run" where
  "two_run w ps sd ws ops \<equiv>
     \<lparr>rr_gate = \<lparr>gt_watcher = w, gt_syncs = ps\<rparr>, rr_sd = sd, rr_syncs = ws, rr_watch = WNone, rr_ops = ops\<rparr>"

lemma two_gate:
  "gate_step \<lparr>gt_watcher = w, gt_syncs = ps\<rparr> \<lparr>gt_watcher = w', gt_syncs = ps'\<rparr> \<Longrightarrow>
   run_step (two_run w ps sd [WNone, WNone] ops) (two_run w' ps' sd [WNone, WNone] ops)"
  using run_step.gate [of "two_run w ps sd [WNone, WNone] ops" "\<lparr>gt_watcher = w', gt_syncs = ps'\<rparr>"]
  by (simp add: less_2_cases_iff numeral_2_eq_2 less_Suc_eq)

lemma two_begin:
  "i < length ws \<Longrightarrow> ws ! i = WNone \<Longrightarrow> ps ! i = Syncing \<Longrightarrow> op_load oper sd = (pc, sd') \<Longrightarrow>
   run_step (two_run w ps sd ws ops) (two_run w ps sd' (ws[i := pc]) (ops @ [oper]))"
  using run_step.sync_begin [of i "two_run w ps sd ws ops" oper pc sd'] by simp

lemma two_go:
  "i < length ws \<Longrightarrow> ws ! i \<noteq> WNone \<Longrightarrow> advance (ws ! i) sd = (pc, sd') \<Longrightarrow>
   run_step (two_run w ps sd ws ops) (two_run w ps sd' (ws[i := pc]) ops)"
  using run_step.sync_go [of i "two_run w ps sd ws ops" pc sd'] by simp

text \<open>Both goroutines pass the channel, and leave it.\<close>

lemma two_enter: "run_step\<^sup>*\<^sup>* (run_init 2 sd) (two_run Draining [Syncing, Syncing] sd [WNone, WNone] [])"
proof -
  let ?r = "\<lambda>w a b. two_run w [a, b] sd [WNone, WNone] []"
  have "run_init 2 sd = ?r Selecting Entering Entering"
    by (simp add: run_init_def gate_init_def numeral_2_eq_2)
  moreover have "run_step (?r Selecting Entering Entering) (?r Draining Syncing Entering)"
    using gate_step.send_true [of "\<lparr>gt_watcher = Selecting, gt_syncs = [Entering, Entering]\<rparr>" 0]
    by (intro two_gate) (simp add: gate_receive_def)
  moreover have "run_step (?r Draining Syncing Entering) (?r Draining Syncing Syncing)"
    using gate_step.send_true [of "\<lparr>gt_watcher = Draining, gt_syncs = [Syncing, Entering]\<rparr>" 1]
    by (intro two_gate) (simp add: gate_receive_def)
  ultimately show ?thesis by (metis r_into_rtranclp rtranclp_trans)
qed

lemma two_leave:
  "run_step\<^sup>*\<^sup>* (two_run Draining [Syncing, Syncing] sd [WNone, WNone] ops) (two_run Selecting [Left, Left] sd [WNone, WNone] ops)"
proof -
  let ?r = "\<lambda>w a b. two_run w [a, b] sd [WNone, WNone] ops"
  have "run_step (?r Draining Syncing Syncing) (?r Selecting Left Syncing)"
    using gate_step.send_false [of "\<lparr>gt_watcher = Draining, gt_syncs = [Syncing, Syncing]\<rparr>" 0]
    by (intro two_gate) (simp add: gate_receive_def)
  moreover have "run_step (?r Selecting Left Syncing) (?r Selecting Left Left)"
    using gate_step.send_false [of "\<lparr>gt_watcher = Selecting, gt_syncs = [Left, Syncing]\<rparr>" 1]
    by (intro two_gate) (simp add: gate_receive_def)
  ultimately show ?thesis by (metis r_into_rtranclp rtranclp_trans)
qed

text \<open>
  The interleaving: one goroutine stores the server in the map by id, the other then deletes it from both
  maps, and the first goes on and puts it in the map by type.
\<close>

definition race_store :: "server \<Rightarrow> sdstate \<Rightarrow> sdstate" where
  "race_store sv sd = snd (add_load sv sd)"

definition race_end :: "server \<Rightarrow> sdstate \<Rightarrow> sdstate" where
  "race_end sv sd = settle (AddType sv) (settle (DelID sv) (race_store sv sd))"

lemma race_run:
  assumes "registry_abs sd (sv_ID sv) = None"
  shows "run_step\<^sup>*\<^sup>* (two_run Draining [Syncing, Syncing] sd [WNone, WNone] [])
    (two_run Draining [Syncing, Syncing] (race_end sv sd) [WNone, WNone] [OpAdd sv, OpDelete (sv_ID sv)])"
proof -
  let ?ops = "[OpAdd sv, OpDelete (sv_ID sv)]"
  let ?r = "\<lambda>sd a b ops. two_run Draining [Syncing, Syncing] sd [a, b] ops"
  define s1 where "s1 = race_store sv sd"
  define s2 where "s2 = snd (advance (DelID sv) s1)"
  define s3 where "s3 = snd (advance (DelType sv) s2)"
  define s4 where "s4 = snd (advance (DelNotify sv) s3)"
  define s5 where "s5 = snd (advance (AddType sv) s4)"
  have last: "snd (advance (AddNotify sv) s5) = race_end sv sd"
    by (simp add: race_end_def s5_def s4_def s3_def s2_def s1_def)
  have load: "add_load sv sd = (AddType sv, s1)" "del_load (sv_ID sv) s1 = (DelID sv, s1)"
    using assms by (auto simp: add_load_def del_load_def race_store_def registry_abs_def s1_def)
  have "run_step (?r sd WNone WNone []) (?r s1 (AddType sv) WNone [OpAdd sv])"
    using two_begin [of 0 "[WNone, WNone]" "[Syncing, Syncing]" "OpAdd sv" sd "AddType sv" s1 Draining "[]"] load by simp
  moreover have "run_step (?r s1 (AddType sv) WNone [OpAdd sv]) (?r s1 (AddType sv) (DelID sv) ?ops)"
    using two_begin [of 1 "[AddType sv, WNone]" "[Syncing, Syncing]" "OpDelete (sv_ID sv)" s1 "DelID sv" s1 Draining "[OpAdd sv]"] load by simp
  moreover have "run_step (?r s1 (AddType sv) (DelID sv) ?ops) (?r s2 (AddType sv) (DelType sv) ?ops)"
    using two_go [of 1 "[AddType sv, DelID sv]"] by (simp add: s2_def)
  moreover have "run_step (?r s2 (AddType sv) (DelType sv) ?ops) (?r s3 (AddType sv) (DelNotify sv) ?ops)"
    using two_go [of 1 "[AddType sv, DelType sv]"] by (simp add: s3_def)
  moreover have "run_step (?r s3 (AddType sv) (DelNotify sv) ?ops) (?r s4 (AddType sv) WNone ?ops)"
    using two_go [of 1 "[AddType sv, DelNotify sv]"] by (simp add: s4_def)
  moreover have "run_step (?r s4 (AddType sv) WNone ?ops) (?r s5 (AddNotify sv) WNone ?ops)"
    using two_go [of 0 "[AddType sv, WNone]"] by (simp add: s5_def)
  moreover have "run_step (?r s5 (AddNotify sv) WNone ?ops) (?r (race_end sv sd) WNone WNone ?ops)"
    using two_go [of 0 "[AddNotify sv, WNone]" s5 WNone "race_end sv sd"] last by simp
  ultimately show ?thesis by (meson r_into_rtranclp rtranclp_trans)
qed

lemma race_ghost:
  assumes "registry_abs sd (sv_ID sv) = None"
  shows "ghost sv (race_end sv sd)" "registry_abs (race_end sv sd) = registry_abs sd"
proof -
  have store: "race_store sv sd = sd\<lparr>sd_serverMapByID := gm_put (sv_ID sv) sv (sd_serverMapByID sd)\<rparr>"
    using assms by (simp add: race_store_def add_load_def registry_abs_def)
  show abs: "registry_abs (race_end sv sd) = registry_abs sd"
    using assms by (simp add: race_end_def store) (auto simp: registry_abs_def fun_eq_iff)
  show "ghost sv (race_end sv sd)"
    unfolding ghost_def abs using assms by (simp add: race_end_def type_entry_put)
qed

text \<open>
  C29: with two synchronising goroutines, as when a lease renewal synchronises beside the ticker, the registry can be
  left inconsistent for good. A server that one of them adds while the other deletes it can end up in the map by
  type and not in the map by id, with both goroutines done; from then on \<open>GetServersByType\<close> lists a server that \<open>GetServer\<close>
  does not find, and no deletion of any servers and no addition of other ones takes it out, because \<open>deleteServer\<close> looks the id up in the map by id first.
\<close>

theorem two_syncs_ghost:
  assumes "sd_inv sd" "registry_abs sd (sv_ID sv) = None"
  shows "\<exists>r. run_step\<^sup>*\<^sup>* (run_init 2 sd) r \<and> rr_syncs r = [WNone, WNone] \<and> gt_syncs (rr_gate r) = [Left, Left] \<and>
    rr_ops r = [OpAdd sv, OpDelete (sv_ID sv)] \<and> 
    (\<forall>ops. list_all (\<lambda>oper. \<not> adds_id (sv_ID sv) oper) ops \<longrightarrow>
       type_entry (fold apply_op ops (rr_sd r)) (sv_Type sv) (sv_ID sv) = Some sv \<and>
       GetServer (sv_ID sv) (fold apply_op ops (rr_sd r)) = Err ErrNoServerWithID)"
proof -
  let ?r = "two_run Selecting [Left, Left] (race_end sv sd) [WNone, WNone] [OpAdd sv, OpDelete (sv_ID sv)]"
  have "run_step\<^sup>*\<^sup>* (run_init 2 sd) ?r"
    by (rule rtranclp_trans [OF two_enter rtranclp_trans [OF race_run [OF assms(2)] two_leave]])
  moreover have "own_ids (race_end sv sd)"
    using assms(1) by (simp add: own_ids_def race_ghost [OF assms(2)] sd_inv_def)
  then have "ghost sv (fold apply_op ops (race_end sv sd))"
    if "list_all (\<lambda>oper. \<not> adds_id (sv_ID sv) oper) ops" for ops
    using ghost_stays [OF race_ghost(1) [OF assms(2)] _ that] by blast
  ultimately show ?thesis
    by (intro exI [of _ ?r]) (auto simp: ghost_def GetServer_def registry_abs_def)
qed

theorem two_syncs_ghost_witness:
  "\<exists>sd sv r. run_step\<^sup>*\<^sup>* (run_init 2 sd) r \<and> type_entry (rr_sd r) (sv_Type sv) (sv_ID sv) = Some sv \<and>
     GetServer (sv_ID sv) (rr_sd r) = Err ErrNoServerWithID"
proof -
  fix sd0 :: sdstate and sv :: server
  define sd where "sd = sd0\<lparr>sd_serverMapByID := gm_empty, sd_serverMapByType := gm_empty\<rparr>"
  have "sd_inv sd" "registry_abs sd (sv_ID sv) = None" by (simp_all add: sd_inv_def sd_def registry_abs_def type_entry_def)
  from two_syncs_ghost [OF this] obtain r where "run_step\<^sup>*\<^sup>* (run_init 2 sd) r"
    "type_entry (fold apply_op [] (rr_sd r)) (sv_Type sv) (sv_ID sv) = Some sv"
    "GetServer (sv_ID sv) (fold apply_op [] (rr_sd r)) = Err ErrNoServerWithID"
    by (metis list.pred_inject(1))
  then show ?thesis by auto
qed

end
