(* ===== verification/Context.thy ===== *)
theory Context
  imports Errors
begin

text \<open>
  \<open>context/context.go\<close>: the values propagated through RPC calls. A Go context is a chain of key/value
  pairs; the propagated values are one map, kept in the chain under \<open>PropagateCtxKey\<close>. Go maps are
  references, so the model keeps them in a heap and contexts hold addresses: two contexts can share a
  map, and a nil map (no address) can be read but not written. The JSON text of a map is produced
  and read by the standard library: the parameter \<open>mapjson\<close>.
\<close>

section \<open>Data\<close>

text \<open>Dynamic values: what an \<open>interface{}\<close> of this program holds. \<open>GCarrier\<close> is an opentracing text
  map, \<open>GTags\<close> a \<open>map[string]string\<close>, \<open>GMap\<close> a \<open>map[string]interface{}\<close>: three different dynamic types.\<close>

datatype gval = GNil | GString string | GNum int | GBool bool
  | GCarrier "(string \<times> string) list" | GTags "(string \<times> string) list" | GMap "(string \<times> gval) list" | GOther nat

datatype ctx_key = PropagateCtxKey | LoggerCtxKey | SpanKey | OtherKey nat

datatype cval = CMap "nat option" | CSpan nat | CVal gval

datatype ctx = Background | WithValue ctx ctx_key cval

record heap =
  hp_next :: nat
  hp_map :: "nat \<Rightarrow> (string, gval) gomap"

definition SpanPropagateCtxKey :: string where "SpanPropagateCtxKey = ''opentracing-span''"
definition PeerIDKey :: string where "PeerIDKey = ''peer.id''"
definition PeerServiceKey :: string where "PeerServiceKey = ''peer.service''"
definition StartTimeKey :: string where "StartTimeKey = ''req-start-time''"
definition RequestIDKey :: string where "RequestIDKey = ''request.id''"
definition RouteKey :: string where "RouteKey = ''req-route''"
definition ShareIDKey :: string where "ShareIDKey = ''share.id''"
definition MetricTagsKey :: string where "MetricTagsKey = ''metric-tags''"
definition RegionKey :: string where "RegionKey = ''region''"
definition RequestTimeout :: string where "RequestTimeout = ''reqTimeout''"

lemmas ctx_keys = SpanPropagateCtxKey_def PeerIDKey_def PeerServiceKey_def StartTimeKey_def RequestIDKey_def
  RouteKey_def ShareIDKey_def MetricTagsKey_def RegionKey_def RequestTimeout_def

record mapjson =
  mj_marshal :: "(string, gval) gomap \<Rightarrow> string + bytes"
  mj_unmarshal :: "bytes \<Rightarrow> string + (string, gval) gomap option"

section \<open>Operations\<close>

text \<open>\<open>ctx.Value\<close> finds the innermost value of a key.\<close>

fun ctx_Value :: "ctx \<Rightarrow> ctx_key \<Rightarrow> cval option" where
  "ctx_Value Background k = None"
| "ctx_Value (WithValue c k' v) k = (if k' = k then Some v else ctx_Value c k)"

definition new_map :: "(string, gval) gomap \<Rightarrow> heap \<Rightarrow> nat \<times> heap" where
  "new_map m h = (hp_next h, \<lparr>hp_next = Suc (hp_next h), hp_map = (hp_map h)(hp_next h := m)\<rparr>)"

definition read_map :: "heap \<Rightarrow> nat option \<Rightarrow> (string, gval) gomap" where
  "read_map h r = (case r of None \<Rightarrow> gm_empty | Some a \<Rightarrow> hp_map h a)"

definition map_assign :: "nat option \<Rightarrow> string \<Rightarrow> gval \<Rightarrow> heap \<Rightarrow> (goerror, heap) outcome" where
  "map_assign r k v h =
     (case r of
        None \<Rightarrow> Panic ''assignment to entry in nil map''
      | Some a \<Rightarrow> Ok (h\<lparr>hp_map := (hp_map h)(a := gm_put k v (hp_map h a))\<rparr>))"

definition ctx_WithValue :: "ctx option \<Rightarrow> ctx_key \<Rightarrow> cval \<Rightarrow> (goerror, ctx) outcome" where
  "ctx_WithValue c k v =
     (case c of None \<Rightarrow> Panic ''cannot create context from nil parent'' | Some c \<Rightarrow> Ok (WithValue c k v))"

definition ToMap :: "ctx option \<Rightarrow> heap \<Rightarrow> (goerror, nat option \<times> heap) outcome" where
  "ToMap c h =
     (let fresh = (case new_map gm_empty h of (a, h) \<Rightarrow> Ok (Some a, h)) in
      case c of
        None \<Rightarrow> fresh
      | Some c \<Rightarrow>
          (case ctx_Value c PropagateCtxKey of
             None \<Rightarrow> fresh
           | Some (CVal GNil) \<Rightarrow> fresh
           | Some (CMap r) \<Rightarrow> Ok (r, h)
           | Some _ \<Rightarrow> Panic ''interface conversion''))"

definition AddToPropagateCtx :: "ctx option \<Rightarrow> string \<Rightarrow> gval \<Rightarrow> heap \<Rightarrow> (goerror, ctx \<times> heap) outcome" where
  "AddToPropagateCtx c key val h =
     bind_outcome (ToMap c h) (\<lambda>(propagate, h).
     bind_outcome (map_assign propagate key val h) (\<lambda>h.
     bind_outcome (ctx_WithValue c PropagateCtxKey (CMap propagate)) (\<lambda>c. Ok (c, h))))"

definition GetFromPropagateCtx :: "ctx option \<Rightarrow> string \<Rightarrow> heap \<Rightarrow> (goerror, gval) outcome" where
  "GetFromPropagateCtx c key h =
     bind_outcome (ToMap c h) (\<lambda>(propagate, h).
     Ok (case gm_get (read_map h propagate) key of Some val \<Rightarrow> val | None \<Rightarrow> GNil))"

definition FromMap :: "nat option \<Rightarrow> ctx" where
  "FromMap val = WithValue Background PropagateCtxKey (CMap val)"

definition ctx_Encode :: "mapjson \<Rightarrow> ctx option \<Rightarrow> heap \<Rightarrow> (goerror, bytes) outcome" where
  "ctx_Encode mj c h =
     bind_outcome (ToMap c h) (\<lambda>(r, h).
     let m = read_map h r in
     if length m > 0
     then (case mj_marshal mj m of Inl e \<Rightarrow> Err (PlainError e) | Inr bs \<Rightarrow> Ok bs)
     else Ok [])"

text \<open>
  Reading into a map: the text \<open>null\<close> makes the map nil, and the context then holds a nil map.
\<close>

definition ctx_Decode :: "mapjson \<Rightarrow> bytes \<Rightarrow> heap \<Rightarrow> (goerror, ctx option \<times> heap) outcome" where
  "ctx_Decode mj m h =
     (if length m = 0 then Ok (None, h)
      else
        case mj_unmarshal mj m of
          Inl e \<Rightarrow> Err (PlainError e)
        | Inr None \<Rightarrow> Ok (Some (FromMap None), h)
        | Inr (Some mp) \<Rightarrow> (case new_map mp h of (a, h) \<Rightarrow> Ok (Some (FromMap (Some a)), h)))"

section \<open>Lemmas\<close>

text \<open>The propagated values of a context, and whether it holds a map of its own.\<close>

definition has_map :: "ctx option \<Rightarrow> bool" where
  "has_map c \<longleftrightarrow> (case c of None \<Rightarrow> False | Some c \<Rightarrow> (\<exists>r. ctx_Value c PropagateCtxKey = Some (CMap r)))"

lemma new_map_simps [simp]:
  "fst (new_map m h) = hp_next h" "hp_map (snd (new_map m h)) = (hp_map h)(hp_next h := m)"
  by (simp_all add: new_map_def)

lemma ToMap_fresh:
  "\<not> has_map c \<Longrightarrow> ToMap c h = Ok (r, h') \<Longrightarrow>
     r = Some (hp_next h) \<and> hp_map h' = (hp_map h)(hp_next h := gm_empty)"
  by (auto simp: ToMap_def has_map_def new_map_def Let_def split: option.splits cval.splits gval.splits)

lemma ToMap_shared: "has_map c \<Longrightarrow> ToMap c h = Ok (r, h') \<Longrightarrow> h' = h \<and> (\<forall>h2. ToMap c h2 = Ok (r, h2))"
  by (auto simp: ToMap_def has_map_def split: option.splits)

lemma GetFromPropagateCtx_fresh:
  assumes "\<not> has_map c" "ToMap c h = Ok (r, h')"
  shows "GetFromPropagateCtx c k h2 = Ok GNil"
proof -
  obtain r2 h2' where t: "ToMap c h2 = Ok (r2, h2')"
    using assms by (auto simp: ToMap_def has_map_def new_map_def Let_def split: option.splits cval.splits gval.splits)
  then show ?thesis
    using ToMap_fresh [OF assms(1) t] by (simp add: GetFromPropagateCtx_def read_map_def)
qed

lemma GetFromPropagateCtx_map:
  "ctx_Value c PropagateCtxKey = Some (CMap r) \<Longrightarrow>
     GetFromPropagateCtx (Some c) k h = Ok (case gm_get (read_map h r) k of Some v \<Rightarrow> v | None \<Rightarrow> GNil)"
  by (simp add: GetFromPropagateCtx_def ToMap_def)

lemma AddToPropagateCtx_parts:
  assumes "AddToPropagateCtx c key val h = Ok (c', h')"
  shows "\<exists>p a h1. c = Some p \<and> ToMap c h = Ok (Some a, h1) \<and>
    h' = h1\<lparr>hp_map := (hp_map h1)(a := gm_put key val (hp_map h1 a))\<rparr> \<and>
    c' = WithValue p PropagateCtxKey (CMap (Some a))"
  using assms
  by (auto simp: AddToPropagateCtx_def bind_outcome_Ok map_assign_def ctx_WithValue_def split: option.splits)

subsection \<open>The propagated values as a map\<close>

text \<open>
  \<open>ctx_ok\<close>: a context into which values can be put; \<open>ctx_vals\<close>: the values it propagates.
\<close>

definition ctx_ok :: "ctx option \<Rightarrow> bool" where
  "ctx_ok c \<longleftrightarrow>
     (case c of
        None \<Rightarrow> False
      | Some c \<Rightarrow>
          (case ctx_Value c PropagateCtxKey of
             None \<Rightarrow> True | Some (CVal GNil) \<Rightarrow> True | Some (CMap (Some _)) \<Rightarrow> True | _ \<Rightarrow> False))"

definition ctx_vals :: "ctx option \<Rightarrow> heap \<Rightarrow> string \<Rightarrow> gval option" where
  "ctx_vals c h =
     (case c of
        None \<Rightarrow> Map.empty
      | Some c \<Rightarrow> (case ctx_Value c PropagateCtxKey of Some (CMap r) \<Rightarrow> gm_get (read_map h r) | _ \<Rightarrow> Map.empty))"

definition val_of :: "gval option \<Rightarrow> gval" where
  "val_of v = (case v of Some x \<Rightarrow> x | None \<Rightarrow> GNil)"

lemma val_of_simps [simp]: "val_of (Some x) = x" "val_of None = GNil"
  by (simp_all add: val_of_def)

lemma ctx_ok_not_nil [simp]: "\<not> ctx_ok None"
  by (simp add: ctx_ok_def)

lemma ctx_ok_Some: "ctx_ok c \<Longrightarrow> \<exists>p. c = Some p"
  by (cases c) simp_all

lemma ToMap_vals:
  assumes "ctx_ok c"
  shows "\<exists>a h1. ToMap c h = Ok (Some a, h1) \<and> gm_get (hp_map h1 a) = ctx_vals c h"
  using assms
  by (auto simp: ctx_ok_def ctx_vals_def ToMap_def new_map_def Let_def read_map_def fun_eq_iff
      split: option.splits cval.splits gval.splits)

lemma GetFromPropagateCtx_vals: "ctx_ok c \<Longrightarrow> GetFromPropagateCtx c k h = Ok (val_of (ctx_vals c h k))"
  using ToMap_vals [of c h] by (auto simp: GetFromPropagateCtx_def read_map_def val_of_def)

lemma AddToPropagateCtx_vals:
  assumes "ctx_ok c"
  shows "\<exists>c' h'. AddToPropagateCtx c k v h = Ok (c', h') \<and> ctx_ok (Some c') \<and>
    ctx_vals (Some c') h' = (ctx_vals c h)(k \<mapsto> v) \<and> (\<forall>key. key \<noteq> PropagateCtxKey \<longrightarrow> ctx_Value c' key = ctx_Value (the c) key)"
proof -
  obtain p where "c = Some p" using ctx_ok_Some [OF assms] by blast
  moreover obtain a h1 where "ToMap c h = Ok (Some a, h1)" "gm_get (hp_map h1 a) = ctx_vals c h"
    using ToMap_vals [OF assms] by blast
  ultimately show ?thesis
    by (auto simp: AddToPropagateCtx_def map_assign_def ctx_WithValue_def ctx_ok_def ctx_vals_def read_map_def fun_eq_iff)
qed

lemma ctx_vals_WithValue [simp]:
  "key \<noteq> PropagateCtxKey \<Longrightarrow> ctx_vals (Some (WithValue c key v)) h = ctx_vals (Some c) h"
  "key \<noteq> PropagateCtxKey \<Longrightarrow> ctx_ok (Some (WithValue c key v)) = ctx_ok (Some c)"
  by (simp_all add: ctx_vals_def ctx_ok_def)

lemma ctx_vals_FromMap [simp]:
  "ctx_vals (Some (FromMap (Some a))) h = gm_get (hp_map h a)" "ctx_ok (Some (FromMap (Some a)))"
  "\<not> ctx_ok (Some (FromMap None))"
  by (simp_all add: ctx_vals_def ctx_ok_def FromMap_def read_map_def)

section \<open>Properties\<close>
text \<open>
  Adding a value to the propagated ones. The new context has it, and the other values of its
  parent; but when the parent already propagates values, they are the same map: the parent, and
  every other context that shares it, sees the new value too.
\<close>

lemma AddToPropagateCtx_shared:
  assumes "AddToPropagateCtx c key val h = Ok (c', h')"
  shows "(\<forall>k. GetFromPropagateCtx (Some c') k h' =
      (if k = key then Ok val else GetFromPropagateCtx c k h)) \<and>
    (has_map c \<longrightarrow> (\<forall>k. GetFromPropagateCtx c k h' = GetFromPropagateCtx (Some c') k h')) \<and>
    (\<not> has_map c \<longrightarrow> (\<forall>k. GetFromPropagateCtx c k h' = Ok GNil))"
proof -
  obtain p a h1 where d: "c = Some p" "ToMap c h = Ok (Some a, h1)"
    "h' = h1\<lparr>hp_map := (hp_map h1)(a := gm_put key val (hp_map h1 a))\<rparr>"
    "c' = WithValue p PropagateCtxKey (CMap (Some a))"
    using AddToPropagateCtx_parts [OF assms] by blast
  have new: "GetFromPropagateCtx (Some c') k h' =
      Ok (case gm_get (gm_put key val (hp_map h1 a)) k of Some v \<Rightarrow> v | None \<Rightarrow> GNil)" for k
    by (simp add: d GetFromPropagateCtx_map read_map_def)
  show ?thesis
  proof (cases "has_map c")
    case True
    then have v: "ctx_Value p PropagateCtxKey = Some (CMap (Some a))" "h1 = h"
      using d(1,2) by (auto simp: has_map_def ToMap_def)
    show ?thesis
      using True by (simp add: new d(1) GetFromPropagateCtx_map [OF v(1)] v(2) read_map_def, simp add: d v)
  next
    case False
    then show ?thesis
      using GetFromPropagateCtx_fresh [OF False d(2)] ToMap_fresh [OF False d(2)] by (simp add: new)
  qed
qed

text \<open>The codec reads back this map, up to the order of its entries.\<close>

definition mj_lossless :: "mapjson \<Rightarrow> (string, gval) gomap \<Rightarrow> bool" where
  "mj_lossless mj m \<longleftrightarrow>
     (case mj_marshal mj m of
        Inl _ \<Rightarrow> False
      | Inr bs \<Rightarrow> bs \<noteq> [] \<and> (case mj_unmarshal mj bs of Inr (Some m') \<Rightarrow> gm_get m' = gm_get m | _ \<Rightarrow> False))"

lemma Encode_vals:
  assumes "ctx_ok c" "\<And>m. gm_get m = ctx_vals c h \<Longrightarrow> mj_lossless mj m" "ctx_vals c h k = Some v"
  shows "\<exists>bs. ctx_Encode mj c h = Ok bs \<and>
    (\<exists>a g'. ctx_Decode mj bs g = Ok (Some (FromMap (Some a)), g') \<and>
       ctx_vals (Some (FromMap (Some a))) g' = ctx_vals c h)"
proof -
  obtain a h1 where t: "ToMap c h = Ok (Some a, h1)" "gm_get (hp_map h1 a) = ctx_vals c h"
    using ToMap_vals [OF assms(1)] by blast
  have ne: "hp_map h1 a \<noteq> []" using assms(3) t(2) by (auto simp: gm_get_def fun_eq_iff)
  obtain bs m' where b: "mj_marshal mj (hp_map h1 a) = Inr bs" "bs \<noteq> []" "mj_unmarshal mj bs = Inr (Some m')"
    "gm_get m' = gm_get (hp_map h1 a)"
    using assms(2) [OF t(2)] by (auto simp: mj_lossless_def split: sum.splits option.splits)
  then show ?thesis
    using t ne by (auto simp: ctx_Encode_def ctx_Decode_def read_map_def new_map_def)
qed

text \<open>
  The propagated values survive the wire. What was encoded from a context with values decodes,
  in whatever heap the receiver has, to a context with the same values; a context without values is sent as no
  bytes, which the receiver decodes to no context at all.
\<close>

lemma propagate_roundtrip:
  assumes "ToMap c h = Ok (r, h1)" "mj_lossless mj (read_map h1 r)"
  shows "\<exists>bs. ctx_Encode mj c h = Ok bs \<and>
    (if read_map h1 r = [] then ctx_Decode mj bs g = Ok (None, g)
     else \<exists>c' g'. ctx_Decode mj bs g = Ok (Some c', g') \<and>
       (\<forall>k. GetFromPropagateCtx (Some c') k g' = GetFromPropagateCtx c k h))"
proof (cases "read_map h1 r = []")
  case True
  then show ?thesis using assms(1) by (simp add: ctx_Encode_def ctx_Decode_def)
next
  case False
  obtain bs m' where b: "mj_marshal mj (read_map h1 r) = Inr bs" "bs \<noteq> []" "mj_unmarshal mj bs = Inr (Some m')"
    "gm_get m' = gm_get (read_map h1 r)"
    using assms(2) by (auto simp: mj_lossless_def split: sum.splits option.splits)
  have "ctx_Encode mj c h = Ok bs"
    using False assms(1) b by (simp add: ctx_Encode_def)
  moreover have "ctx_Decode mj bs g = Ok (Some (FromMap (Some (hp_next g))), snd (new_map m' g))"
    using b by (simp add: ctx_Decode_def new_map_def)
  moreover have "GetFromPropagateCtx (Some (FromMap (Some (hp_next g)))) k (snd (new_map m' g)) = GetFromPropagateCtx c k h" for k
    using assms(1) b by (subst GetFromPropagateCtx_map) (auto simp: FromMap_def read_map_def GetFromPropagateCtx_def)
  ultimately show ?thesis using False by auto
qed

end
