(* ===== verification/Tracing.thy ===== *)
theory Tracing
  imports Context Complex_Main
begin

text \<open>
  \<open>tracing/span.go\<close>: carrying opentracing spans through contexts and RPC calls. The tracer is a
  library: the parameter \<open>tracer\<close> says what extracting, injecting and starting give. Spans and span
  contexts are numbers; a finished span is reported with the error logged on it, if any.
\<close>

record tracer =
  tr_Extract :: "(string \<times> string) list \<Rightarrow> goerror + nat"
  tr_Inject :: "nat \<Rightarrow> goerror + (string \<times> string) list"
  tr_Context :: "nat \<Rightarrow> nat"
  tr_StartSpan :: "string \<Rightarrow> nat option \<Rightarrow> (string \<times> gval) list \<Rightarrow> nat"

definition nil_context :: string where
  "nil_context = ''invalid memory address or nil pointer dereference''"

definition SpanFromContext :: "ctx option \<Rightarrow> (goerror, nat option) outcome" where
  "SpanFromContext c =
     (case c of
        None \<Rightarrow> Panic nil_context
      | Some c \<Rightarrow> Ok (case ctx_Value c SpanKey of Some (CSpan s) \<Rightarrow> Some s | _ \<Rightarrow> None))"

definition castValueToCarrier :: "gval \<Rightarrow> (goerror, (string \<times> string) list) outcome" where
  "castValueToCarrier val =
     (case val of
        GCarrier v \<Rightarrow> Ok v
      | GMap m \<Rightarrow>
          Ok (fold (\<lambda>(k, v) carrier. case v of GString s \<Rightarrow> gm_put k s carrier | _ \<Rightarrow> carrier) m gm_empty)
      | _ \<Rightarrow> Err ErrInvalidSpanCarrier)"

definition ExtractSpan :: "tracer \<Rightarrow> ctx option \<Rightarrow> heap \<Rightarrow> (goerror, nat option) outcome" where
  "ExtractSpan tr c h =
     bind_outcome (SpanFromContext c) (\<lambda>span.
     case span of
       Some s \<Rightarrow> Ok (Some (tr_Context tr s))
     | None \<Rightarrow>
         bind_outcome (GetFromPropagateCtx c SpanPropagateCtxKey h) (\<lambda>s.
         if s \<noteq> GNil then
           bind_outcome (castValueToCarrier s) (\<lambda>carrier.
           case tr_Extract tr carrier of Inl e \<Rightarrow> Err e | Inr sc \<Rightarrow> Ok (Some sc))
         else Ok None))"

text \<open>The result on an error is a nil context together with the error.\<close>

definition InjectSpan :: "tracer \<Rightarrow> ctx option \<Rightarrow> heap \<Rightarrow> (goerror, ctx option \<times> goerror option \<times> heap) outcome" where
  "InjectSpan tr c h =
     bind_outcome (SpanFromContext c) (\<lambda>span.
     case span of
       None \<Rightarrow> Ok (c, None, h)
     | Some s \<Rightarrow>
         (case tr_Inject tr (tr_Context tr s) of
            Inl e \<Rightarrow> Ok (None, Some e, h)
          | Inr spanData \<Rightarrow>
              bind_outcome (AddToPropagateCtx c SpanPropagateCtxKey (GCarrier spanData) h) (\<lambda>(c, h).
              Ok (Some c, None, h))))"

definition tr_StartSpanCtx :: "tracer \<Rightarrow> ctx option \<Rightarrow> string \<Rightarrow> (string \<times> gval) list \<Rightarrow> nat option \<Rightarrow>
    (goerror, ctx) outcome" where
  "tr_StartSpanCtx tr parentCtx opName tags ref =
     ctx_WithValue parentCtx SpanKey (CSpan (tr_StartSpan tr opName ref tags))"

definition FinishSpan :: "ctx option \<Rightarrow> goerror option \<Rightarrow> (goerror, (nat \<times> string option) list) outcome" where
  "FinishSpan c err =
     (case c of
        None \<Rightarrow> Ok []
      | Some _ \<Rightarrow>
          bind_outcome (SpanFromContext c) (\<lambda>span.
          Ok (case span of None \<Rightarrow> [] | Some s \<Rightarrow> [(s, map_option err_Error err)])))"

section \<open>Jaeger\<close>

text \<open>
  \<open>tracing/jaeger/config.go\<close>: the options become a configuration with a probabilistic sampler, and the client library installs the
  global tracer. The name of the sampler type and the library's function are arguments.
\<close>

record jaeger_Options =
  jo_Disabled :: bool
  jo_Probability :: real
  jo_ServiceName :: string

record jaeger_Configuration =
  jc_Disabled :: bool
  jc_SamplerType :: string
  jc_SamplerParam :: real

definition jaeger_Configure :: "string \<Rightarrow> (jaeger_Configuration \<Rightarrow> string \<Rightarrow> goerror + 'closer) \<Rightarrow> jaeger_Options \<Rightarrow> goerror + 'closer" where
  "jaeger_Configure SamplerTypeProbabilistic InitGlobalTracer options =
     InitGlobalTracer \<lparr>jc_Disabled = jo_Disabled options, jc_SamplerType = SamplerTypeProbabilistic,
       jc_SamplerParam = jo_Probability options\<rparr> (jo_ServiceName options)"

section \<open>Lemmas\<close>

lemma SpanFromContext_started:
  "tr_StartSpanCtx tr c opName tags ref = Ok c' \<Longrightarrow>
     SpanFromContext (Some c') = Ok (Some (tr_StartSpan tr opName ref tags))"
  by (auto simp: tr_StartSpanCtx_def ctx_WithValue_def SpanFromContext_def split: option.splits)

lemma StartSpan_propagates:
  "tr_StartSpanCtx tr (Some c) opName tags ref = Ok c' \<Longrightarrow>
     ctx_Value c' PropagateCtxKey = ctx_Value c PropagateCtxKey"
  by (auto simp: tr_StartSpanCtx_def ctx_WithValue_def)

lemma carrier_fold:
  assumes "distinct (map fst m)"
  shows "gm_get (fold (\<lambda>(k, v) carrier. case v of GString s \<Rightarrow> gm_put k s carrier | _ \<Rightarrow> carrier) m old) k =
    (case map_of m k of Some (GString s) \<Rightarrow> Some s | _ \<Rightarrow> gm_get old k)"
  using assms
proof (induction m arbitrary: old)
  case (Cons kv m)
  obtain k' v where kv: "kv = (k', v)" by (cases kv)
  have "map_of m k' = None" using Cons.prems kv by (simp add: map_of_eq_None_iff)
  then show ?case using Cons kv by (cases v) (auto split: option.splits gval.splits)
qed (simp split: option.splits)

text \<open>A carrier that was sent as a JSON object is read back: \<open>castValueToCarrier\<close> gives its entries.\<close>

lemma castValueToCarrier_json:
  assumes "distinct (map fst m)"
  shows "\<exists>c. castValueToCarrier (GMap (map (\<lambda>(k, s). (k, GString s)) m)) = Ok c \<and> gm_get c = gm_get m"
proof -
  have "distinct (map fst (map (\<lambda>(k, s). (k, GString s)) m))"
    using assms by (simp add: comp_def case_prod_beta)
  moreover have "map_of (map (\<lambda>(k, s). (k, GString s)) m) k = map_option GString (map_of m k)" for k
    by (simp add: map_of_map)
  ultimately show ?thesis
    using carrier_fold [of "map (\<lambda>(k, s). (k, GString s)) m" gm_empty]
    by (auto simp: castValueToCarrier_def fun_eq_iff gm_get_def [of m] split: option.splits)
qed

end
