(* ===== verification/Route.thy ===== *)
theory Route
  imports Prelude
begin

text \<open>
  \<open>route/route.go\<close>: routes \<open>server.service.method\<close> and \<open>service.method\<close>, their
  printing and their parsing.
\<close>

section \<open>Data and operations\<close>

record route =
  SvType :: string
  Service :: string
  Method :: string

datatype route_err = ErrRouteFieldCantEmpty | ErrInvalidRoute

definition NewRoute :: "string \<Rightarrow> string \<Rightarrow> string \<Rightarrow> route" where
  "NewRoute server service mthd = \<lparr>SvType = server, Service = service, Method = mthd\<rparr>"

definition route_Short :: "route \<Rightarrow> string" where
  "route_Short r = Service r @ ''.'' @ Method r"

definition route_String :: "route \<Rightarrow> string" where
  "route_String r =
     (if SvType r \<noteq> '''' then SvType r @ ''.'' @ Service r @ ''.'' @ Method r else route_Short r)"

definition route_Decode :: "string \<Rightarrow> (route_err, route) outcome" where
  "route_Decode rt =
     (let r = split_on CHR ''.'' rt in
      if \<exists>s \<in> set r. TrimSpace s = '''' then Err ErrRouteFieldCantEmpty
      else if length r = 3 then Ok (NewRoute (r ! 0) (r ! 1) (r ! 2))
      else if length r = 2 then Ok (NewRoute '''' (r ! 0) (r ! 1))
      else Err ErrInvalidRoute)"

section \<open>Well-formed routes\<close>

definition field_ok :: "string \<Rightarrow> bool" where
  "field_ok s \<longleftrightarrow> TrimSpace s \<noteq> '''' \<and> CHR ''.'' \<notin> set s"

definition route_ok :: "route \<Rightarrow> bool" where
  "route_ok r \<longleftrightarrow> (SvType r = '''' \<or> field_ok (SvType r)) \<and> field_ok (Service r) \<and> field_ok (Method r)"

section \<open>Lemmas and properties\<close>

lemma trim_prefixes_Nil [simp]: "trim_prefixes es [] = []"
proof -
  have "find (\<lambda>e. e \<noteq> [] \<and> prefix e []) es = None"
    by (auto simp: find_None_iff)
  then show ?thesis by (simp add: trim_prefixes.simps)
qed

lemma TrimSpace_Nil [simp]: "TrimSpace [] = []"
  by (simp add: TrimSpace_def Let_def)

lemma field_ok_nonempty: "field_ok s \<Longrightarrow> s \<noteq> []"
  by (auto simp: field_ok_def)

lemma length_2_conv: "length xs = 2 \<longleftrightarrow> (\<exists>a b. xs = [a, b])"
  by (auto simp: numeral_2_eq_2 length_Suc_conv)

lemma length_3_conv: "length xs = 3 \<longleftrightarrow> (\<exists>a b c. xs = [a, b, c])"
  by (auto simp: numeral_3_eq_3 length_Suc_conv)

lemma route_Decode_print:
  assumes "route_Decode s = Ok r"
  shows "route_ok r \<and> route_String r = s"
proof -
  let ?ps = "split_on CHR ''.'' s"
  have f: "\<forall>p \<in> set ?ps. field_ok p"
    and l: "length ?ps = 3 \<and> r = NewRoute (?ps ! 0) (?ps ! 1) (?ps ! 2) \<or>
            length ?ps = 2 \<and> r = NewRoute '''' (?ps ! 0) (?ps ! 1)"
    using assms by (auto simp: route_Decode_def Let_def field_ok_def split: if_splits dest: split_on_pieces)
  have j: "join_with CHR ''.'' ?ps = s" by (rule join_split)
  from l consider a b c where "?ps = [a, b, c]" "r = NewRoute a b c"
    | a b where "?ps = [a, b]" "r = NewRoute '''' a b"
    by (auto simp: length_2_conv length_3_conv)
  then show ?thesis
  proof cases
    case 1
    then show ?thesis
      using f j by (auto simp: route_ok_def route_String_def NewRoute_def field_ok_nonempty)
  next
    case 2
    then show ?thesis
      using f j by (auto simp: route_ok_def route_String_def route_Short_def NewRoute_def)
  qed
qed

lemma route_String_split:
  assumes "route_ok r"
  shows "split_on CHR ''.'' (route_String r) =
    (if SvType r = '''' then [Service r, Method r] else [SvType r, Service r, Method r])"
  using assms
  by (auto simp: route_ok_def field_ok_def route_String_def route_Short_def split_on_append split_on_no_sep)

lemma route_Decode_String:
  assumes "route_ok r"
  shows "route_Decode (route_String r) = Ok r"
proof -
  have "\<forall>p \<in> set (split_on CHR ''.'' (route_String r)). TrimSpace p \<noteq> ''''"
    using assms by (auto simp: route_String_split) (auto simp: route_ok_def field_ok_def)
  with assms show ?thesis by (auto simp: route_Decode_def route_String_split NewRoute_def)
qed

interpretation routes: codec route_String route_Decode route_ok "\<lambda>r. r"
  by unfold_locales (rule route_Decode_String)

text \<open>
  C10: printing and parsing of routes are inverse to each other. Parsing accepts exactly the
  printed forms of the routes whose fields are not blank and contain no dot, and returns the
  route that was printed.
\<close>

theorem route_roundtrip: "route_Decode s = Ok r \<longleftrightarrow> route_ok r \<and> s = route_String r"
proof
  assume "route_Decode s = Ok r"
  then show "route_ok r \<and> s = route_String r"
    using route_Decode_print by auto
next
  assume "route_ok r \<and> s = route_String r"
  then show "route_Decode s = Ok r" using routes.dec_enc by simp
qed

text \<open>
  The two errors of the parser are told apart by the fields: a blank field is reported
  first, whatever the number of fields, and only a route of non-blank fields that are not two
  or three is called invalid. Parsing never panics.
\<close>

lemma route_Decode_errors:
  "(route_Decode s = Err ErrRouteFieldCantEmpty \<longleftrightarrow>
      (\<exists>p \<in> set (split_on CHR ''.'' s). TrimSpace p = '''')) \<and>
   (route_Decode s = Err ErrInvalidRoute \<longleftrightarrow>
      (\<forall>p \<in> set (split_on CHR ''.'' s). TrimSpace p \<noteq> '''') \<and>
      length (split_on CHR ''.'' s) \<notin> {2, 3}) \<and>
   \<not> is_panic (route_Decode s)"
  by (auto simp: route_Decode_def Let_def)

end
