(* ===== verification/Compression.thy ===== *)
theory Compression
  imports Prelude
begin

text \<open>
  \<open>util/compression/compression.go\<close>. The zlib streams of the standard library are the
  parameter \<open>zlib\<close>: what writing a whole buffer produces, what opening a reader on a buffer
  yields and what reading it to its end returns. \<open>zlib_lossless\<close> is the documented contract
  of the format: reading back what was written returns the data.
\<close>

record zlib =
  z_write :: "bytes \<Rightarrow> string + bytes"
  z_newreader :: "bytes \<Rightarrow> string + bytes"
  z_readall :: "bytes \<Rightarrow> string + bytes"

definition DeflateData :: "zlib \<Rightarrow> bytes \<Rightarrow> (string, bytes) outcome" where
  "DeflateData z data = (case z_write z data of Inl e \<Rightarrow> Err e | Inr bb \<Rightarrow> Ok bb)"

definition InflateData :: "zlib \<Rightarrow> bytes \<Rightarrow> (string, bytes) outcome" where
  "InflateData z data =
     (case z_newreader z data of
        Inl e \<Rightarrow> Err e
      | Inr zr \<Rightarrow> (case z_readall z zr of Inl e \<Rightarrow> Err e | Inr out \<Rightarrow> Ok out))"

definition IsCompressed :: "bytes \<Rightarrow> bool" where
  "IsCompressed data \<longleftrightarrow>
     length data > 2 \<and>
     ((data ! 0 = 0x78 \<and>
       (data ! 1 = 0x9C \<or> data ! 1 = 0x01 \<or> data ! 1 = 0xDA \<or> data ! 1 = 0x5E)) \<or>
      (data ! 0 = 0x1F \<and> data ! 1 = 0x8B))"

definition zlib_lossless :: "zlib \<Rightarrow> bool" where
  "zlib_lossless z \<longleftrightarrow>
     (\<forall>data. \<exists>bb zr. z_write z data = Inr bb \<and> z_newreader z bb = Inr zr \<and> z_readall z zr = Inr data)"

text \<open>A stream that stores its data behind a two-byte header is one concrete such format.\<close>

definition zlib_stored :: zlib where
  "zlib_stored =
     \<lparr>z_write = (\<lambda>data. Inr (0x78 # 0x01 # data)),
      z_newreader = (\<lambda>data. if length data < 2 then Inl ''unexpected EOF'' else Inr (drop 2 data)),
      z_readall = Inr\<rparr>"

lemma zlib_lossless_stored: "zlib_lossless zlib_stored"
  by (simp add: zlib_lossless_def zlib_stored_def)

lemma Inflate_Deflate:
  assumes "zlib_lossless z"
  shows "\<exists>d. DeflateData z data = Ok d \<and> InflateData z d = Ok data"
proof -
  from assms obtain bb zr where
    "z_write z data = Inr bb" "z_newreader z bb = Inr zr" "z_readall z zr = Inr data"
    unfolding zlib_lossless_def by blast
  then show ?thesis
    by (simp add: DeflateData_def InflateData_def)
qed

end
