(* ===== verification/Message.thy ===== *)
theory Message
  imports Compression
begin

text \<open>
  \<open>conn/message\<close>: the message type, the route dictionary (two package-level maps kept
  inverse to each other) and the binary encoding of messages. The mutex that guards the
  dictionary makes every operation on it atomic, so the dictionary is passed explicitly.
  \<open>uint\<close> message ids are 64-bit words: shifts past the width give 0, as in Go.
\<close>

section \<open>Data\<close>

definition Request :: byte where "Request = 0x00"
definition Notify :: byte where "Notify = 0x01"
definition Response :: byte where "Response = 0x02"

definition errorMask :: byte where "errorMask = 0x20"
definition gzipMask :: byte where "gzipMask = 0x10"
definition msgRouteCompressMask :: byte where "msgRouteCompressMask = 0x01"
definition msgTypeMask :: byte where "msgTypeMask = 0x07"
definition msgHeadLength :: nat where "msgHeadLength = 0x02"

record message =
  msg_Type :: byte
  msg_ID :: "64 word"
  msg_Route :: string
  msg_Data :: bytes
  msg_compressed :: bool
  msg_Err :: bool

record dictionary =
  dict_routes :: "(string, 16 word) gomap"
  dict_codes :: "(16 word, string) gomap"

datatype message_err =
    ErrWrongMessageType
  | ErrInvalidMessage
  | ErrRouteInfoNotFound
  | ErrDuplicatedRoute string "16 word"
  | ErrZlib string

section \<open>Operations\<close>

definition message_New :: "bool list \<Rightarrow> message" where
  "message_New err =
     (let m = \<lparr>msg_Type = 0, msg_ID = 0, msg_Route = '''', msg_Data = [], msg_compressed = False,
               msg_Err = False\<rparr>
      in case err of [] \<Rightarrow> m | e # _ \<Rightarrow> m\<lparr>msg_Err := e\<rparr>)"

definition type_String :: "byte \<Rightarrow> string" where
  "type_String t =
     (if t = Request then ''Request'' else if t = Notify then ''Notify''
      else if t = Response then ''Response'' else '''')"

definition bool_String :: "bool \<Rightarrow> string" where
  "bool_String b = (if b then ''true'' else ''false'')"

text \<open>The verb \<open>%v\<close> prints a byte slice as its decimal elements in brackets.\<close>

definition bytes_String :: "bytes \<Rightarrow> string" where
  "bytes_String bs = ''['' @ join_with CHR '' '' (map (\<lambda>b. digits (unat b)) bs) @ '']''"

definition message_String :: "message \<Rightarrow> string" where
  "message_String m =
     ''Type: '' @ type_String (msg_Type m) @ '', ID: '' @ digits (unat (msg_ID m)) @
     '', Route: '' @ msg_Route m @ '', Compressed: '' @ bool_String (msg_compressed m) @
     '', Error: '' @ bool_String (msg_Err m) @ '', Data: '' @ bytes_String (msg_Data m) @
     '', BodyLength: '' @ digits (length (msg_Data m))"

definition routable :: "byte \<Rightarrow> bool" where
  "routable t \<longleftrightarrow> t = Request \<or> t = Notify"

definition invalidType :: "byte \<Rightarrow> bool" where
  "invalidType t \<longleftrightarrow> t < Request \<or> t > Response"

text \<open>
  \<open>SetDictionary\<close>: the loop over the given map stops at the first duplicate and keeps what it
  has added so far. A nil map leaves the dictionary alone.
\<close>

fun set_entries :: "(string \<times> 16 word) list \<Rightarrow> dictionary \<Rightarrow> message_err option \<times> dictionary" where
  "set_entries [] d = (None, d)"
| "set_entries ((rt, code) # es) d =
     (let r = TrimSpace rt in
      if gm_get (dict_routes d) r \<noteq> None then (Some (ErrDuplicatedRoute r code), d)
      else if gm_get (dict_codes d) code \<noteq> None then (Some (ErrDuplicatedRoute r code), d)
      else set_entries es
             (d\<lparr>dict_routes := gm_put r code (dict_routes d), dict_codes := gm_put code r (dict_codes d)\<rparr>))"

definition message_SetDictionary ::
  "(string, 16 word) gomap option \<Rightarrow> dictionary \<Rightarrow> message_err option \<times> dictionary" where
  "message_SetDictionary dict d = (case dict of None \<Rightarrow> (None, d) | Some es \<Rightarrow> set_entries es d)"

definition GetDictionary :: "dictionary \<Rightarrow> (string, 16 word) gomap" where
  "GetDictionary d = fold (\<lambda>(k, v) m. gm_put k v m) (dict_routes d) gm_empty"

text \<open>The variable-length id: seven bits per byte, least significant first.\<close>

function encode_id :: "64 word \<Rightarrow> bytes" where
  "encode_id n =
     (let b = ucast (n mod 128); n' = drop_bit 7 n
      in if n' \<noteq> 0 then (b + 128) # encode_id n' else [b])"
  by pat_completeness auto
termination
proof (relation "measure unat", goal_cases)
  case 1
  show ?case by simp
next
  case (2 n b n')
  then have "n \<noteq> 0" by auto
  then have "unat n \<noteq> 0" by (simp add: unat_eq_zero)
  moreover have "unat (drop_bit 7 n) = unat n div 128"
    by (simp only: unat_drop_bit_eq) (simp add: drop_bit_eq_div)
  ultimately show ?case using 2 by simp
qed

declare encode_id.simps [simp del]

text \<open>
  The id loop of \<open>Decode\<close>: \<open>i\<close> runs over the data from \<open>offset\<close>; at a byte below 128 the
  loop stops and sets the offset behind it, at the end of the data the offset is left as it was.
\<close>

function decode_id :: "bytes \<Rightarrow> nat \<Rightarrow> nat \<Rightarrow> 64 word \<Rightarrow> 64 word \<times> nat" where
  "decode_id data offset i acc =
     (if i < length data then
        let b = data ! i;
            acc' = acc + push_bit (7 * (i - offset)) (ucast (b AND 0x7F))
        in if b < 128 then (acc', i + 1) else decode_id data offset (i + 1) acc'
      else (acc, offset))"
  by pat_completeness auto
termination
  by (relation "measure (\<lambda>(data, offset, i, acc). length data - i)") auto

declare decode_id.simps [simp del]

definition message_Encode ::
  "zlib \<Rightarrow> bool \<Rightarrow> dictionary \<Rightarrow> message \<Rightarrow> (message_err, bytes \<times> message) outcome" where
  "message_Encode z dataCompression d m =
     (if invalidType (msg_Type m) then Err ErrWrongMessageType
      else
        let code = gm_get (dict_routes d) (msg_Route m);
            flag = push_bit 1 (msg_Type m);
            flag = (if code \<noteq> None then flag OR msgRouteCompressMask else flag);
            flag = (if msg_Err m then flag OR errorMask else flag);
            buf = [flag];
            buf = (if msg_Type m = Request \<or> msg_Type m = Response
                   then buf @ encode_id (msg_ID m) else buf);
            buf = (if routable (msg_Type m) then
                     (case code of
                        Some c \<Rightarrow> buf @ [ucast (drop_bit 8 c AND 0xFF), ucast (c AND 0xFF)]
                      | None \<Rightarrow> buf @ of_nat (length (msg_Route m)) # bytes_of_string (msg_Route m))
                   else buf)
        in if dataCompression then
             (case DeflateData z (msg_Data m) of
                Ok dd \<Rightarrow>
                  if length dd < length (msg_Data m)
                  then Ok (buf[0 := buf ! 0 OR gzipMask] @ dd, m\<lparr>msg_Data := dd\<rparr>)
                  else Ok (buf @ msg_Data m, m)
              | Err e \<Rightarrow> Err (ErrZlib e)
              | Panic p \<Rightarrow> Panic p)
           else Ok (buf @ msg_Data m, m))"

text \<open>The route part of \<open>Decode\<close>: the route, whether it was compressed, and the new offset.\<close>

definition decode_route ::
  "dictionary \<Rightarrow> byte \<Rightarrow> bytes \<Rightarrow> nat \<Rightarrow> (message_err, string \<times> bool \<times> nat) outcome" where
  "decode_route d flag data offset =
     (let sz = length data in
      if flag AND msgRouteCompressMask = 1 then
        if offset > sz \<or> offset + 2 > sz then Err ErrInvalidMessage
        else
          let code = push_bit 8 (ucast (data ! offset)) OR ucast (data ! (offset + 1))
          in (case gm_get (dict_codes d) code of
                None \<Rightarrow> Err ErrRouteInfoNotFound
              | Some rt \<Rightarrow> Ok (rt, True, offset + 2))
      else
        bind_outcome (index_outcome data offset) (\<lambda>rl.
          let offset = offset + 1 in
          if offset > sz \<or> offset + unat rl > sz then Err ErrInvalidMessage
          else Ok (string_of_bytes (take (unat rl) (drop offset data)), False, offset + unat rl)))"

definition message_Decode :: "zlib \<Rightarrow> dictionary \<Rightarrow> bytes \<Rightarrow> (message_err, message) outcome" where
  "message_Decode z d data =
     (if length data < msgHeadLength then Err ErrInvalidMessage
      else
        let m = message_New [];
            flag = data ! 0;
            t = drop_bit 1 flag AND msgTypeMask
        in
        if invalidType t then Err ErrWrongMessageType
        else
          let (mid, offset) = (if t = Request \<or> t = Response then decode_id data 1 1 0 else (0, 1));
              m = m\<lparr>msg_Type := t, msg_ID := mid, msg_Err := flag AND errorMask = errorMask\<rparr>
          in bind_outcome
               (if routable t then decode_route d flag data offset else Ok ('''', False, offset))
               (\<lambda>(rt, compressed, offset).
                  let m = m\<lparr>msg_Route := rt, msg_compressed := compressed\<rparr> in
                  if offset > length data then Err ErrInvalidMessage
                  else if flag AND gzipMask = gzipMask then
                    (case InflateData z (drop offset data) of
                       Ok out \<Rightarrow> Ok (m\<lparr>msg_Data := out\<rparr>)
                     | Err e \<Rightarrow> Err (ErrZlib e)
                     | Panic p \<Rightarrow> Panic p)
                  else Ok (m\<lparr>msg_Data := drop offset data\<rparr>)))"

section \<open>The dictionary\<close>

text \<open>The two maps are inverse to each other.\<close>

definition dict_wf :: "dictionary \<Rightarrow> bool" where
  "dict_wf d \<longleftrightarrow> gm_wf (dict_routes d) \<and> gm_wf (dict_codes d) \<and>
     (\<forall>r c. gm_get (dict_routes d) r = Some c \<longleftrightarrow> gm_get (dict_codes d) c = Some r)"

definition dict_empty :: dictionary where
  "dict_empty = \<lparr>dict_routes = gm_empty, dict_codes = gm_empty\<rparr>"

lemma dict_wf_empty: "dict_wf dict_empty"
  by (simp add: dict_wf_def dict_empty_def)

lemma dict_wf_put:
  assumes "dict_wf d" "gm_get (dict_routes d) r = None" "gm_get (dict_codes d) c = None"
  shows "dict_wf (d\<lparr>dict_routes := gm_put r c (dict_routes d), dict_codes := gm_put c r (dict_codes d)\<rparr>)"
proof -
  from assms have "gm_get (dict_codes d) c' \<noteq> Some r" "gm_get (dict_routes d) r' \<noteq> Some c" for c' r'
    unfolding dict_wf_def by (metis option.simps(3))+
  with assms show ?thesis by (auto simp: dict_wf_def)
qed

lemma set_entries_wf: "dict_wf d \<Longrightarrow> dict_wf (snd (set_entries es d))"
  by (induction es d rule: set_entries.induct) (auto simp: Let_def dict_wf_put)

lemma set_entries_mono:
  "gm_get (dict_routes d) r = Some c \<Longrightarrow> gm_get (dict_routes (snd (set_entries es d))) r = Some c"
proof (induction es d rule: set_entries.induct)
  case (2 rt code es d)
  then show ?case by (cases "r = TrimSpace rt") (simp_all add: Let_def)
qed simp

lemma set_entries_added:
  "fst (set_entries es d) = None \<Longrightarrow> (rt, c) \<in> set es \<Longrightarrow>
   gm_get (dict_routes (snd (set_entries es d))) (TrimSpace rt) = Some c"
  by (induction es d rule: set_entries.induct)
     (auto simp: Let_def set_entries_mono split: if_splits)

section \<open>Bits of the header\<close>

lemmas message_consts = Request_def Notify_def Response_def errorMask_def gzipMask_def
  msgRouteCompressMask_def msgTypeMask_def msgHeadLength_def

lemma valid_types: "\<not> invalidType t \<longleftrightarrow> t = Request \<or> t = Notify \<or> t = Response"
proof -
  have "t \<le> 2 \<longleftrightarrow> t = 0 \<or> t = 1 \<or> t = (2 :: byte)"
  proof -
    have "unat t \<le> 2 \<longleftrightarrow> unat t = 0 \<or> unat t = 1 \<or> unat t = 2" by auto
    then show ?thesis
      by (simp add: word_le_nat_alt word_unat_eq_iff)
  qed
  then show ?thesis
    by (auto simp: invalidType_def message_consts not_less)
qed

lemma id_types:
  assumes "\<not> invalidType t"
  shows "t = Request \<or> t = Response \<longleftrightarrow> t \<noteq> Notify"
  using assms unfolding valid_types by (auto simp: message_consts)

definition header_flag :: "byte \<Rightarrow> bool \<Rightarrow> bool \<Rightarrow> bool \<Rightarrow> byte" where
  "header_flag t c e z =
     (let f = push_bit 1 t;
          f = (if c then f OR msgRouteCompressMask else f);
          f = (if e then f OR errorMask else f)
      in if z then f OR gzipMask else f)"

lemma header_flag_reads:
  assumes "\<not> invalidType t"
  shows "drop_bit 1 (header_flag t c e z) AND msgTypeMask = t \<and>
    (header_flag t c e z AND errorMask = errorMask \<longleftrightarrow> e) \<and>
    (header_flag t c e z AND msgRouteCompressMask = 1 \<longleftrightarrow> c) \<and>
    (header_flag t c e z AND gzipMask = gzipMask \<longleftrightarrow> z)"
  using assms unfolding valid_types
  by (elim disjE; cases c; cases e; cases z; simp add: header_flag_def Let_def message_consts)

section \<open>The variable-length id\<close>

lemma byte_low7:
  assumes "unat (b :: byte) < 128"
  shows "(b + 128) AND 127 = b" "\<not> b + 128 < 128" "b AND 127 = b" "b < 128"
proof -
  have m: "x AND 127 = x mod 128" for x :: byte
    using take_bit_eq_mask [of 7 x] by (simp add: mask_eq_exp_minus_1 take_bit_eq_mod)
  have s: "unat (b + 128) = unat b + 128"
    using assms by (subst unat_plus_simple [THEN iffD1]) (auto simp: word_le_nat_alt unat_word_ariths)
  show "(b + 128) AND 127 = b" "b AND 127 = b"
    using assms
    by (simp_all add: m word_unat_eq_iff unat_mod s)
  show "\<not> b + 128 < 128" "b < 128"
    using assms by (simp_all add: word_less_nat_alt s)
qed

lemma encode_id_step:
  fixes n :: "64 word"
  defines "b \<equiv> ucast (n mod 128) :: byte"
  shows "unat b < 128" "(ucast b :: 64 word) = take_bit 7 n"
proof -
  have t: "n mod 128 = take_bit 7 n"
    by (simp add: take_bit_eq_mod)
  have u: "unat (n mod 128) < 128"
    by (simp add: unat_mod)
  show "unat b < 128"
    using u by (simp add: b_def unsigned_ucast_eq take_bit_nat_eq_self)
  show "(ucast b :: 64 word) = take_bit 7 n"
    using u by (simp add: b_def t [symmetric] word_unat_eq_iff unsigned_ucast_eq unsigned_take_bit_eq
        take_bit_nat_eq_self)
qed

lemma length_encode_id: "0 < length (encode_id n)"
  by (subst encode_id.simps) (simp add: Let_def)

lemma decode_encode_id:
  assumes "length pre = i" "offset \<le> i"
  shows "decode_id (pre @ encode_id n @ rest) offset i acc =
    (acc + push_bit (7 * (i - offset)) n, i + length (encode_id n))"
  using assms
proof (induction n arbitrary: pre i acc rule: encode_id.induct)
  case (1 n)
  let ?b = "ucast (n mod 128) :: byte"
  note b = byte_low7 [OF encode_id_step(1) [of n]] encode_id_step(2) [of n]
  show ?case
  proof (cases "drop_bit 7 n = 0")
    case True
    have "take_bit 7 n = n"
      using bits_ident [of 7 n] True by simp
    with True 1(2) show ?thesis
      by (simp add: encode_id.simps [of n] decode_id.simps [of _ _ i] Let_def nth_append b)
  next
    case False
    have "decode_id ((pre @ [?b + 128]) @ encode_id (drop_bit 7 n) @ rest) offset (Suc i)
        (acc + push_bit (7 * (i - offset)) (take_bit 7 n)) =
      (acc + push_bit (7 * (i - offset)) (take_bit 7 n) + push_bit (7 * (Suc i - offset)) (drop_bit 7 n),
       Suc i + length (encode_id (drop_bit 7 n)))"
      using False 1(2,3) by (intro 1(1)) simp_all
    moreover have "push_bit (7 * (i - offset)) (take_bit 7 n) + push_bit (7 * (Suc i - offset)) (drop_bit 7 n)
        = push_bit (7 * (i - offset)) n"
    proof -
      have "7 * (Suc i - offset) = 7 * (i - offset) + 7" using 1(3) by simp
      then have "push_bit (7 * (Suc i - offset)) (drop_bit 7 n)
          = push_bit (7 * (i - offset)) (push_bit 7 (drop_bit 7 n))"
        by (simp only: push_bit_push_bit)
      moreover have "take_bit 7 n + push_bit 7 (drop_bit 7 n) = n"
        using bits_ident [of 7 n] by (simp only: add.commute)
      ultimately show ?thesis
        by (simp only: push_bit_add [symmetric])
    qed
    ultimately show ?thesis
      using False 1(2)
      by (simp add: encode_id.simps [of n] decode_id.simps [of _ _ i] Let_def nth_append b add.assoc)
  qed
qed

section \<open>Encoding and decoding a message\<close>

definition id_bytes :: "message \<Rightarrow> bytes" where
  "id_bytes m = (if msg_Type m = Notify then [] else encode_id (msg_ID m))"

definition route_bytes :: "dictionary \<Rightarrow> message \<Rightarrow> bytes" where
  "route_bytes d m =
     (if routable (msg_Type m) then
        (case gm_get (dict_routes d) (msg_Route m) of
           Some c \<Rightarrow> [ucast (drop_bit 8 c AND 0xFF), ucast (c AND 0xFF)]
         | None \<Rightarrow> of_nat (length (msg_Route m)) # bytes_of_string (msg_Route m))
      else [])"

text \<open>What a receiver sees of a message: an unroutable type carries no route, a notification no id.\<close>

definition received :: "dictionary \<Rightarrow> message \<Rightarrow> message" where
  "received d m =
     \<lparr>msg_Type = msg_Type m,
      msg_ID = (if msg_Type m = Notify then 0 else msg_ID m),
      msg_Route = (if routable (msg_Type m) then msg_Route m else ''''),
      msg_Data = msg_Data m,
      msg_compressed = (routable (msg_Type m) \<and> gm_get (dict_routes d) (msg_Route m) \<noteq> None),
      msg_Err = msg_Err m\<rparr>"

lemma message_Encode_form:
  assumes v: "\<not> invalidType (msg_Type m)" and e: "message_Encode z dc d m = Ok (bs, m')"
  shows "\<exists>zz payload.
    bs = header_flag (msg_Type m) (gm_get (dict_routes d) (msg_Route m) \<noteq> None) (msg_Err m) zz #
         id_bytes m @ route_bytes d m @ payload \<and>
    (zz \<longrightarrow> DeflateData z (msg_Data m) = Ok payload) \<and> (\<not> zz \<longrightarrow> payload = msg_Data m)"
proof -
  let ?flag = "\<lambda>zz. header_flag (msg_Type m) (gm_get (dict_routes d) (msg_Route m) \<noteq> None) (msg_Err m) zz"
  let ?buf = "?flag False # id_bytes m @ route_bytes d m"
  have z: "?flag True = ?flag False OR gzipMask"
    by (simp add: header_flag_def Let_def)
  have "message_Encode z dc d m =
    (if dc then (case DeflateData z (msg_Data m) of
        Ok dd \<Rightarrow> if length dd < length (msg_Data m)
          then Ok (?buf[0 := ?buf ! 0 OR gzipMask] @ dd, m\<lparr>msg_Data := dd\<rparr>)
          else Ok (?buf @ msg_Data m, m)
      | Err e \<Rightarrow> Err (ErrZlib e) | Panic p \<Rightarrow> Panic p)
     else Ok (?buf @ msg_Data m, m))"
    using v id_types [OF v]
    by (auto simp: message_Encode_def Let_def header_flag_def id_bytes_def route_bytes_def
        split: option.splits outcome.splits)
  with e have "bs = ?buf @ msg_Data m \<or>
      (\<exists>dd. DeflateData z (msg_Data m) = Ok dd \<and> bs = ?flag True # id_bytes m @ route_bytes d m @ dd)"
    by (auto simp: z simp del: not_None_eq split: if_splits outcome.splits)
  then show ?thesis
  proof
    assume "bs = ?buf @ msg_Data m"
    then show ?thesis by (intro exI [of _ False] exI [of _ "msg_Data m"]) simp
  next
    assume "\<exists>dd. DeflateData z (msg_Data m) = Ok dd \<and> bs = ?flag True # id_bytes m @ route_bytes d m @ dd"
    then show ?thesis by auto
  qed
qed

lemma code_bytes:
  "push_bit 8 (ucast (ucast (drop_bit 8 c AND 0xFF :: 16 word) :: byte)) OR
     ucast (ucast (c AND 0xFF) :: byte) = (c :: 16 word)"
proof -
  have m: "(0xFF :: 16 word) = mask 8"
    by (simp add: mask_eq_exp_minus_1)
  show ?thesis
    unfolding m by (rule bit_word_eqI) (auto simp: bit_simps not_le)
qed

lemma decode_route_bytes:
  assumes d: "dict_wf d"
    and len: "gm_get (dict_routes d) (msg_Route m) = None \<Longrightarrow> length (msg_Route m) < 256"
    and r: "routable (msg_Type m)"
    and flag: "flag AND msgRouteCompressMask = 1 \<longleftrightarrow> gm_get (dict_routes d) (msg_Route m) \<noteq> None"
  shows "decode_route d flag (pre @ route_bytes d m @ payload) (length pre) =
    Ok (msg_Route m, gm_get (dict_routes d) (msg_Route m) \<noteq> None, length pre + length (route_bytes d m))"
proof (cases "gm_get (dict_routes d) (msg_Route m)")
  case None
  with len have "unat (of_nat (length (msg_Route m)) :: byte) = length (msg_Route m)"
    by (simp add: unat_of_nat)
  with None flag r show ?thesis
    by (simp add: decode_route_def route_bytes_def Let_def nth_append)
next
  case (Some c)
  with d have "gm_get (dict_codes d) c = Some (msg_Route m)"
    by (auto simp: dict_wf_def)
  with Some flag r show ?thesis
    using code_bytes [of c]
    by (simp add: decode_route_def route_bytes_def Let_def nth_append)
qed

lemma message_Decode_form:
  assumes v: "\<not> invalidType (msg_Type m)" and d: "dict_wf d"
    and len: "routable (msg_Type m) \<Longrightarrow> gm_get (dict_routes d) (msg_Route m) = None \<Longrightarrow>
      length (msg_Route m) < 256"
  shows "message_Decode z d
     (header_flag (msg_Type m) (gm_get (dict_routes d) (msg_Route m) \<noteq> None) (msg_Err m) zz #
      id_bytes m @ route_bytes d m @ payload) =
    (if zz then
       (case InflateData z payload of
          Ok out \<Rightarrow> Ok ((received d m)\<lparr>msg_Data := out\<rparr>)
        | Err e \<Rightarrow> Err (ErrZlib e)
        | Panic p \<Rightarrow> Panic p)
     else Ok ((received d m)\<lparr>msg_Data := payload\<rparr>))"
    (is "message_Decode z d (?flag # _) = _")
proof -
  define flag data offset where "flag = ?flag"
    and "data = ?flag # id_bytes m @ route_bytes d m @ payload"
    and "offset = length (?flag # id_bytes m)"
  let ?rec = "received d m"

  have flag: "data ! 0 = flag" "drop_bit 1 flag AND msgTypeMask = msg_Type m"
    "flag AND errorMask = errorMask \<longleftrightarrow> msg_Err m" "flag AND gzipMask = gzipMask \<longleftrightarrow> zz"
    using header_flag_reads [OF v] by (simp_all add: flag_def data_def)
  have len2: "\<not> length data < msgHeadLength"
    using length_encode_id [of "msg_ID m"]
    by (auto simp: data_def id_bytes_def route_bytes_def routable_def message_consts split: option.splits)
  have ido: "(if msg_Type m = Request \<or> msg_Type m = Response then decode_id data 1 1 0 else (0, 1)) =
      (msg_ID ?rec, offset)"
    using decode_encode_id [of "[?flag]" 1 1 "msg_ID m" "route_bytes d m @ payload" 0] id_types [OF v]
    by (auto simp: id_bytes_def received_def data_def offset_def)
  have rt: "(if routable (msg_Type m) then decode_route d flag data offset else Ok ([], False, offset)) =
      Ok (msg_Route ?rec, msg_compressed ?rec, offset + length (route_bytes d m))"
    using decode_route_bytes [of d m flag "?flag # id_bytes m" payload] d len header_flag_reads [OF v]
    by (auto simp: received_def route_bytes_def data_def offset_def flag_def)
  have drop: "drop (offset + length (route_bytes d m)) data = payload"
    "\<not> length data < offset + length (route_bytes d m)"
    by (simp_all add: data_def offset_def)
  have "message_Decode z d data =
    (let m = \<lparr>msg_Type = msg_Type m, msg_ID = msg_ID ?rec, msg_Route = msg_Route ?rec, msg_Data = [],
              msg_compressed = msg_compressed ?rec, msg_Err = msg_Err m\<rparr>
     in if zz then (case InflateData z payload of
           Ok out \<Rightarrow> Ok (m\<lparr>msg_Data := out\<rparr>) | Err e \<Rightarrow> Err (ErrZlib e) | Panic p \<Rightarrow> Panic p)
        else Ok (m\<lparr>msg_Data := payload\<rparr>))"
    using len2 v
    by (simp add: message_Decode_def Let_def flag ido rt drop message_New_def cong: if_cong
        split: outcome.splits del: One_nat_def)
  then show ?thesis
    unfolding data_def Let_def received_def by (auto split: outcome.splits)
qed

lemma message_wire:
  assumes "zlib_lossless z" "dict_wf d" "\<not> invalidType (msg_Type m)"
    and "routable (msg_Type m) \<Longrightarrow> gm_get (dict_routes d) (msg_Route m) = None \<Longrightarrow>
      length (msg_Route m) < 256"
  shows "\<exists>bs m'. message_Encode z dc d m = Ok (bs, m') \<and> message_Decode z d bs = Ok (received d m)"
proof -
  obtain out where out: "DeflateData z (msg_Data m) = Ok out" "InflateData z out = Ok (msg_Data m)"
    using Inflate_Deflate [OF assms(1)] by blast
  have "\<exists>bs m'. message_Encode z dc d m = Ok (bs, m')"
    using assms(3) by (auto simp: message_Encode_def Let_def out)
  then obtain bs m' where e: "message_Encode z dc d m = Ok (bs, m')" by blast
  from message_Encode_form [OF assms(3) e] obtain zz payload where
    bs: "bs = header_flag (msg_Type m) (gm_get (dict_routes d) (msg_Route m) \<noteq> None) (msg_Err m) zz #
         id_bytes m @ route_bytes d m @ payload"
    and p: "zz \<longrightarrow> DeflateData z (msg_Data m) = Ok payload" "\<not> zz \<longrightarrow> payload = msg_Data m"
    by blast
  have "msg_Data (received d m) = msg_Data m" by (simp add: received_def)
  then have "(received d m)\<lparr>msg_Data := msg_Data m\<rparr> = received d m"
    by (cases "received d m") simp
  then have "message_Decode z d bs = Ok (received d m)"
    unfolding bs using message_Decode_form [OF assms(3,2,4), of z zz payload] p out by auto
  with e show ?thesis by blast
qed

section \<open>Properties\<close>

text \<open>
  C3: a message survives the wire. Whatever the type, id, error flag and payload, with or without
  payload compression (for any lossless zlib) and route compression (for any consistent
  dictionary shared by both sides), decoding what \<open>Encode\<close> produced returns the message with the
  original payload. Only the route of a response, which is not sent, is blank; an uncompressed
  route has to fit its one-byte length.
\<close>

theorem message_roundtrip:
  assumes "zlib_lossless z" "dict_wf d" "\<not> invalidType (msg_Type m)"
    and "routable (msg_Type m) \<Longrightarrow> gm_get (dict_routes d) (msg_Route m) = None \<Longrightarrow>
      length (msg_Route m) < 256"
  shows "\<exists>bs m'. message_Encode z dc d m = Ok (bs, m') \<and> message_Decode z d bs = Ok (received d m)"
  using message_wire [OF assms] .

theorem message_roundtrip_witness:
  "\<exists>bs m'. message_Encode zlib_stored True dict_empty
      \<lparr>msg_Type = Request, msg_ID = 300, msg_Route = ''room.join'', msg_Data = [1, 2, 3],
       msg_compressed = False, msg_Err = True\<rparr> = Ok (bs, m') \<and>
    message_Decode zlib_stored dict_empty bs =
      Ok (received dict_empty
        \<lparr>msg_Type = Request, msg_ID = 300, msg_Route = ''room.join'', msg_Data = [1, 2, 3],
         msg_compressed = False, msg_Err = True\<rparr>)"
  by (rule message_roundtrip [OF zlib_lossless_stored dict_wf_empty])
     (simp_all add: invalidType_def message_consts)



subsection \<open>Malformed input\<close>

text \<open>The id bytes run to the very end of the data: every byte before the last continues.\<close>

definition id_to_end :: "bytes \<Rightarrow> bool" where
  "id_to_end data \<longleftrightarrow> (\<forall>i. 1 \<le> i \<longrightarrow> i + 1 < length data \<longrightarrow> \<not> data ! i < 128) \<and> last data < 128"

lemma decode_id_offset:
  assumes "1 \<le> i" "i < length data" "\<forall>j. 1 \<le> j \<longrightarrow> j < i \<longrightarrow> \<not> data ! j < 128"
  shows "snd (decode_id data 1 i acc) \<le> length data \<and> 1 \<le> snd (decode_id data 1 i acc) \<and>
    (snd (decode_id data 1 i acc) = length data \<longleftrightarrow> id_to_end data)"
  using assms
proof (induction data "1 :: nat" i acc rule: decode_id.induct)
  case (1 data i acc)
  have last: "last data = data ! (length data - 1)"
    using 1(3) by (intro last_conv_nth) auto
  show ?case
  proof (cases "data ! i < 128")
    case True
    have "length data = i + 1 \<longleftrightarrow> id_to_end data"
    proof
      assume "length data = i + 1"
      with True 1(4) last show "id_to_end data" by (auto simp: id_to_end_def)
    next
      assume "id_to_end data"
      with True 1(2) have "\<not> i + 1 < length data"
        unfolding id_to_end_def by blast
      with 1(3) show "length data = i + 1" by simp
    qed
    with True 1(3) show ?thesis by (auto simp: decode_id.simps [of _ _ i])
  next
    case False
    have cont: "\<forall>j. 1 \<le> j \<longrightarrow> j < i + 1 \<longrightarrow> \<not> data ! j < 128"
      using 1(4) False by (auto simp: less_Suc_eq)
    show ?thesis
    proof (cases "i + 1 < length data")
      case True
      with 1(1) [OF 1(3) refl refl False] cont False 1(3) show ?thesis
        by (simp add: decode_id.simps [of _ _ i] Let_def)
    next
      case stop: False
      then have "length data = i + 1" using 1(3) by simp
      with False last 1(2) show ?thesis
        by (auto simp: decode_id.simps [of _ _ i] decode_id.simps [of _ _ "Suc i"] Let_def id_to_end_def)
    qed
  qed
qed

lemma decode_route_panic:
  assumes "offset \<le> length data"
  shows "is_panic (decode_route d flag data offset) \<longleftrightarrow>
    flag AND msgRouteCompressMask \<noteq> 1 \<and> offset = length data"
  using assms by (auto simp: decode_route_def Let_def index_outcome_def split: option.splits)

lemma InflateData_not_panic [simp]: "InflateData z data \<noteq> Panic p"
  by (simp add: InflateData_def split: sum.splits)

lemma bind_outcome_is_panic:
  "(\<And>x. \<not> is_panic (f x)) \<Longrightarrow> is_panic (bind_outcome r f) \<longleftrightarrow> is_panic r"
  by (cases r) simp_all

text \<open>
  C33: the decoder crashes on some input it should reject. \<open>Decode\<close> panics (index out of
  range) exactly on a request with an uncompressed route whose id bytes end with the data, so
  that no byte is left for the route length; on all other input it returns.
\<close>

theorem message_Decode_panics:
  "is_panic (message_Decode z d data) \<longleftrightarrow>
     msgHeadLength \<le> length data \<and> drop_bit 1 (data ! 0) AND msgTypeMask = Request \<and>
     data ! 0 AND msgRouteCompressMask \<noteq> 1 \<and> id_to_end data"
proof (cases "length data < msgHeadLength \<or> invalidType (drop_bit 1 (data ! 0) AND msgTypeMask)")
  case True
  then show ?thesis by (auto simp: message_Decode_def Let_def invalidType_def message_consts)
next
  case False
  define t where "t = drop_bit 1 (data ! 0) AND msgTypeMask"
  obtain mid offset where
    o: "(if t = Request \<or> t = Response then decode_id data 1 1 0 else (0, 1)) = (mid, offset)"
    by (cases "if t = Request \<or> t = Response then decode_id data 1 1 0 else (0, 1)")
  have tt: "t = Request \<or> t = Response \<longleftrightarrow> t \<noteq> Notify"
    using False by (intro id_types) (simp add: t_def)
  have len: "2 \<le> length data" using False by (simp add: msgHeadLength_def)
  have off: "snd (decode_id data 1 1 0) \<le> length data \<and> 1 \<le> snd (decode_id data 1 1 0) \<and>
      (snd (decode_id data 1 1 0) = length data \<longleftrightarrow> id_to_end data)"
    using len by (intro decode_id_offset) auto
  have le: "offset \<le> length data"
    using o off len by (auto split: if_splits)
  have eq: "offset = length data \<longleftrightarrow> t \<noteq> Notify \<and> id_to_end data"
    using o [unfolded tt] off len by (auto split: if_splits)
  have "is_panic (message_Decode z d data) \<longleftrightarrow>
      is_panic (if routable t then decode_route d (data ! 0) data offset else Ok ('''', False, offset))"
    using False unfolding message_Decode_def Let_def t_def [symmetric] o
    by (simp add: bind_outcome_is_panic is_panic_def split: prod.splits outcome.splits)
  also have "\<dots> \<longleftrightarrow> t = Request \<and> data ! 0 AND msgRouteCompressMask \<noteq> 1 \<and> id_to_end data"
    using decode_route_panic [OF le, of d "data ! 0"] eq by (auto simp: routable_def message_consts)
  finally show ?thesis
    using False by (auto simp: t_def)
qed

text \<open>
  A route of 256 bytes or more is not sent correctly. The length byte wraps around, and a
  request or notification with such a route that is not in the dictionary never decodes to the
  route that was encoded.
\<close>

lemma message_Encode_long_route:
  assumes "routable (msg_Type m)" "gm_get (dict_routes d) (msg_Route m) = None"
    and "256 \<le> length (msg_Route m)" "message_Encode z dc d m = Ok (bs, m')"
    and "message_Decode z d bs = Ok r"
  shows "msg_Route r \<noteq> msg_Route m"
proof
  assume same: "msg_Route r = msg_Route m"
  have "length (string_of_bytes (take (unat (rl :: byte)) xs)) < 256" for rl xs
  proof -
    have "unat rl < 2 ^ LENGTH(8)" by (rule unsigned_less)
    then show ?thesis by (simp add: string_of_bytes_def min_def)
  qed
  moreover have v: "\<not> invalidType (msg_Type m)"
    using assms(1) by (auto simp: routable_def invalidType_def message_consts)
  from message_Encode_form [OF v assms(4)] assms(2) obtain zz rest where
    "bs = header_flag (msg_Type m) False (msg_Err m) zz # rest" by auto
  then have "bs ! 0 AND msgRouteCompressMask \<noteq> 1" "drop_bit 1 (bs ! 0) AND msgTypeMask = msg_Type m"
    using header_flag_reads [OF v] by simp_all
  ultimately have "length (msg_Route r) < 256"
    using assms(1,5)
    by (auto simp: message_Decode_def Let_def decode_route_def bind_outcome_Ok index_outcome_def
        split: if_splits prod.splits outcome.splits)
  with same assms(3) show False by simp
qed

lemma message_Encode_long_example:
  "message_Encode z False dict_empty
     \<lparr>msg_Type = Notify, msg_ID = 0, msg_Route = replicate 256 CHR ''a'', msg_Data = [], msg_compressed = False,
      msg_Err = False\<rparr> =
   Ok (2 # 0 # bytes_of_string (replicate 256 CHR ''a''),
     \<lparr>msg_Type = Notify, msg_ID = 0, msg_Route = replicate 256 CHR ''a'', msg_Data = [], msg_compressed = False,
      msg_Err = False\<rparr>)"
  by (simp add: message_Encode_def invalidType_def routable_def message_consts dict_empty_def)

section \<open>The encoder object\<close>

record MessagesEncoder =
  DataCompression :: bool

definition NewMessagesEncoder :: "bool \<Rightarrow> MessagesEncoder" where
  "NewMessagesEncoder dataCompression = \<lparr>DataCompression = dataCompression\<rparr>"

definition IsCompressionEnabled :: "MessagesEncoder \<Rightarrow> bool" where
  "IsCompressionEnabled me = DataCompression me"

definition encoder_Encode :: "zlib \<Rightarrow> dictionary \<Rightarrow> MessagesEncoder \<Rightarrow> message \<Rightarrow> (message_err, bytes \<times> message) outcome" where
  "encoder_Encode z d me m = message_Encode z (DataCompression me) d m"

definition encoder_Decode :: "zlib \<Rightarrow> dictionary \<Rightarrow> MessagesEncoder \<Rightarrow> bytes \<Rightarrow> (message_err, message) outcome" where
  "encoder_Decode z d me data = message_Decode z d data"

text \<open>
  Encoding changes the message of the caller: its data are compressed in place. Whoever encodes the same message again sends the compressed data as
  the data, and the receiver of the second copy gets them instead of the original.
\<close>

lemma encode_again:
  assumes "zlib_lossless z" "dict_wf d" "\<not> invalidType (msg_Type m)" "IsCompressionEnabled me"
    and "routable (msg_Type m) \<Longrightarrow> gm_get (dict_routes d) (msg_Route m) = None \<Longrightarrow> length (msg_Route m) < 256"
    and "DeflateData z (msg_Data m) = Ok dd" "length dd < length (msg_Data m)"
  shows "\<exists>bs bs2 m' m2. encoder_Encode z d me m = Ok (bs, m') \<and> encoder_Decode z d me bs = Ok (received d m) \<and>
    encoder_Encode z d me m' = Ok (bs2, m2) \<and> encoder_Decode z d me bs2 = Ok ((received d m)\<lparr>msg_Data := dd\<rparr>) \<and>
    msg_Data (received d m) \<noteq> dd"
proof -
  let ?m = "m\<lparr>msg_Data := dd\<rparr>"
  obtain bs m' where 1: "message_Encode z True d m = Ok (bs, m')" "message_Decode z d bs = Ok (received d m)"
    using message_wire [OF assms(1-3,5), where dc = True] by blast
  have "m' = ?m" using 1(1) assms(3,6,7) by (auto simp: message_Encode_def Let_def split: if_splits)
  moreover obtain bs2 m2 where "message_Encode z True d ?m = Ok (bs2, m2)" "message_Decode z d bs2 = Ok (received d ?m)"
    using message_wire [OF assms(1,2), of ?m True] assms(3,5) by auto
  moreover have "received d ?m = (received d m)\<lparr>msg_Data := dd\<rparr>" "msg_Data (received d m) \<noteq> dd"
    using assms(7) by (auto simp: received_def)
  ultimately show ?thesis
    using 1 assms(4) by (auto simp: encoder_Encode_def encoder_Decode_def IsCompressionEnabled_def)
qed

end
