(* ===== verification/RpcUtil.thy ===== *)
theory RpcUtil
  imports Tracing Server Route Message
begin

text \<open>
  \<open>util/util.go\<close>, the request builder of \<open>cluster/cluster.go\<close> and the message types of
  \<open>protos/request.pb.go\<close>: error payloads, safe calls of user methods, and how the context of a call
  travels in a request. Generated request ids (nuid) and the loggers put into contexts are parameters.
\<close>

section \<open>Protocol messages\<close>

text \<open>A nil and an empty map are the same on the wire, so metadata is a plain map here, read back as nil when empty.\<close>

definition md_list :: "metadata option \<Rightarrow> metadata" where
  "md_list md = (case md of None \<Rightarrow> [] | Some m \<Rightarrow> m)"

definition md_ptr :: "metadata \<Rightarrow> metadata option" where
  "md_ptr m = (if m = [] then None else Some m)"

record p_error =
  pe_Code :: string
  pe_Msg :: string
  pe_Metadata :: metadata

text \<open>Protocol enums are open: a received \<open>MsgType\<close> can be any number.\<close>

definition MsgType_MsgNotify :: int where "MsgType_MsgNotify = 0"
definition MsgType_MsgRequest :: int where "MsgType_MsgRequest = 1"
definition MsgType_MsgResponse :: int where "MsgType_MsgResponse = 2"

record p_msg =
  pm_Id :: nat
  pm_Route :: string
  pm_Data :: bytes
  pm_Reply :: string
  pm_Type :: int

record p_request =
  pr_Msg :: "p_msg option"
  pr_Metadata :: bytes

record p_response =
  ps_Data :: bytes
  ps_Error :: "p_error option"

definition zero_msg :: p_msg where
  "zero_msg = \<lparr>pm_Id = 0, pm_Route = '''', pm_Data = [], pm_Reply = '''', pm_Type = MsgType_MsgNotify\<rparr>"

text \<open>The getters of the generated code return zero values on nil.\<close>

definition GetMsg :: "p_request \<Rightarrow> p_msg" where
  "GetMsg req = (case pr_Msg req of None \<Rightarrow> zero_msg | Some m \<Rightarrow> m)"

definition error_response :: "string \<Rightarrow> string \<Rightarrow> metadata \<Rightarrow> p_response" where
  "error_response code msg md = \<lparr>ps_Data = [], ps_Error = Some \<lparr>pe_Code = code, pe_Msg = msg, pe_Metadata = md\<rparr>\<rparr>"

section \<open>Values and error payloads\<close>

text \<open>A value to send: raw bytes, or something a serializer handles.\<close>

datatype 'v sval = RawBytes bytes | Val 'v

definition SerializeOrRaw :: "('v \<Rightarrow> goerror + bytes) \<Rightarrow> 'v sval \<Rightarrow> (goerror, bytes) outcome" where
  "SerializeOrRaw marshal v =
     (case v of
        RawBytes data \<Rightarrow> Ok data
      | Val x \<Rightarrow> (case marshal x of Inl e \<Rightarrow> Err e | Inr data \<Rightarrow> Ok data))"

text \<open>
  The type switch \<open>err.(*e.Error)\<close> looks at the error itself, not at what it wraps.
\<close>

definition is_nrpc :: "goerror \<Rightarrow> nerror option" where
  "is_nrpc err = (case err of NrpcError n \<Rightarrow> Some n | _ \<Rightarrow> None)"

definition GetErrorPayload :: "(p_error \<Rightarrow> goerror + bytes) \<Rightarrow> goerror \<Rightarrow> (goerror, bytes) outcome" where
  "GetErrorPayload marshal err =
     (let (code, metadata) =
        (case is_nrpc err of
           Some val \<Rightarrow> (ne_Code val, md_list (ne_Metadata val))
         | None \<Rightarrow> (ErrUnknownCode, gm_empty)) in
      SerializeOrRaw marshal
        (Val \<lparr>pe_Code = code, pe_Msg = err_Error err,
              pe_Metadata = (if length metadata > 0 then metadata else [])\<rparr>))"

text \<open>The error of \<open>Unmarshal\<close> is dropped: what it made of the value is used in any case.\<close>

definition GetErrorFromPayload :: "(bytes \<Rightarrow> p_error \<Rightarrow> p_error) \<Rightarrow> bytes \<Rightarrow> goerror" where
  "GetErrorFromPayload unmarshal payload =
     (let pErr = unmarshal payload \<lparr>pe_Code = ErrUnknownCode, pe_Msg = '''', pe_Metadata = []\<rparr> in
      NrpcError \<lparr>ne_Code = pe_Code pErr, ne_Message = pe_Msg pErr, ne_Metadata = md_ptr (pe_Metadata pErr)\<rparr>)"

definition ConvertProtoToMessageType :: "int \<Rightarrow> byte" where
  "ConvertProtoToMessageType protoMsgType =
     (if protoMsgType = MsgType_MsgRequest then Request
      else if protoMsgType = MsgType_MsgNotify then Notify
      else 0)"

section \<open>Calling user code\<close>

text \<open>
  What a reflective call of a user method does: it panics with a string or with another value (given
  by its printed form), returns two results (a value that may be nil, an error that may be nil), or another
  number of them.
\<close>

datatype 'v call_result = PanicString string | PanicValue string | TwoResults "'v option" "goerror option" | OtherResults

definition Pcall :: "string \<Rightarrow> 'v call_result \<Rightarrow> 'v option \<times> goerror option" where
  "Pcall method_Name r =
     (case r of
        PanicString s \<Rightarrow> (None, Some (PlainError s))
      | PanicValue p \<Rightarrow> (None, Some (PlainError (''rpc call internal error - '' @ method_Name @ '': '' @ p)))
      | TwoResults v e \<Rightarrow>
          (case e of
             Some err \<Rightarrow> (None, Some err)
           | None \<Rightarrow> (case v of Some x \<Rightarrow> (Some x, None) | None \<Rightarrow> (None, Some ErrReplyShouldBeNotNull)))
      | OtherResults \<Rightarrow> (None, None))"

text \<open>\<open>stat\<close>: the error of \<open>os.Stat\<close>, if any, as a value that \<open>os.IsExist\<close> knows.\<close>

definition FileExists :: "(string \<Rightarrow> 'e option) \<Rightarrow> ('e \<Rightarrow> bool) \<Rightarrow> string \<Rightarrow> bool" where
  "FileExists stat IsExist filename = (case stat filename of None \<Rightarrow> True | Some err \<Rightarrow> IsExist err)"

section \<open>Contexts of requests\<close>

definition is_string :: "gval \<Rightarrow> string option" where
  "is_string v = (case v of GString s \<Rightarrow> Some s | _ \<Rightarrow> None)"

text \<open>
  The logger put into the context is known by its fields. For a request id that is missing
  the field is the generator \<open>nuid.New()\<close> itself, not an id made by it.
\<close>

definition nuid_generator :: gval where
  "nuid_generator = GOther 0"

definition CtxWithDefaultLogger :: "ctx option \<Rightarrow> string \<Rightarrow> string \<Rightarrow> heap \<Rightarrow> (goerror, ctx) outcome" where
  "CtxWithDefaultLogger c route userID h =
     bind_outcome (GetFromPropagateCtx c RequestIDKey h) (\<lambda>requestID.
     let requestID = (if is_string requestID = None \<or> is_string requestID = Some '''' then nuid_generator else requestID) in
     ctx_WithValue c LoggerCtxKey
       (CVal (GMap [(''route'', GString route), (''requestId'', requestID), (''userId'', GString userID)])))"

definition GetContextFromRequest :: "mapjson \<Rightarrow> string \<Rightarrow> p_request \<Rightarrow> heap \<Rightarrow> (goerror, ctx \<times> heap) outcome" where
  "GetContextFromRequest mj nuid req h =
     bind_outcome (ctx_Decode mj (pr_Metadata req) h) (\<lambda>(c, h).
     if c = None then Err ErrNoContextFound
     else
       bind_outcome (GetFromPropagateCtx c RequestIDKey h) (\<lambda>requestID.
       bind_outcome
         (if is_string requestID = None \<or> is_string requestID = Some ''''
          then bind_outcome (AddToPropagateCtx c RequestIDKey (GString nuid) h) (\<lambda>(c, h). Ok (Some c, h))
          else Ok (c, h)) (\<lambda>(c, h).
       let route = pm_Route (GetMsg req) in
       bind_outcome (AddToPropagateCtx c RouteKey (GString route) h) (\<lambda>(c, h).
       bind_outcome (CtxWithDefaultLogger (Some c) route '''' h) (\<lambda>c. Ok (c, h))))))"

definition StartSpanFromRequest :: "tracer \<Rightarrow> ctx option \<Rightarrow> string \<Rightarrow> string \<Rightarrow> heap \<Rightarrow> (goerror, ctx option) outcome" where
  "StartSpanFromRequest tr c serverID route h =
     (case c of
        None \<Rightarrow> Ok None
      | Some _ \<Rightarrow>
          bind_outcome (GetFromPropagateCtx c PeerIDKey h) (\<lambda>peer.
          bind_outcome (GetFromPropagateCtx c PeerServiceKey h) (\<lambda>svc.
          bind_outcome (GetFromPropagateCtx c RequestIDKey h) (\<lambda>rid.
          let tags = [(''local.id'', GString serverID), (''span.kind'', GString ''server''),
            (''peer.id'', peer), (''peer.service'', svc), (''request.id'', rid)] in
          case ExtractSpan tr c h of
            Panic p \<Rightarrow> Panic p
          | r \<Rightarrow>
              bind_outcome (tr_StartSpanCtx tr c route tags (case r of Ok parent \<Rightarrow> parent | _ \<Rightarrow> None)) (\<lambda>c.
              Ok (Some c))))))"

definition GetRouteFromCtx :: "ctx option \<Rightarrow> heap \<Rightarrow> (goerror, string) outcome" where
  "GetRouteFromCtx c h =
     (case c of
        None \<Rightarrow> Panic nil_context
      | Some c \<Rightarrow>
          (case ctx_Value c PropagateCtxKey of
             Some (CMap r) \<Rightarrow>
               (case gm_get (read_map h r) RouteKey of
                  None \<Rightarrow> Ok ''''
                | Some (GString s) \<Rightarrow> Ok s
                | Some _ \<Rightarrow> Panic ''interface conversion'')
           | _ \<Rightarrow> Ok ''''))"

text \<open>
  \<open>buildRequest\<close>: an error of \<open>InjectSpan\<close> is only logged, but its context is then nil.
\<close>

definition buildRequest :: "tracer \<Rightarrow> mapjson \<Rightarrow> ctx option \<Rightarrow> route \<Rightarrow> message \<Rightarrow> server \<Rightarrow> heap \<Rightarrow>
    (goerror, p_request \<times> heap) outcome" where
  "buildRequest tr mj c rt msg thisServer h =
     bind_outcome (InjectSpan tr c h) (\<lambda>(c, _, h).
     bind_outcome (AddToPropagateCtx c PeerIDKey (GString (sv_ID thisServer)) h) (\<lambda>(c, h).
     bind_outcome (AddToPropagateCtx (Some c) PeerServiceKey (GString (sv_Type thisServer)) h) (\<lambda>(c, h).
     bind_outcome (ctx_Encode mj (Some c) h) (\<lambda>metadata.
     Ok (\<lparr>pr_Msg = Some (zero_msg\<lparr>pm_Route := route_String rt, pm_Data := msg_Data msg,
            pm_Type := (if msg_Type msg = Request then MsgType_MsgRequest
                        else if msg_Type msg = Notify then MsgType_MsgNotify
                        else pm_Type zero_msg)\<rparr>),
          pr_Metadata = metadata\<rparr>, h)))))"

section \<open>Lemmas\<close>

lemma Pcall_total:
  "case Pcall nm r of (ret, err) \<Rightarrow> (ret = None \<or> err = None) \<and> (r \<noteq> OtherResults \<longrightarrow> ret \<noteq> None \<or> err \<noteq> None)"
  by (auto simp: Pcall_def split: call_result.splits option.splits)

text \<open>
  The two ends of an error payload fit together: the error the receiver builds has the code, text and
  metadata of the sender's, and an error that is no nrpc error gets the unknown code.
\<close>

lemma error_payload_roundtrip:
  assumes "\<And>p. \<exists>bs. marshal p = Inr bs \<and> (\<forall>q. unmarshal bs q = p)"
  shows "\<exists>bs. GetErrorPayload marshal err = Ok bs \<and>
    GetErrorFromPayload unmarshal bs = NrpcError
      (case err of NrpcError n \<Rightarrow> n\<lparr>ne_Metadata := md_ptr (md_list (ne_Metadata n))\<rparr>
       | _ \<Rightarrow> \<lparr>ne_Code = ErrUnknownCode, ne_Message = err_Error err, ne_Metadata = None\<rparr>)"
proof -
  let ?code = "case is_nrpc err of Some val \<Rightarrow> ne_Code val | None \<Rightarrow> ErrUnknownCode"
  let ?md = "case is_nrpc err of Some val \<Rightarrow> md_list (ne_Metadata val) | None \<Rightarrow> []"
  obtain bs where "marshal \<lparr>pe_Code = ?code, pe_Msg = err_Error err, pe_Metadata = ?md\<rparr> = Inr bs"
    "\<And>q. unmarshal bs q = \<lparr>pe_Code = ?code, pe_Msg = err_Error err, pe_Metadata = ?md\<rparr>"
    using assms by blast
  then show ?thesis
    by (cases err) (auto simp: GetErrorPayload_def GetErrorFromPayload_def is_nrpc_def SerializeOrRaw_def gm_empty_def Let_def
        md_ptr_def)
qed

lemma GetFromPropagateCtx_logger:
  assumes "CtxWithDefaultLogger c r u h = Ok c'"
  shows "GetFromPropagateCtx (Some c') k h2 = GetFromPropagateCtx c k h2"
  using assms
  by (auto simp: CtxWithDefaultLogger_def ctx_WithValue_def bind_outcome_Ok GetFromPropagateCtx_def ToMap_def Let_def
      split: option.splits)

lemma buildRequest_vals:
  assumes "ctx_ok c" "SpanFromContext c = Ok None \<or> (\<exists>s d. SpanFromContext c = Ok (Some s) \<and> tr_Inject tr (tr_Context tr s) = Inr d)"
    and "vals = (case SpanFromContext c of
        Ok (Some s) \<Rightarrow> (case tr_Inject tr (tr_Context tr s) of
            Inr d \<Rightarrow> (ctx_vals c h)(SpanPropagateCtxKey \<mapsto> GCarrier d) | _ \<Rightarrow> ctx_vals c h)
      | _ \<Rightarrow> ctx_vals c h)"
    and "sent = vals(PeerIDKey \<mapsto> GString (sv_ID sv), PeerServiceKey \<mapsto> GString (sv_Type sv))"
    and "\<And>m. gm_get m = sent \<Longrightarrow> mj_lossless mj m"
  shows "\<exists>req h'. buildRequest tr mj c rt msg sv h = Ok (req, h') \<and> pm_Route (GetMsg req) = route_String rt \<and>
    pm_Data (GetMsg req) = msg_Data msg \<and>
    (\<exists>a g'. ctx_Decode mj (pr_Metadata req) g = Ok (Some (FromMap (Some a)), g') \<and>
       ctx_vals (Some (FromMap (Some a))) g' = sent)"
proof -
  obtain c1 h1 where i: "InjectSpan tr c h = Ok (c1, None, h1)" "ctx_ok c1" "ctx_vals c1 h1 = vals"
  proof (cases "SpanFromContext c = Ok None")
    case True
    then show ?thesis using assms that by (simp add: InjectSpan_def)
  next
    case False
    then obtain s d where s: "SpanFromContext c = Ok (Some s)" "tr_Inject tr (tr_Context tr s) = Inr d"
      using assms(2) by blast
    obtain c' h' where "AddToPropagateCtx c SpanPropagateCtxKey (GCarrier d) h = Ok (c', h')" "ctx_ok (Some c')"
      "ctx_vals (Some c') h' = (ctx_vals c h)(SpanPropagateCtxKey \<mapsto> GCarrier d)"
      using AddToPropagateCtx_vals [OF assms(1)] by blast
    then show ?thesis using s assms(3) that by (simp add: InjectSpan_def)
  qed
  obtain c2 h2 where a2: "AddToPropagateCtx c1 PeerIDKey (GString (sv_ID sv)) h1 = Ok (c2, h2)" "ctx_ok (Some c2)"
    "ctx_vals (Some c2) h2 = vals(PeerIDKey \<mapsto> GString (sv_ID sv))"
    using AddToPropagateCtx_vals [OF i(2)] i(3) by metis
  obtain c3 h3 where a3: "AddToPropagateCtx (Some c2) PeerServiceKey (GString (sv_Type sv)) h2 = Ok (c3, h3)"
    "ctx_ok (Some c3)" "ctx_vals (Some c3) h3 = sent"
    using AddToPropagateCtx_vals [OF a2(2)] a2(3) assms(4) by metis
  have "ctx_vals (Some c3) h3 PeerIDKey = Some (GString (sv_ID sv))"
    by (simp add: a3(3) assms(4) ctx_keys)
  then obtain bs where bs: "ctx_Encode mj (Some c3) h3 = Ok bs"
    "\<exists>a g'. ctx_Decode mj bs g = Ok (Some (FromMap (Some a)), g') \<and> ctx_vals (Some (FromMap (Some a))) g' = sent"
    using Encode_vals [OF a3(2), of h3 mj PeerIDKey "GString (sv_ID sv)" g] a3(3) assms(5) by auto
  then show ?thesis
    using i(1) a2(1) a3(1) by (auto simp: buildRequest_def GetMsg_def)
qed

lemma GetContextFromRequest_vals:
  assumes "ctx_Decode mj (pr_Metadata req) g = Ok (Some (FromMap (Some a)), g1)"
    and "sent = ctx_vals (Some (FromMap (Some a))) g1"
  shows "\<exists>c g2. GetContextFromRequest mj nuid req g = Ok (c, g2) \<and> ctx_ok (Some c) \<and>
    ctx_vals (Some c) g2 =
      (if is_string (val_of (sent RequestIDKey)) \<in> {None, Some ''''} then sent(RequestIDKey \<mapsto> GString nuid) else sent)
        (RouteKey \<mapsto> GString (pm_Route (GetMsg req)))"
proof -
  let ?c = "Some (FromMap (Some a))" and ?new = "is_string (val_of (sent RequestIDKey)) \<in> {None, Some ''''}"
  have rid: "GetFromPropagateCtx ?c RequestIDKey g1 = Ok (val_of (sent RequestIDKey))"
    using assms(2) by (simp add: GetFromPropagateCtx_vals)
  obtain c1 h1 where s1: "(if ?new then bind_outcome (AddToPropagateCtx ?c RequestIDKey (GString nuid) g1) (\<lambda>(c, h). Ok (Some c, h))
      else Ok (?c, g1)) = Ok (c1, h1)" "ctx_ok c1"
    "ctx_vals c1 h1 = (if ?new then sent(RequestIDKey \<mapsto> GString nuid) else sent)"
    using AddToPropagateCtx_vals [of ?c RequestIDKey "GString nuid" g1] assms(2) by (cases ?new) auto
  obtain c2 h2 where s2: "AddToPropagateCtx c1 RouteKey (GString (pm_Route (GetMsg req))) h1 = Ok (c2, h2)"
    "ctx_ok (Some c2)" "ctx_vals (Some c2) h2 = (ctx_vals c1 h1)(RouteKey \<mapsto> GString (pm_Route (GetMsg req)))"
    using AddToPropagateCtx_vals [OF s1(2)] by metis
  have "\<exists>v. CtxWithDefaultLogger (Some c2) r u h2 = Ok (WithValue c2 LoggerCtxKey v)" for r u
    using GetFromPropagateCtx_vals [OF s2(2)] by (simp add: CtxWithDefaultLogger_def ctx_WithValue_def Let_def)
  then obtain v where "CtxWithDefaultLogger (Some c2) (pm_Route (GetMsg req)) '''' h2 = Ok (WithValue c2 LoggerCtxKey v)"
    by blast
  then have "GetContextFromRequest mj nuid req g = Ok (WithValue c2 LoggerCtxKey v, h2)"
    using assms(1) rid s1(1) s2(1) by (simp add: GetContextFromRequest_def Let_def disj_commute insert_commute)
  then show ?thesis using s1(3) s2 by simp
qed

end
