(* ===== verification/RpcClient.thy ===== *)
theory RpcClient
  imports RpcUtil Config
begin

text \<open>
  \<open>cluster/nats_rpc_client.go\<close> and \<open>cluster/nats_rpc_common.go\<close>: the NATS RPC client and the
  connection both sides use. What NATS, the protocol buffer library and the clock give is a parameter.
  The metrics report made when a call ends is added in theory \<open>CallReport\<close>.
\<close>

section \<open>Libraries\<close>

text \<open>Protocol buffers: an error, or bytes; \<open>time.Duration\<close> printing and parsing.\<close>

record protolib =
  pl_marshal_req :: "p_request \<Rightarrow> goerror + bytes"
  pl_unmarshal_req :: "bytes \<Rightarrow> goerror + p_request"
  pl_marshal_resp :: "p_response \<Rightarrow> goerror + bytes"
  pl_unmarshal_resp :: "bytes \<Rightarrow> goerror + p_response"

record timelib =
  tl_String :: "int \<Rightarrow> string"
  tl_Parse :: "string \<Rightarrow> string + int"

text \<open>NATS errors: whether the error is \<open>nats.ErrTimeout\<close>, and the error.\<close>

record nats_env =
  nv_Request :: "string \<Rightarrow> bytes \<Rightarrow> int \<Rightarrow> (bool \<times> goerror) + bytes"
  nv_Publish :: "string \<Rightarrow> bytes \<Rightarrow> (bool \<times> goerror) option"

section \<open>The connection\<close>

definition getChannel :: "string \<Rightarrow> string \<Rightarrow> string" where
  "getChannel serverType serverID = ''nrpc/servers/'' @ serverType @ ''/'' @ serverID"

text \<open>
  \<open>drainAndClose\<close>: \<open>draining k\<close> is what \<open>IsDraining\<close> says after k ticks; the 5 second timer
  fires at tick \<open>limit\<close> (50 ticks of 100 ms). The boolean says whether \<open>Close\<close> was called.
\<close>

function drain_wait :: "(nat \<Rightarrow> bool) \<Rightarrow> nat \<Rightarrow> nat \<Rightarrow> (goerror, unit) outcome \<times> bool" where
  "drain_wait draining limit k =
     (if \<not> draining k then (Ok (), False)
      else if k < limit then drain_wait draining limit (Suc k)
      else (Err (PlainError ''drain timeout exceeded''), True))"
  by pat_completeness auto
termination
  by (relation "measure (\<lambda>(draining, limit, k). limit - k)") auto

declare drain_wait.simps [simp del]

definition drainAndClose :: "bool \<Rightarrow> goerror option \<Rightarrow> (nat \<Rightarrow> bool) \<Rightarrow> (goerror, unit) outcome \<times> bool" where
  "drainAndClose nc drain_err draining =
     (if \<not> nc then (Ok (), False)
      else
        case drain_err of
          Some err \<Rightarrow> (Err err, True)
        | None \<Rightarrow> drain_wait draining 50 0)"

record nats_opts =
  no_Timeout :: int
  no_RetryOnFailedConnect :: bool
  no_ReconnectWait :: int
  no_ReconnectJitter :: int
  no_MaxReconnect :: int

text \<open>How long \<open>setupNatsConn\<close> waits: durations are 64-bit and wrap.\<close>

definition conn_wait :: "nats_opts \<Rightarrow> int" where
  "conn_wait opts =
     (let maxConnTimeout = no_Timeout opts;
          maxReconnectionTimeout = wrap64 (wrap64 (no_ReconnectWait opts + no_ReconnectJitter opts) + no_Timeout opts);
          maxConnTimeout =
            (if no_RetryOnFailedConnect opts
             then wrap64 (maxConnTimeout + wrap64 (no_MaxReconnect opts * maxReconnectionTimeout))
             else maxConnTimeout)
      in wrap64 (maxConnTimeout * 2))"

text \<open>What the final select of \<open>setupNatsConn\<close> receives first.\<close>

datatype conn_event = ConnectedEv | InitialConnectError goerror | ConnectTimeout

definition setupNatsConn :: "goerror option \<Rightarrow> conn_event \<Rightarrow> (goerror, unit) outcome" where
  "setupNatsConn connect_err ev =
     (case connect_err of
        Some err \<Rightarrow> Err err
      | None \<Rightarrow>
          (case ev of
             ConnectedEv \<Rightarrow> Ok ()
           | InitialConnectError err \<Rightarrow> Err err
           | ConnectTimeout \<Rightarrow> Err (PlainError ''timeout setting up nats connection'')))"

text \<open>
  The handler of a closed connection: what it may do, depending on the last error, on whether there is a
  die channel and on which of the two channels has a receiver waiting.
\<close>

datatype closed_action = NoAction | SendDie | SendInitialError goerror | SendSigterm

definition closed_handler :: "goerror option \<Rightarrow> bool \<Rightarrow> bool \<Rightarrow> bool \<Rightarrow> closed_action list" where
  "closed_handler last_err appDieChan die_ready initial_ready =
     (case last_err of
        None \<Rightarrow> [NoAction]
      | Some err \<Rightarrow>
          if \<not> appDieChan then [NoAction]
          else
            (let ready = (if die_ready then [SendDie] else []) @ (if initial_ready then [SendInitialError err] else [])
             in if ready = [] then [SendSigterm] else ready))"

section \<open>The client\<close>

record NatsRPCClient =
  nc_connString :: string
  nc_connectionTimeout :: int
  nc_maxReconnectionRetries :: int
  nc_reqTimeout :: int
  nc_running :: bool
  nc_conn :: bool
  nc_server :: server
  nc_websocketCompression :: bool
  nc_reconnectJitter :: int
  nc_reconnectJitterTLS :: int
  nc_reconnectWait :: int
  nc_pingInterval :: int
  nc_maxPingsOutstanding :: int

text \<open>\<open>nats.DefaultTimeout\<close>: two seconds.\<close>

definition nats_DefaultTimeout :: int where
  "nats_DefaultTimeout = 2 * Second"

definition configure_client :: "NatsRPCClientConfig \<Rightarrow> NatsRPCClient \<Rightarrow> (goerror, unit) outcome \<times> NatsRPCClient" where
  "configure_client cfg ns =
     (let ns = ns\<lparr>nc_connString := ncc_Connect cfg\<rparr> in
      if nc_connString ns = '''' then (Err ErrNoNatsConnectionString, ns)
      else
        let ns = ns\<lparr>nc_connectionTimeout := ncc_ConnectionTimeout cfg,
                    nc_maxReconnectionRetries := ncc_MaxReconnectionRetries cfg,
                    nc_reqTimeout := ncc_RequestTimeout cfg\<rparr> in
        if nc_reqTimeout ns = 0 then (Err ErrNatsNoRequestTimeout, ns)
        else
          (Ok (), ns\<lparr>nc_websocketCompression := ncc_WebsocketCompression cfg,
                     nc_reconnectJitter := ncc_ReconnectJitter cfg,
                     nc_reconnectJitterTLS := ncc_ReconnectJitterTLS cfg,
                     nc_reconnectWait := ncc_ReconnectWait cfg,
                     nc_pingInterval := ncc_PingInterval cfg,
                     nc_maxPingsOutstanding := ncc_MaxPingsOutstanding cfg\<rparr>))"

definition NewNatsRPCClient :: "NatsRPCClientConfig \<Rightarrow> server \<Rightarrow> (goerror, NatsRPCClient) outcome" where
  "NewNatsRPCClient cfg sv =
     (case configure_client cfg
        \<lparr>nc_connString = '''', nc_connectionTimeout = nats_DefaultTimeout, nc_maxReconnectionRetries = 0,
         nc_reqTimeout = 0, nc_running = False, nc_conn = False, nc_server = sv, nc_websocketCompression = False,
         nc_reconnectJitter = 0, nc_reconnectJitterTLS = 0, nc_reconnectWait = 0, nc_pingInterval = 0,
         nc_maxPingsOutstanding = 0\<rparr> of
        (Ok _, ns) \<Rightarrow> Ok ns
      | (Err e, _) \<Rightarrow> Err e
      | (Panic p, _) \<Rightarrow> Panic p)"

definition client_Init :: "goerror option \<Rightarrow> conn_event \<Rightarrow> NatsRPCClient \<Rightarrow> (goerror, unit) outcome \<times> NatsRPCClient" where
  "client_Init connect_err ev ns =
     (let ns = ns\<lparr>nc_running := True\<rparr> in
      case setupNatsConn connect_err ev of
        Ok _ \<Rightarrow> (Ok (), ns\<lparr>nc_conn := True\<rparr>)
      | r \<Rightarrow> (r, ns))"

definition client_Shutdown :: "NatsRPCClient \<Rightarrow> (goerror, unit) outcome \<times> NatsRPCClient" where
  "client_Shutdown ns = (Ok (), ns)"

definition client_Send :: "nats_env \<Rightarrow> string \<Rightarrow> bytes \<Rightarrow> NatsRPCClient \<Rightarrow> (goerror, unit) outcome" where
  "client_Send nv topic data ns =
     (if \<not> nc_running ns then Err ErrRPCClientNotInitialized
      else case nv_Publish nv topic data of None \<Rightarrow> Ok () | Some (_, e) \<Rightarrow> Err e)"

definition getSubscribeChannel :: "NatsRPCClient \<Rightarrow> string" where
  "getSubscribeChannel ns = ''nrpc/servers/'' @ sv_Type (nc_server ns) @ ''/'' @ sv_ID (nc_server ns)"

text \<open>
  The middle part of \<open>Call\<close>: the values added to the propagated ones, and the request. The
  result carries the request timeout as it is used afterwards.
\<close>

definition prepare_call :: "tracer \<Rightarrow> mapjson \<Rightarrow> timelib \<Rightarrow> string \<Rightarrow> int \<Rightarrow> NatsRPCClient \<Rightarrow> ctx option \<Rightarrow> route \<Rightarrow> message \<Rightarrow>
    heap \<Rightarrow> (goerror, p_request \<times> gval \<times> heap) outcome" where
  "prepare_call tr mj tim nuid now ns c rt msg h =
     bind_outcome (ToMap c h) (\<lambda>(propagate, h).
     bind_outcome (map_assign propagate RouteKey (GString (route_String rt)) h) (\<lambda>h.
     bind_outcome (GetFromPropagateCtx c RequestIDKey h) (\<lambda>requestID.
     bind_outcome
       (if requestID = GNil \<or> is_string requestID = Some ''''
        then map_assign propagate RequestIDKey (GString nuid) h else Ok h) (\<lambda>h.
     bind_outcome (GetFromPropagateCtx c RequestTimeout h) (\<lambda>reqTimeout0.
     let reqTimeout = (if reqTimeout0 = GNil then GString (tl_String tim (nc_reqTimeout ns)) else reqTimeout0) in
     bind_outcome
       (if reqTimeout0 = GNil then map_assign propagate RequestTimeout reqTimeout h else Ok h) (\<lambda>h.
     bind_outcome (GetFromPropagateCtx c StartTimeKey h) (\<lambda>startTimeVal.
     bind_outcome
       (if startTimeVal = GNil then map_assign propagate StartTimeKey (GString (Itoa now)) h else Ok h) (\<lambda>h.
     bind_outcome (ctx_WithValue c PropagateCtxKey (CMap propagate)) (\<lambda>c.
     bind_outcome (buildRequest tr mj (Some c) rt msg (nc_server ns) h) (\<lambda>(req, h).
     Ok (req, reqTimeout, h)))))))))))"

text \<open>The context that \<open>Call\<close> continues with after these values are set; the values are in the heap.\<close>

definition call_context :: "ctx option \<Rightarrow> heap \<Rightarrow> (goerror, ctx) outcome" where
  "call_context c h = bind_outcome (ToMap c h) (\<lambda>(propagate, _). ctx_WithValue c PropagateCtxKey (CMap propagate))"

text \<open>The end of \<open>Call\<close>: the request is sent and the answer is read.\<close>

definition send_call :: "protolib \<Rightarrow> timelib \<Rightarrow> nats_env \<Rightarrow> NatsRPCClient \<Rightarrow> route \<Rightarrow> message \<Rightarrow> server \<Rightarrow>
    p_request \<Rightarrow> gval \<Rightarrow> (goerror, p_response) outcome" where
  "send_call pl tim nv ns rt msg sv req reqTimeout =
     (case pl_marshal_req pl req of
        Inl e \<Rightarrow> Err e
      | Inr data \<Rightarrow>
          let channel = getChannel (sv_Type sv) (sv_ID sv);
              fail = (\<lambda>timeout (is_timeout, err).
                if is_timeout
                then NrpcError (NewError ErrRPCRequestTimeout ''PIT-408''
                  [Some [(''timeout'', tl_String tim timeout), (''route'', route_String rt),
                         (''server'', sv_ID (nc_server ns)), (''peer.id'', sv_ID sv)]])
                else err)
          in
          if msg_Type msg = Request then
            (case is_string reqTimeout of
               None \<Rightarrow> Panic ''interface conversion''
             | Some s \<Rightarrow>
                 let timeout = (case tl_Parse tim s of Inl _ \<Rightarrow> 0 | Inr d \<Rightarrow> d) in
                 (case nv_Request nv channel data timeout of
                    Inl err \<Rightarrow> Err (fail timeout err)
                  | Inr bs \<Rightarrow>
                      (case pl_unmarshal_resp pl bs of
                         Inl e \<Rightarrow> Err e
                       | Inr res \<Rightarrow>
                           (case ps_Error res of
                              None \<Rightarrow> Ok res
                            | Some pe \<Rightarrow>
                                Err (NrpcError \<lparr>ne_Code = (if pe_Code pe = '''' then ErrUnknownCode else pe_Code pe),
                                  ne_Message = pe_Msg pe, ne_Metadata = md_ptr (pe_Metadata pe)\<rparr>)))))
          else if msg_Type msg = Notify then
            (case nv_Publish nv channel data of
               Some err \<Rightarrow> Err (fail 0 err)
             | None \<Rightarrow> Ok \<lparr>ps_Data = [], ps_Error = None\<rparr>)
          else Ok \<lparr>ps_Data = [], ps_Error = None\<rparr>)"

text \<open>
  The beginning of \<open>Call\<close>: the span, and \<open>body\<close> in its context. The deferred \<open>FinishSpan\<close> gets the error as it is when the
  defer statement runs, the one of \<open>ExtractSpan\<close>, not the one the call ends with. The last component is what is reported on the span.
\<close>

definition call_span :: "tracer \<Rightarrow> NatsRPCClient \<Rightarrow> server \<Rightarrow> ctx option \<Rightarrow> heap \<Rightarrow> ((goerror, p_response \<times> heap) outcome \<Rightarrow> 'a) \<Rightarrow>
    (ctx \<Rightarrow> 'a) \<Rightarrow> 'a \<times> (nat \<times> string option) list" where
  "call_span tr ns sv c h ret body =
     (case ExtractSpan tr c h of
        Panic p \<Rightarrow> (ret (Panic p), [])
      | r \<Rightarrow>
          let parent = (case r of Ok s \<Rightarrow> s | _ \<Rightarrow> None);
              err = (case r of Err e \<Rightarrow> Some e | _ \<Rightarrow> None);
              tags = [(''span.kind'', GString ''client''), (''local.id'', GString (sv_ID (nc_server ns))),
                (''peer.serverType'', GString (sv_Type sv)), (''peer.id'', GString (sv_ID sv))] in
          case tr_StartSpanCtx tr c ''NATS RPC Call'' tags parent of
            Ok c \<Rightarrow> (body c, (case FinishSpan (Some c) err of Ok fs \<Rightarrow> fs | _ \<Rightarrow> []))
          | Err e \<Rightarrow> (ret (Err e), [])
          | Panic p \<Rightarrow> (ret (Panic p), []))"

text \<open>\<open>Call\<close> without the deferred metrics report, which theory \<open>CallReport\<close> adds.\<close>

definition client_Call :: "tracer \<Rightarrow> mapjson \<Rightarrow> protolib \<Rightarrow> timelib \<Rightarrow> nats_env \<Rightarrow> string \<Rightarrow> int \<Rightarrow> NatsRPCClient \<Rightarrow>
    ctx option \<Rightarrow> route \<Rightarrow> message \<Rightarrow> server \<Rightarrow> heap \<Rightarrow> (goerror, p_response \<times> heap) outcome \<times> (nat \<times> string option) list" where
  "client_Call tr mj pl tim nv nuid now ns c rt msg sv h =
     call_span tr ns sv c h (\<lambda>out. out) (\<lambda>c.
       if \<not> nc_running ns then Err ErrRPCClientNotInitialized
       else
         bind_outcome (prepare_call tr mj tim nuid now ns (Some c) rt msg h) (\<lambda>(req, reqTimeout, h).
         bind_outcome (send_call pl tim nv ns rt msg sv req reqTimeout) (\<lambda>res. Ok (res, h))))"

text \<open>A request is sent to one server: servers without a slash in type or id have different subjects.\<close>

lemma getChannel_inj:
  assumes "getChannel ty ident = getChannel ty' ident'"
    and "CHR ''/'' \<notin> set ty" "CHR ''/'' \<notin> set ident" "CHR ''/'' \<notin> set ty'" "CHR ''/'' \<notin> set ident'"
  shows "ty = ty' \<and> ident = ident'"
proof -
  have "getChannel ty ident = ''nrpc/'' @ getKey ident ty" for ty ident by (simp add: getChannel_def getKey_def)
  then show ?thesis using assms etcdkey.enc_inj [of "(ty, ident)" "(ty', ident')"] by simp
qed

section \<open>The values a call propagates\<close>

definition call_vals :: "timelib \<Rightarrow> string \<Rightarrow> int \<Rightarrow> NatsRPCClient \<Rightarrow> route \<Rightarrow> (string \<Rightarrow> gval option) \<Rightarrow> string \<Rightarrow> gval option" where
  "call_vals tim nuid now ns rt v0 =
     (let v1 = v0(RouteKey \<mapsto> GString (route_String rt));
          v2 = (if val_of (v0 RequestIDKey) = GNil \<or> is_string (val_of (v0 RequestIDKey)) = Some ''''
                then v1(RequestIDKey \<mapsto> GString nuid) else v1);
          v3 = (if val_of (v0 RequestTimeout) = GNil
                then v2(RequestTimeout \<mapsto> GString (tl_String tim (nc_reqTimeout ns))) else v2)
      in if val_of (v0 StartTimeKey) = GNil then v3(StartTimeKey \<mapsto> GString (Itoa now)) else v3)"

lemma map_assign_Some: "map_assign (Some a) k v h = Ok (h\<lparr>hp_map := (hp_map h)(a := gm_put k v (hp_map h a))\<rparr>)"
  by (simp add: map_assign_def)

lemma GetFromPropagateCtx_linked:
  assumes "ctx_ok c" "ToMap c h0 = Ok (Some a, h1)" "gm_get (hp_map h a) k = ctx_vals c h0 k"
  shows "GetFromPropagateCtx c k h = Ok (val_of (ctx_vals c h0 k))"
proof (cases "has_map c")
  case True
  then obtain p where p: "c = Some p" "ctx_Value p PropagateCtxKey = Some (CMap (Some a))"
    using assms(2) by (auto simp: has_map_def ToMap_def split: option.splits)
  then show ?thesis
    using GetFromPropagateCtx_vals [OF assms(1), of k h] assms(3) by (simp add: ctx_vals_def read_map_def)
next
  case False
  then have "ctx_vals c h2 k = None" for h2
    by (auto simp: ctx_vals_def has_map_def split: option.splits cval.splits)
  then show ?thesis using GetFromPropagateCtx_vals [OF assms(1), of k h] by simp
qed

text \<open>The heap after the client has put its values into the map at \<open>a\<close>, by the values \<open>v0\<close> the map had.\<close>

definition put_at :: "nat \<Rightarrow> string \<Rightarrow> gval \<Rightarrow> heap \<Rightarrow> heap" where
  "put_at a k v h = h\<lparr>hp_map := (hp_map h)(a := gm_put k v (hp_map h a))\<rparr>"

lemma put_at_get [simp]: "gm_get (hp_map (put_at a k v h) a) = (gm_get (hp_map h a))(k \<mapsto> v)"
  by (simp add: put_at_def fun_eq_iff)

lemma assign_if: "(if b then map_assign (Some a) k v h else Ok h) = Ok (if b then put_at a k v h else h)"
  by (simp add: map_assign_Some put_at_def)

definition call_heap :: "nat \<Rightarrow> timelib \<Rightarrow> string \<Rightarrow> int \<Rightarrow> NatsRPCClient \<Rightarrow> route \<Rightarrow> (string \<Rightarrow> gval option) \<Rightarrow> heap \<Rightarrow> heap" where
  "call_heap a tim nuid now ns rt v0 h =
     (let h = put_at a RouteKey (GString (route_String rt)) h;
          h = (if val_of (v0 RequestIDKey) = GNil \<or> is_string (val_of (v0 RequestIDKey)) = Some ''''
               then put_at a RequestIDKey (GString nuid) h else h);
          h = (if val_of (v0 RequestTimeout) = GNil
               then put_at a RequestTimeout (GString (tl_String tim (nc_reqTimeout ns))) h else h)
      in if val_of (v0 StartTimeKey) = GNil then put_at a StartTimeKey (GString (Itoa now)) h else h)"

lemma call_heap_vals: "gm_get (hp_map (call_heap a tim nuid now ns rt (gm_get (hp_map h a)) h) a) =
    call_vals tim nuid now ns rt (gm_get (hp_map h a))"
  by (simp add: call_heap_def call_vals_def Let_def)

lemma prepare_call_run:
  assumes "ctx_ok (Some p)" "ToMap (Some p) h = Ok (Some a, h1)" "gm_get (hp_map h1 a) = ctx_vals (Some p) h" "v0 = ctx_vals (Some p) h"
  shows "prepare_call tr mj tim nuid now ns (Some p) rt msg h =
    bind_outcome (buildRequest tr mj (Some (WithValue p PropagateCtxKey (CMap (Some a)))) rt msg (nc_server ns)
        (call_heap a tim nuid now ns rt v0 h1)) (\<lambda>(req, h2).
      Ok (req, val_of (call_vals tim nuid now ns rt v0 RequestTimeout), h2))"
proof -
  have get: "GetFromPropagateCtx (Some p) k g = Ok (val_of (v0 k))" if "gm_get (hp_map g a) k = v0 k" for g k
    using GetFromPropagateCtx_linked [OF assms(1,2)] that assms(4) by blast
  define h2 where "h2 = put_at a RouteKey (GString (route_String rt)) h1"
  define h3 where "h3 = (if val_of (v0 RequestIDKey) = GNil \<or> is_string (val_of (v0 RequestIDKey)) = Some ''''
      then put_at a RequestIDKey (GString nuid) h2 else h2)"
  define h4 where "h4 = (if val_of (v0 RequestTimeout) = GNil
      then put_at a RequestTimeout (GString (tl_String tim (nc_reqTimeout ns))) h3 else h3)"
  have g: "gm_get (hp_map h2 a) = v0(RouteKey \<mapsto> GString (route_String rt))" by (simp add: h2_def assms(3,4))
  have r: "GetFromPropagateCtx (Some p) RequestIDKey h2 = Ok (val_of (v0 RequestIDKey))"
    "GetFromPropagateCtx (Some p) RequestTimeout h3 = Ok (val_of (v0 RequestTimeout))"
    "GetFromPropagateCtx (Some p) StartTimeKey h4 = Ok (val_of (v0 StartTimeKey))"
    by (rule get; simp add: h4_def h3_def g ctx_keys)+
  have e1: "map_assign (Some a) RouteKey (GString (route_String rt)) h1 = Ok h2"
    by (simp add: h2_def map_assign_Some put_at_def)
  have rt: "val_of (call_vals tim nuid now ns rt v0 RequestTimeout) =
      (if val_of (v0 RequestTimeout) = GNil then GString (tl_String tim (nc_reqTimeout ns)) else val_of (v0 RequestTimeout))"
    by (simp add: call_vals_def Let_def ctx_keys)
  have e3: "(if val_of (v0 RequestTimeout) = GNil then map_assign (Some a) RequestTimeout
        (if val_of (v0 RequestTimeout) = GNil then GString (tl_String tim (nc_reqTimeout ns)) else val_of (v0 RequestTimeout)) h3
      else Ok h3) = Ok h4"
    by (simp add: h4_def map_assign_Some put_at_def)
  have e4: "(if val_of (v0 StartTimeKey) = GNil then map_assign (Some a) StartTimeKey (GString (Itoa now)) h4 else Ok h4) =
      Ok (call_heap a tim nuid now ns rt v0 h1)"
    by (simp only: assign_if call_heap_def Let_def h4_def h3_def h2_def)
  show ?thesis
    unfolding prepare_call_def assms(2) bind_outcome_simps prod.case e1 r(1)
    unfolding assign_if [where k = RequestIDKey] h3_def [symmetric] bind_outcome_simps r(2) Let_def e3 r(3) e4 rt
    by (simp add: ctx_WithValue_def)
qed

lemma prepare_call_vals:
  assumes "ctx_ok c"
  shows "\<exists>c' h'. prepare_call tr mj tim nuid now ns c rt msg h =
      bind_outcome (buildRequest tr mj (Some c') rt msg (nc_server ns) h') (\<lambda>(req, h2).
        Ok (req, val_of (call_vals tim nuid now ns rt (ctx_vals c h) RequestTimeout), h2)) \<and>
    ctx_ok (Some c') \<and> ctx_vals (Some c') h' = call_vals tim nuid now ns rt (ctx_vals c h) \<and>
    SpanFromContext (Some c') = SpanFromContext c \<and> call_context c h = Ok c' \<and> has_map (Some c')"
proof -
  obtain p where p: "c = Some p" using ctx_ok_Some [OF assms] by blast
  obtain a h1 where t: "ToMap c h = Ok (Some a, h1)" "gm_get (hp_map h1 a) = ctx_vals c h"
    using ToMap_vals [OF assms] by blast
  let ?c = "WithValue p PropagateCtxKey (CMap (Some a))" and ?h = "call_heap a tim nuid now ns rt (ctx_vals c h) h1"
  have "ctx_vals (Some ?c) ?h = call_vals tim nuid now ns rt (ctx_vals c h)"
    using call_heap_vals [of a tim nuid now ns rt h1] t(2) by (simp add: ctx_vals_def read_map_def)
  moreover have "ctx_ok (Some ?c)" "SpanFromContext (Some ?c) = SpanFromContext c" "call_context c h = Ok ?c" "has_map (Some ?c)"
    using t by (simp_all add: ctx_ok_def SpanFromContext_def p call_context_def ctx_WithValue_def has_map_def)
  ultimately show ?thesis
    using prepare_call_run [of p h a h1 "ctx_vals c h" tr mj tim nuid now ns rt msg] assms t p by blast
qed

text \<open>What the caller learns: send_call gives a response only when it carries no error.\<close>

lemma send_call_Ok:
  "send_call pl tim nv ns rt msg sv req t = Ok res \<Longrightarrow> ps_Error res = None"
  by (auto simp: send_call_def Let_def split: sum.splits if_splits option.splits)

section \<open>Properties\<close>


definition sample_tracer :: tracer where
  "sample_tracer = \<lparr>tr_Extract = \<lambda>_. Inr 0, tr_Inject = \<lambda>_. Inr [], tr_Context = (\<lambda>s. s), tr_StartSpan = \<lambda>_ _ _. 0\<rparr>"

definition sample_mapjson :: mapjson where
  "sample_mapjson = \<lparr>mj_marshal = \<lambda>_. Inr [1], mj_unmarshal = \<lambda>_. Inr (Some [])\<rparr>"

definition sample_proto :: protolib where
  "sample_proto = \<lparr>pl_marshal_req = \<lambda>_. Inr [1], pl_unmarshal_req = \<lambda>_. Inr \<lparr>pr_Msg = None, pr_Metadata = []\<rparr>,
     pl_marshal_resp = \<lambda>_. Inr [1], pl_unmarshal_resp = \<lambda>bs. Inr \<lparr>ps_Data = bs, ps_Error = None\<rparr>\<rparr>"

definition sample_time :: timelib where
  "sample_time = \<lparr>tl_String = \<lambda>_. ''5s'', tl_Parse = \<lambda>_. Inr 5000000000\<rparr>"

definition sample_server :: server where
  "sample_server = \<lparr>sv_ID = ''s1'', sv_Type = ''game'', sv_Metadata = [], sv_Hostname = ''h''\<rparr>"

definition sample_client :: NatsRPCClient where
  "sample_client = (case NewNatsRPCClient newDefaultNatsRPCClientConfig sample_server of Ok ns \<Rightarrow> ns\<lparr>nc_running := True\<rparr>)"

definition sample_msg :: message where
  "sample_msg = \<lparr>msg_Type = Request, msg_ID = 0, msg_Route = ''room.join'', msg_Data = [], msg_compressed = False, msg_Err = False\<rparr>"

lemma sample_prepared:
  "\<exists>req h1. prepare_call sample_tracer sample_mapjson sample_time ''n1'' 7 sample_client (Some (WithValue Background SpanKey (CSpan 0)))
      (NewRoute ''game'' ''room'' ''join'') sample_msg \<lparr>hp_next = 0, hp_map = \<lambda>_. []\<rparr> = Ok (req, GString ''5s'', h1)"
  by (simp add: prepare_call_def ToMap_def new_map_def map_assign_def GetFromPropagateCtx_def read_map_def Let_def
      ctx_WithValue_def buildRequest_def InjectSpan_def SpanFromContext_def sample_tracer_def AddToPropagateCtx_def
      ctx_Encode_def sample_mapjson_def sample_time_def gm_put_def gm_get_def gm_empty_def)

lemma sample_running: "nc_running sample_client"
  by (simp add: sample_client_def NewNatsRPCClient_def configure_client_def newDefaultNatsRPCClientConfig_def durations)


end
