(* ===== verification/RpcServer.thy ===== *)
theory RpcServer
  imports RpcClient
begin

text \<open>
  \<open>cluster/nats_rpc_server.go\<close>: receiving, checking, dispatching and answering requests. One
  definition handles one message of the loops of \<open>handleMessages\<close> and \<open>processMessages\<close>. The
  handler (\<open>service.RemoteService\<close>), the semaphore and the clock readings are arguments; what is
  published on NATS is in the results.
\<close>

section \<open>Library\<close>

text \<open>\<open>strconv.ParseInt(s, 10, 64)\<close>; \<open>None\<close> stands for its syntax and range errors.\<close>

definition digit_val :: "char \<Rightarrow> nat option" where
  "digit_val c = (if 48 \<le> (of_char c :: nat) \<and> (of_char c :: nat) \<le> 57 then Some (of_char c - 48) else None)"

fun parse_digits :: "string \<Rightarrow> nat \<Rightarrow> nat option" where
  "parse_digits [] n = Some n"
| "parse_digits (c # cs) n = (case digit_val c of None \<Rightarrow> None | Some d \<Rightarrow> parse_digits cs (10 * n + d))"

definition ParseInt :: "string \<Rightarrow> int option" where
  "ParseInt s =
     (let (neg, ds) =
        (case s of
           [] \<Rightarrow> (False, [])
         | c # cs \<Rightarrow> if c = CHR ''-'' then (True, cs) else if c = CHR ''+'' then (False, cs) else (False, s))
      in if ds = [] then None
         else case parse_digits ds 0 of
           None \<Rightarrow> None
         | Some n \<Rightarrow>
             let v = (if neg then - int n else int n) in
             if - (2 ^ 63) \<le> v \<and> v < 2 ^ 63 then Some v else None)"

section \<open>Data and construction\<close>

record NatsRPCServer =
  ns_service :: int
  ns_connString :: string
  ns_connectionTimeout :: int
  ns_maxReconnectionRetries :: int
  ns_server :: server
  ns_conn :: bool
  ns_messagesBufferSize :: int
  ns_handler :: bool
  ns_dropped :: int
  ns_websocketCompression :: bool
  ns_reconnectJitter :: int
  ns_reconnectJitterTLS :: int
  ns_reconnectWait :: int
  ns_pingInterval :: int
  ns_maxPingsOutstanding :: int
  ns_workerPool :: bool
  ns_sempWeighted :: "int option"
  ns_stopChan_closed :: bool
  ns_goroutines :: "string list"

text \<open>A negative channel or slice size makes \<open>make\<close> panic.\<close>

definition configure_server :: "NatsRPCServerConfig \<Rightarrow> NatsRPCServer \<Rightarrow> (goerror, unit) outcome \<times> NatsRPCServer" where
  "configure_server cfg ns =
     (let ns = ns\<lparr>ns_service := nsc_Services cfg, ns_connString := nsc_Connect cfg\<rparr> in
      if ns_connString ns = '''' then (Err ErrNoNatsConnectionString, ns)
      else
        let ns = ns\<lparr>ns_connectionTimeout := nsc_ConnectionTimeout cfg,
                    ns_maxReconnectionRetries := nsc_MaxReconnectionRetries cfg,
                    ns_messagesBufferSize := nsc_Buffer_Messages cfg\<rparr> in
        if ns_messagesBufferSize ns = 0 then (Err ErrNatsMessagesBufferSizeZero, ns)
        else if ns_messagesBufferSize ns < 0 then (Panic ''makechan: size out of range'', ns)
        else if ns_service ns < 0 then (Panic ''makeslice: len out of range'', ns)
        else
          (Ok (), ns\<lparr>ns_websocketCompression := nsc_WebsocketCompression cfg,
                     ns_reconnectJitter := nsc_ReconnectJitter cfg,
                     ns_reconnectJitterTLS := nsc_ReconnectJitterTLS cfg,
                     ns_reconnectWait := nsc_ReconnectWait cfg,
                     ns_pingInterval := nsc_PingInterval cfg,
                     ns_maxPingsOutstanding := nsc_MaxPingsOutstanding cfg,
                     ns_sempWeighted := (if nsc_Semaphore cfg > 0 then Some (nsc_Semaphore cfg) else ns_sempWeighted ns)\<rparr>))"

definition NewNatsRPCServer :: "NatsRPCServerConfig \<Rightarrow> server \<Rightarrow> bool \<Rightarrow> (goerror, NatsRPCServer) outcome" where
  "NewNatsRPCServer cfg sv workerPool =
     (case configure_server cfg
        \<lparr>ns_service = 0, ns_connString = '''', ns_connectionTimeout = nats_DefaultTimeout, ns_maxReconnectionRetries = 0,
         ns_server = sv, ns_conn = False, ns_messagesBufferSize = 0, ns_handler = False, ns_dropped = 0,
         ns_websocketCompression = False, ns_reconnectJitter = 0, ns_reconnectJitterTLS = 0, ns_reconnectWait = 0,
         ns_pingInterval = 0, ns_maxPingsOutstanding = 0, ns_workerPool = workerPool, ns_sempWeighted = None,
         ns_stopChan_closed = False, ns_goroutines = []\<rparr> of
        (Ok _, ns) \<Rightarrow> Ok ns
      | (Err e, _) \<Rightarrow> Err e
      | (Panic p, _) \<Rightarrow> Panic p)"

definition SetHandler :: "NatsRPCServer \<Rightarrow> NatsRPCServer" where
  "SetHandler ns = ns\<lparr>ns_handler := True\<rparr>"

definition SetWorkerPool :: "bool \<Rightarrow> NatsRPCServer \<Rightarrow> NatsRPCServer" where
  "SetWorkerPool pool ns = ns\<lparr>ns_workerPool := pool\<rparr>"

text \<open>
  \<open>Init\<close>: the receiving goroutine is started first, then the connection is made; the
  processing goroutines, one per configured service, only after a successful subscription.
\<close>

definition server_Init :: "goerror option \<Rightarrow> conn_event \<Rightarrow> goerror option \<Rightarrow> NatsRPCServer \<Rightarrow>
    (goerror, unit) outcome \<times> NatsRPCServer" where
  "server_Init connect_err ev subscribe_err ns =
     (let ns = ns\<lparr>ns_goroutines := ns_goroutines ns @ [''handleMessages'']\<rparr> in
      case setupNatsConn connect_err ev of
        Ok _ \<Rightarrow>
          (let ns = ns\<lparr>ns_conn := True\<rparr> in
           case subscribe_err of
             Some e \<Rightarrow> (Err e, ns)
           | None \<Rightarrow>
               (Ok (), ns\<lparr>ns_goroutines := ns_goroutines ns @ (if ns_workerPool ns then [''workerPool''] else [])
                   @ replicate (nat (ns_service ns)) ''processMessages''\<rparr>))
      | r \<Rightarrow> (r, ns))"

definition server_Shutdown :: "NatsRPCServer \<Rightarrow> (goerror, unit) outcome \<times> NatsRPCServer" where
  "server_Shutdown ns =
     (if ns_stopChan_closed ns then (Panic ''close of closed channel'', ns)
      else (Ok (), ns\<lparr>ns_stopChan_closed := True\<rparr>))"

section \<open>Receiving\<close>

text \<open>
  One message of \<open>handleMessages\<close>: the count of dropped messages is taken over when it has grown; a message
  that is no request is skipped (\<open>None\<close>); the reply subject is stored into the request's
  \<open>Msg\<close>, which may be missing.
\<close>

definition handle_message :: "protolib \<Rightarrow> int \<Rightarrow> bytes \<Rightarrow> string \<Rightarrow> NatsRPCServer \<Rightarrow>
    (goerror, p_request option) outcome \<times> NatsRPCServer" where
  "handle_message pl dropped data reply ns =
     (let ns = (if dropped > ns_dropped ns then ns\<lparr>ns_dropped := dropped\<rparr> else ns) in
      (case pl_unmarshal_req pl data of
         Inl _ \<Rightarrow> Ok None
       | Inr req \<Rightarrow>
           (case pr_Msg req of
              None \<Rightarrow> Panic nil_context
            | Some m \<Rightarrow> Ok (Some (req\<lparr>pr_Msg := Some (m\<lparr>pm_Reply := reply\<rparr>)\<rparr>))), ns))"

section \<open>Answering\<close>

definition marshalResponse :: "protolib \<Rightarrow> p_response \<Rightarrow> bytes \<times> goerror option" where
  "marshalResponse pl res =
     (case pl_marshal_resp pl res of
        Inl err \<Rightarrow>
          (case pl_marshal_resp pl (error_response ErrUnknownCode (err_Error err) []) of Inl _ \<Rightarrow> [] | Inr p \<Rightarrow> p, Some err)
      | Inr p \<Rightarrow> (p, map_option (\<lambda>pe. PlainError (pe_Msg pe)) (ps_Error res)))"

text \<open>What is published: the reply subject and the bytes. A request without \<open>Msg\<close> is dereferenced.\<close>

definition processResponse :: "protolib \<Rightarrow> p_request \<Rightarrow> p_response \<Rightarrow> (goerror, (string \<times> bytes) list) outcome" where
  "processResponse pl req resp =
     (case pr_Msg req of
        None \<Rightarrow> Panic nil_context
      | Some m \<Rightarrow>
          if pm_Type m = MsgType_MsgNotify then Ok []
          else Ok [(pm_Reply m, fst (marshalResponse pl resp))])"

section \<open>Processing\<close>

definition parseRequestTimeout :: "timelib \<Rightarrow> ctx option \<Rightarrow> heap \<Rightarrow> (goerror, int \<times> int) outcome" where
  "parseRequestTimeout tim c h =
     bind_outcome (GetFromPropagateCtx c StartTimeKey h) (\<lambda>reqStart.
     if reqStart = GNil then Err (PlainError ''rpc server process lost start time request'')
     else
       case is_string reqStart of
         None \<Rightarrow> Panic ''interface conversion''
       | Some s \<Rightarrow>
           (case ParseInt s of
              None \<Rightarrow> Err (PlainError ''rpc server process invalid start time request'')
            | Some startTimestamp \<Rightarrow>
                bind_outcome (GetFromPropagateCtx c RequestTimeout h) (\<lambda>reqTimeoutStr.
                if reqTimeoutStr = GNil then Err (PlainError ''rpc server process lost timeout request'')
                else
                  case is_string reqTimeoutStr of
                    None \<Rightarrow> Panic ''interface conversion''
                  | Some t \<Rightarrow>
                      (case tl_Parse tim t of
                         Inl e \<Rightarrow> Err (PlainError (''rpc server process invalid timeout request: '' @ e))
                       | Inr reqTimeout \<Rightarrow> Ok (startTimestamp, reqTimeout)))))"

text \<open>Go's division truncates towards zero.\<close>

definition go_half :: "int \<Rightarrow> int" where
  "go_half n = (if n < 0 then - ((- n) div 2) else n div 2)"

text \<open>
  \<open>processRequest\<close>: \<open>since\<close> is the time passed when the first check is made, \<open>fired\<close> whether the
  timer created by \<open>time.After\<close> has already fired when the select runs, which has a default case.
\<close>

definition processRequest :: "(p_request \<Rightarrow> p_response \<times> goerror option) \<Rightarrow> int \<Rightarrow> bool \<Rightarrow> p_request \<Rightarrow> int \<Rightarrow>
    p_response \<times> goerror option" where
  "processRequest handler_Call since fired req reqTimeout =
     (let timeout_res = error_response ErrRequestTimeoutCode ''rpc server process timeout'' [] in
      if since > go_half reqTimeout then (timeout_res, Some (PlainError ''rpc server process timeout''))
      else if fired then (timeout_res, Some (PlainError ''rpc server process timeout''))
      else handler_Call req)"

datatype dispatch = Replied "(string \<times> bytes) list" | Submitted string ctx int int | Spawned ctx int int

text \<open>One request of the loop of \<open>processMessages\<close>.\<close>

definition process_message :: "mapjson \<Rightarrow> protolib \<Rightarrow> timelib \<Rightarrow> string \<Rightarrow> NatsRPCServer \<Rightarrow> p_request \<Rightarrow> heap \<Rightarrow>
    (goerror, dispatch) outcome" where
  "process_message mj pl tim nuid ns req h =
     (case GetContextFromRequest mj nuid req h of
        Panic p \<Rightarrow> Panic p
      | Err err \<Rightarrow>
          bind_outcome (processResponse pl req (error_response ErrInternalCode (err_Error err) [])) (\<lambda>out. Ok (Replied out))
      | Ok (c, h) \<Rightarrow>
          (case parseRequestTimeout tim (Some c) h of
             Panic p \<Rightarrow> Panic p
           | Err err \<Rightarrow>
               bind_outcome (processResponse pl req (error_response ErrInternalCode (err_Error err) [])) (\<lambda>out. Ok (Replied out))
           | Ok (reqStartTime, timeout) \<Rightarrow>
               bind_outcome (GetFromPropagateCtx (Some c) ShareIDKey h) (\<lambda>shareIDVal.
               case is_string shareIDVal of
                 Some shareID \<Rightarrow>
                   if ns_workerPool ns \<and> shareID \<noteq> '''' then Ok (Submitted shareID c reqStartTime timeout)
                   else Ok (Spawned c reqStartTime timeout)
               | None \<Rightarrow> Ok (Spawned c reqStartTime timeout))))"

text \<open>The task handed to the worker pool.\<close>

definition pooled_task :: "protolib \<Rightarrow> (p_request \<Rightarrow> p_response \<times> goerror option) \<Rightarrow> int \<Rightarrow> bool \<Rightarrow> p_request \<Rightarrow> int \<Rightarrow>
    (goerror, (string \<times> bytes) list) outcome" where
  "pooled_task pl handler_Call since fired req timeout =
     processResponse pl req (fst (processRequest handler_Call since fired req timeout))"

text \<open>
  The spawned goroutine: without a semaphore \<open>Acquire\<close> dereferences nil; \<open>acquire_err\<close> is the error of
  waiting for it.
\<close>

definition spawned_task :: "protolib \<Rightarrow> (p_request \<Rightarrow> p_response \<times> goerror option) \<Rightarrow> NatsRPCServer \<Rightarrow> goerror option \<Rightarrow>
    int \<Rightarrow> bool \<Rightarrow> p_request \<Rightarrow> int \<Rightarrow> (goerror, (string \<times> bytes) list) outcome" where
  "spawned_task pl handler_Call ns acquire_err since fired req timeout =
     (case ns_sempWeighted ns of
        None \<Rightarrow> Panic nil_context
      | Some _ \<Rightarrow>
          (case acquire_err of
             Some err \<Rightarrow> processResponse pl req (error_response ErrTooManyRequestCode (err_Error err) [])
           | None \<Rightarrow> processResponse pl req (fst (processRequest handler_Call since fired req timeout))))"

section \<open>Lemmas\<close>

lemma digit_val_char [simp]: "d < 10 \<Longrightarrow> digit_val (char_of (48 + d)) = Some d"
  by (simp add: digit_val_def of_char_of take_bit_nat_eq_self)

lemma parse_digits_append:
  "parse_digits (xs @ ys) n = (case parse_digits xs n of None \<Rightarrow> None | Some k \<Rightarrow> parse_digits ys k)"
  by (induction xs arbitrary: n) (simp_all split: option.splits)

lemma parse_digits_digits: "parse_digits (digits n) 0 = Some n"
proof (induction n rule: digits.induct)
  case (1 n)
  show ?case
  proof (cases "n < 10")
    case True
    then show ?thesis by (simp add: digits.simps [of n])
  next
    case False
    then have "digits n = digits (n div 10) @ [char_of (48 + n mod 10)]"
      by (simp add: digits.simps [of n])
    then show ?thesis using 1 [OF False] by (simp add: parse_digits_append)
  qed
qed

lemma digits_not_Nil [simp]: "digits n \<noteq> []"
  by (subst digits.simps) simp

lemma digits_first: "digits n = c # cs \<Longrightarrow> c \<noteq> CHR ''-'' \<and> c \<noteq> CHR ''+''"
proof -
  assume a: "digits n = c # cs"
  have "digit_val c \<noteq> None"
    using parse_digits_digits [of n] by (auto simp: a split: option.splits)
  then show ?thesis by (auto simp: digit_val_def)
qed

lemma ParseInt_Itoa: "- (2 ^ 63) \<le> n \<Longrightarrow> n < 2 ^ 63 \<Longrightarrow> ParseInt (Itoa n) = Some n"
proof (cases "n < 0")
  case True
  assume "- (2 ^ 63) \<le> n"
  then show ?thesis using True by (simp add: ParseInt_def Itoa_def parse_digits_digits)
next
  case False
  assume "n < 2 ^ 63"
  obtain c cs where d: "digits (nat n) = c # cs" by (cases "digits (nat n)") simp_all
  have "parse_digits (c # cs) 0 = Some (nat n)" using parse_digits_digits [of "nat n"] d by simp
  then show ?thesis
    using False d digits_first [OF d] \<open>n < 2 ^ 63\<close> by (simp add: ParseInt_def Itoa_def del: parse_digits.simps)
qed

lemma processResponse_one:
  "pr_Msg req = Some m \<Longrightarrow> processResponse pl req resp =
     Ok (if pm_Type m = MsgType_MsgNotify then [] else [(pm_Reply m, fst (marshalResponse pl resp))])"
  by (simp add: processResponse_def)

text \<open>
  The context the server works with, for a request the client has prepared: it has the values the client
  sent, the start time and the timeout among them, so that the time checks succeed.
\<close>

lemma prepared_request:
  assumes "ctx_ok c" "SpanFromContext c = Ok (Some s)" "tr_Inject tr (tr_Context tr s) = Inr d"
    and "ctx_vals c h RequestTimeout = None" "ctx_vals c h StartTimeKey = None"
    and sent: "sent = (call_vals tim nuid now ns rt (ctx_vals c h))(SpanPropagateCtxKey \<mapsto> GCarrier d,
           PeerIDKey \<mapsto> GString (sv_ID (nc_server ns)), PeerServiceKey \<mapsto> GString (sv_Type (nc_server ns)))"
    and "\<And>m. gm_get m = sent \<Longrightarrow> mj_lossless mj m"
    and "tl_Parse tim (tl_String tim (nc_reqTimeout ns)) = Inr (nc_reqTimeout ns)"
    and "- (2 ^ 63) \<le> now" "now < 2 ^ 63"
  shows "\<exists>req h1 c2 g2. prepare_call tr mj tim nuid now ns c rt msg h = Ok (req, GString (tl_String tim (nc_reqTimeout ns)), h1) \<and>
    GetContextFromRequest mj nuid' req g = Ok (c2, g2) \<and> ctx_ok (Some c2) \<and>
    parseRequestTimeout tim (Some c2) g2 = Ok (now, nc_reqTimeout ns) \<and>
    (\<forall>k. k \<noteq> RequestIDKey \<longrightarrow> k \<noteq> RouteKey \<longrightarrow> ctx_vals (Some c2) g2 k = sent k)"
proof -
  let ?cv = "call_vals tim nuid now ns rt (ctx_vals c h)"
  obtain c1 h1 where p: "prepare_call tr mj tim nuid now ns c rt msg h =
      bind_outcome (buildRequest tr mj (Some c1) rt msg (nc_server ns) h1) (\<lambda>(req, h2). Ok (req, val_of (?cv RequestTimeout), h2))"
    "ctx_ok (Some c1)" "ctx_vals (Some c1) h1 = ?cv" "SpanFromContext (Some c1) = SpanFromContext c"
    using prepare_call_vals [OF assms(1)] by blast
  have "sent = (?cv(SpanPropagateCtxKey \<mapsto> GCarrier d))(PeerIDKey \<mapsto> GString (sv_ID (nc_server ns)), PeerServiceKey \<mapsto> GString (sv_Type (nc_server ns)))"
    by (simp add: sent)
  from buildRequest_vals [where c = "Some c1" and h = h1 and tr = tr and mj = mj and rt = rt and msg = msg and
      sv = "nc_server ns" and g = g and sent = sent and vals = "?cv(SpanPropagateCtxKey \<mapsto> GCarrier d)"]
    this p(2-4) assms(2,3,7)
  obtain req h2 a g1 where b: "buildRequest tr mj (Some c1) rt msg (nc_server ns) h1 = Ok (req, h2)"
    "ctx_Decode mj (pr_Metadata req) g = Ok (Some (FromMap (Some a)), g1)" "ctx_vals (Some (FromMap (Some a))) g1 = sent"
    by auto
  obtain c2 g2 where r: "GetContextFromRequest mj nuid' req g = Ok (c2, g2)" "ctx_ok (Some c2)"
    "ctx_vals (Some c2) g2 = (if is_string (val_of (sent RequestIDKey)) \<in> {None, Some ''''} then sent(RequestIDKey \<mapsto> GString nuid')
       else sent)(RouteKey \<mapsto> GString (pm_Route (GetMsg req)))"
    using GetContextFromRequest_vals [OF b(2) b(3) [symmetric]] by blast
  have v: "ctx_vals (Some c2) g2 k = sent k" if "k \<noteq> RequestIDKey" "k \<noteq> RouteKey" for k using that by (simp add: r(3))
  have s: "sent StartTimeKey = Some (GString (Itoa now))" "sent RequestTimeout = Some (GString (tl_String tim (nc_reqTimeout ns)))"
    using assms(4,5) by (simp_all add: sent call_vals_def Let_def ctx_keys)
  have "ctx_vals (Some c2) g2 StartTimeKey = Some (GString (Itoa now))"
    "ctx_vals (Some c2) g2 RequestTimeout = Some (GString (tl_String tim (nc_reqTimeout ns)))"
    using s v by (simp_all add: ctx_keys)
  then have "parseRequestTimeout tim (Some c2) g2 = Ok (now, nc_reqTimeout ns)"
    using ParseInt_Itoa [OF assms(9,10)] assms(8)
    by (simp add: parseRequestTimeout_def GetFromPropagateCtx_vals [OF r(2)] is_string_def)
  moreover have "val_of (?cv RequestTimeout) = GString (tl_String tim (nc_reqTimeout ns))"
    using assms(4) by (simp add: call_vals_def Let_def ctx_keys)
  ultimately show ?thesis using p(1) b(1) r(1,2) v by auto
qed

section \<open>Properties\<close>


definition sample_sent :: "(string, gval) gomap" where
  "sample_sent =
     [(PeerServiceKey, GString ''game''), (PeerIDKey, GString ''s1''), (SpanPropagateCtxKey, GCarrier []),
      (StartTimeKey, GString (Itoa 7)), (RequestTimeout, GString ''5s''), (RequestIDKey, GString ''n1''),
      (RouteKey, GString ''game.room.join'')]"

definition sample_codec :: mapjson where
  "sample_codec = \<lparr>mj_marshal = \<lambda>_. Inr [1], mj_unmarshal = \<lambda>_. Inr (Some sample_sent)\<rparr>"



definition sample_req :: p_request where
  "sample_req = \<lparr>pr_Msg = Some \<lparr>pm_Id = 0, pm_Route = ''a.b'', pm_Data = [], pm_Reply = ''r'', pm_Type = 1\<rparr>, pr_Metadata = []\<rparr>"

definition sample_rpcserver :: NatsRPCServer where
  "sample_rpcserver = (case NewNatsRPCServer newDefaultNatsRPCServerConfig sample_server True of Ok ns \<Rightarrow> ns)"

lemma sample_semaphore: "ns_sempWeighted sample_rpcserver = Some 256"
  by (simp add: sample_rpcserver_def NewNatsRPCServer_def configure_server_def newDefaultNatsRPCServerConfig_def)


text \<open>
  What brings the server down. A received request without a \<open>Msg\<close> panics in the receiving
  goroutine; metadata that decodes to JSON null panics in the processing goroutine; and a server whose
  configuration has no positive semaphore panics at the first request outside the worker pool.
\<close>

lemma server_crashes:
  assumes "NewNatsRPCServer cfg sv wp = Ok ns" "nsc_Semaphore cfg \<le> 0"
    and "pl_unmarshal_req pl data = Inr \<lparr>pr_Msg = None, pr_Metadata = md\<rparr>"
    and "md \<noteq> []" "mj_unmarshal mj md = Inr None"
  shows "is_panic (fst (handle_message pl dropped data reply ns)) \<and>
    is_panic (process_message mj pl tim nuid ns \<lparr>pr_Msg = Some m, pr_Metadata = md\<rparr> h) \<and>
    is_panic (spawned_task pl handler ns acquire_err since fired req timeout)"
proof -
  have "ns_sempWeighted ns = None"
    using assms(1,2) by (auto simp: NewNatsRPCServer_def configure_server_def Let_def split: if_splits)
  moreover have "GetContextFromRequest mj nuid \<lparr>pr_Msg = Some m, pr_Metadata = md\<rparr> h = Panic ''assignment to entry in nil map''"
    using assms(4,5)
    by (simp add: GetContextFromRequest_def ctx_Decode_def GetFromPropagateCtx_map FromMap_def read_map_def
        is_string_def AddToPropagateCtx_def ToMap_def map_assign_def)
  ultimately show ?thesis
    using assms(3) by (simp add: handle_message_def Let_def process_message_def spawned_task_def)
qed

end
