(* ===== verification/Metrics.thy ===== *)
theory Metrics
  imports RpcServer
begin

text \<open>
  \<open>metrics/\<close>: the reports of the framework (\<open>report.go\<close>, and \<open>reportMetrics\<close> of the RPC server) and the two
  reporters, Prometheus and statsd. The Prometheus client library is a parameter: which label maps \<open>With\<close>
  accepts for a vector with given label names (it panics on the others), and which collectors can be
  registered together. A vector keeps the observations made on it; the statsd client keeps what was sent.
  Label maps are Go maps that the Prometheus reporter completes in place, so a report returns the map it leaves.
  Float values are real numbers.
\<close>

section \<open>Names\<close>

definition ResponseTime :: string where "ResponseTime = ''response_time_ns''"
definition ConnectedClients :: string where "ConnectedClients = ''connected_clients''"
definition CountServers :: string where "CountServers = ''count_servers''"
definition ChannelCapacity :: string where "ChannelCapacity = ''channel_capacity''"
definition DroppedMessages :: string where "DroppedMessages = ''dropped_messages''"
definition ProcessDelay :: string where "ProcessDelay = ''handler_delay_ns''"
definition Goroutines :: string where "Goroutines = ''goroutines''"
definition HeapSize :: string where "HeapSize = ''heapsize''"
definition HeapObjects :: string where "HeapObjects = ''heapobjects''"
definition WorkerJobsTotal :: string where "WorkerJobsTotal = ''worker_jobs_total''"
definition WorkerJobsRetry :: string where "WorkerJobsRetry = ''worker_jobs_retry_total''"
definition WorkerQueueSize :: string where "WorkerQueueSize = ''worker_queue_size''"
definition ExceededRateLimiting :: string where "ExceededRateLimiting = ''exceeded_rate_limiting''"

lemmas metric_names = ResponseTime_def ConnectedClients_def CountServers_def ChannelCapacity_def DroppedMessages_def
  ProcessDelay_def Goroutines_def HeapSize_def HeapObjects_def WorkerJobsTotal_def WorkerJobsRetry_def
  WorkerQueueSize_def ExceededRateLimiting_def

section \<open>Prometheus\<close>

type_synonym labels = "(string, string) gomap"

text \<open>The options of a vector, its variable label names, and the observations made on it.\<close>

datatype shape = PlainShape | ObjectivesShape "(real, real) gomap" | BucketsShape "real list"

record vec =
  vc_Namespace :: string
  vc_Subsystem :: string
  vc_Name :: string
  vc_Help :: string
  vc_Shape :: shape
  vc_ConstLabels :: labels
  vc_LabelNames :: "string list"
  vc_samples :: "(labels \<times> real) list"

definition new_vec :: "string \<Rightarrow> string \<Rightarrow> string \<Rightarrow> string \<Rightarrow> shape \<Rightarrow> labels \<Rightarrow> string list \<Rightarrow> vec" where
  "new_vec namespace subsystem name help sh constLabels names =
     \<lparr>vc_Namespace = namespace, vc_Subsystem = subsystem, vc_Name = name, vc_Help = help, vc_Shape = sh,
      vc_ConstLabels = constLabels, vc_LabelNames = names, vc_samples = []\<rparr>"

record promlib =
  pm_With :: "string list \<Rightarrow> labels \<Rightarrow> bool"
  pm_MustRegister :: "vec list \<Rightarrow> bool"

record PrometheusReporter =
  prr_app :: string
  prr_serverType :: string
  prr_countReportersMap :: "(string, vec) gomap"
  prr_summaryReportersMap :: "(string, vec) gomap"
  prr_histogramReportersMap :: "(string, vec) gomap"
  prr_gaugeReportersMap :: "(string, vec) gomap"
  prr_additionalLabels :: labels

definition registerCustomMetrics :: "labels \<Rightarrow> string list \<Rightarrow> CustomMetricsSpec \<Rightarrow> PrometheusReporter \<Rightarrow> PrometheusReporter" where
  "registerCustomMetrics constLabels additionalLabelsKeys spec p =
     (let namespace = (if prr_app p \<noteq> '''' then prr_app p @ ''.'' @ prr_serverType p else prr_serverType p) in
      p\<lparr>prr_summaryReportersMap :=
          fold (\<lambda>s. gm_put (mS_Name s) (new_vec namespace (mS_Subsystem s) (mS_Name s) (mS_Help s) (ObjectivesShape (mS_Objectives s))
            constLabels (additionalLabelsKeys @ mS_Labels s))) (spec_Summaries spec) (prr_summaryReportersMap p),
        prr_histogramReportersMap :=
          fold (\<lambda>s. gm_put (mH_Name s) (new_vec namespace (mH_Subsystem s) (mH_Name s) (mH_Help s) (BucketsShape (mH_Buckets s))
            constLabels (additionalLabelsKeys @ mH_Labels s))) (spec_Histograms spec) (prr_histogramReportersMap p),
        prr_gaugeReportersMap :=
          fold (\<lambda>s. gm_put (mG_Name s) (new_vec namespace (mG_Subsystem s) (mG_Name s) (mG_Help s) PlainShape
            constLabels (additionalLabelsKeys @ mG_Labels s))) (spec_Gauges spec) (prr_gaugeReportersMap p),
        prr_countReportersMap :=
          fold (\<lambda>s. gm_put (mC_Name s) (new_vec namespace (mC_Subsystem s) (mC_Name s) (mC_Help s) PlainShape
            constLabels (additionalLabelsKeys @ mC_Labels s))) (spec_Counters spec) (prr_countReportersMap p)\<rparr>)"

text \<open>
  \<open>registerMetrics\<close>: a nil map of constant labels panics. The histograms are collected for registration before the
  framework's own histogram is added, so that this one is never registered. The result has the
  completed constant labels, which are the caller's map.
\<close>

definition responseLabels :: "string list" where
  "responseLabels = [''route'', ''status'', ''type'', ''code'']"

definition objectives :: shape where
  "objectives = ObjectivesShape [(7 / 10, 2 / 100), (95 / 100, 5 / 1000), (99 / 100, 1 / 1000)]"

definition framework_gauges :: "labels \<Rightarrow> string list \<Rightarrow> (string \<times> vec) list" where
  "framework_gauges constLabels keys =
     [(ConnectedClients, new_vec ''nrpc'' ''acceptor'' ConnectedClients ''the number of clients connected right now'' PlainShape constLabels keys),
      (CountServers, new_vec ''nrpc'' ''service_discovery'' CountServers ''the number of discovered servers by service discovery''
         PlainShape constLabels ([''type''] @ keys)),
      (ChannelCapacity, new_vec ''nrpc'' ''channel'' ChannelCapacity ''the available capacity of the channel''
         PlainShape constLabels ([''channel''] @ keys)),
      (DroppedMessages, new_vec ''nrpc'' ''rpc_server'' DroppedMessages
         ''the number of rpc server dropped messages (messages that are not handled)'' PlainShape constLabels keys),
      (Goroutines, new_vec ''nrpc'' ''sys'' Goroutines ''the current number of goroutines'' PlainShape constLabels keys),
      (HeapSize, new_vec ''nrpc'' ''sys'' HeapSize ''the current heap size'' PlainShape constLabels keys),
      (HeapObjects, new_vec ''nrpc'' ''sys'' HeapObjects ''the current number of allocated heap objects'' PlainShape constLabels keys),
      (WorkerJobsRetry, new_vec ''nrpc'' ''worker'' WorkerJobsRetry ''the current number of job retries'' PlainShape constLabels keys),
      (WorkerQueueSize, new_vec ''nrpc'' ''worker'' WorkerQueueSize ''the current queue size''
         PlainShape constLabels ([''queue''] @ keys)),
      (WorkerJobsTotal, new_vec ''nrpc'' ''worker'' WorkerJobsTotal ''the total executed jobs''
         PlainShape constLabels ([''status''] @ keys))]"

definition registerMetrics :: "promlib \<Rightarrow> labels option \<Rightarrow> labels \<Rightarrow> CustomMetricsSpec \<Rightarrow> PrometheusReporter \<Rightarrow>
    (goerror, PrometheusReporter \<times> labels) outcome" where
  "registerMetrics lib constLabels additionalLabels spec p =
     (case constLabels of
        None \<Rightarrow> Panic ''assignment to entry in nil map''
      | Some cl \<Rightarrow>
          let cl = gm_put ''serverType'' (prr_serverType p) (gm_put ''app'' (prr_app p) cl);
              keys = gm_keys additionalLabels;
              p = registerCustomMetrics cl keys spec (p\<lparr>prr_additionalLabels := additionalLabels\<rparr>);
              toRegister = gm_vals (prr_histogramReportersMap p);
              p = p\<lparr>prr_summaryReportersMap :=
                  gm_put ProcessDelay (new_vec ''nrpc'' ''handler'' ProcessDelay ''the delay to start processing a msg in nanoseconds''
                    objectives cl ([''route'', ''type''] @ keys))
                  (gm_put ResponseTime (new_vec ''nrpc'' ''handler'' ResponseTime ''the time to process a msg in nanoseconds''
                    objectives cl (responseLabels @ keys)) (prr_summaryReportersMap p)),
                prr_histogramReportersMap :=
                  gm_put ResponseTime (new_vec ''nrpc'' ''handler'' ResponseTime ''the time to process a msg in nanoseconds''
                    (BucketsShape [1, 5, 10, 50, 100, 300, 500, 1000, 5000, 10000]) cl (responseLabels @ keys)) (prr_histogramReportersMap p),
                prr_gaugeReportersMap := fold (\<lambda>(n, v). gm_put n v) (framework_gauges cl keys) (prr_gaugeReportersMap p),
                prr_countReportersMap :=
                  gm_put ExceededRateLimiting (new_vec ''nrpc'' ''acceptor'' ExceededRateLimiting
                    ''the number of blocked requests by exceeded rate limiting'' PlainShape cl keys) (prr_countReportersMap p)\<rparr>;
              toRegister = toRegister @ gm_vals (prr_countReportersMap p) @ gm_vals (prr_gaugeReportersMap p) @
                gm_vals (prr_summaryReportersMap p)
          in if pm_MustRegister lib toRegister then Ok (p, cl) else Panic ''duplicate metrics collector registration attempted'')"

text \<open>The reporter is made once: later calls get the first one, whatever they ask for.\<close>

definition getPrometheusReporter :: "promlib \<Rightarrow> string \<Rightarrow> MetricsConfig \<Rightarrow> CustomMetricsSpec \<Rightarrow> PrometheusReporter option \<Rightarrow>
    (goerror, PrometheusReporter \<times> MetricsConfig) outcome" where
  "getPrometheusReporter lib serverType cfg metricsSpecs prometheusReporter =
     (case prometheusReporter of
        Some p \<Rightarrow> Ok (p, cfg)
      | None \<Rightarrow>
          bind_outcome (registerMetrics lib (mc_ConstLabels cfg) (mc_AdditionalLabels cfg) metricsSpecs
            \<lparr>prr_app = mc_App cfg, prr_serverType = serverType, prr_countReportersMap = gm_empty,
             prr_summaryReportersMap = gm_empty, prr_histogramReportersMap = gm_empty, prr_gaugeReportersMap = gm_empty,
             prr_additionalLabels = gm_empty\<rparr>) (\<lambda>(p, cl). Ok (p, cfg\<lparr>mc_ConstLabels := Some cl\<rparr>)))"

text \<open>\<open>GetPrometheusReporter\<close>; the variable of the package is the last argument.\<close>

definition GetPrometheusReporter :: "promlib \<Rightarrow> string \<Rightarrow> MetricsConfig \<Rightarrow> CustomMetricsSpec \<Rightarrow> PrometheusReporter option \<Rightarrow>
    (goerror, PrometheusReporter \<times> MetricsConfig) outcome" where
  [simp]: "GetPrometheusReporter lib serverType cfg metricsSpecs prometheusReporter =
     getPrometheusReporter lib serverType cfg metricsSpecs prometheusReporter"

definition ensureLabels :: "labels \<Rightarrow> PrometheusReporter \<Rightarrow> labels" where
  "ensureLabels ls p =
     fold (\<lambda>(key, defaultVal) ls. if gm_get ls key = None then gm_put key defaultVal ls else ls) (prr_additionalLabels p) ls"

text \<open>
  What the four report methods share: an unknown metric is an error; otherwise the labels are completed and
  the value is added to the vector, unless \<open>With\<close> panics on them.
\<close>

definition observe :: "promlib \<Rightarrow> string \<Rightarrow> labels \<Rightarrow> real \<Rightarrow> PrometheusReporter \<Rightarrow> (string, vec) gomap \<Rightarrow>
    (goerror, labels \<times> (string, vec) gomap) outcome" where
  "observe lib metric ls value p vecs =
     (case gm_get vecs metric of
        None \<Rightarrow> Err ErrMetricNotKnown
      | Some v \<Rightarrow>
          let ls = ensureLabels ls p in
          if pm_With lib (vc_LabelNames v) ls
          then Ok (ls, gm_put metric (v\<lparr>vc_samples := vc_samples v @ [(ls, value)]\<rparr>) vecs)
          else Panic ''inconsistent label cardinality'')"

datatype report_kind = SummaryReport | HistogramReport | CountReport | GaugeReport

definition prom_report :: "promlib \<Rightarrow> report_kind \<Rightarrow> string \<Rightarrow> labels \<Rightarrow> real \<Rightarrow> PrometheusReporter \<Rightarrow>
    (goerror, labels \<times> PrometheusReporter) outcome" where
  "prom_report lib kind metric ls value p =
     (case kind of
        SummaryReport \<Rightarrow> bind_outcome (observe lib metric ls value p (prr_summaryReportersMap p))
          (\<lambda>(ls, vs). Ok (ls, p\<lparr>prr_summaryReportersMap := vs\<rparr>))
      | HistogramReport \<Rightarrow> bind_outcome (observe lib metric ls value p (prr_histogramReportersMap p))
          (\<lambda>(ls, vs). Ok (ls, p\<lparr>prr_histogramReportersMap := vs\<rparr>))
      | CountReport \<Rightarrow> bind_outcome (observe lib metric ls value p (prr_countReportersMap p))
          (\<lambda>(ls, vs). Ok (ls, p\<lparr>prr_countReportersMap := vs\<rparr>))
      | GaugeReport \<Rightarrow> bind_outcome (observe lib metric ls value p (prr_gaugeReportersMap p))
          (\<lambda>(ls, vs). Ok (ls, p\<lparr>prr_gaugeReportersMap := vs\<rparr>)))"

section \<open>Statsd\<close>

text \<open>The client: what sending gives. \<open>Count\<close> takes an integer: the value is cut off towards zero.\<close>

type_synonym statsd_client = "report_kind \<Rightarrow> string \<Rightarrow> real \<Rightarrow> string list \<Rightarrow> real \<Rightarrow> goerror option"

record StatsdReporter =
  st_rate :: real
  st_serverType :: string
  st_defaultTags :: "string list"
  st_sent :: "(report_kind \<times> string \<times> real \<times> string list) list"

definition tag :: "string \<times> string \<Rightarrow> string" where
  "tag kv = fst kv @ '':'' @ snd kv"

definition buildDefaultTags :: "labels \<Rightarrow> StatsdReporter \<Rightarrow> StatsdReporter" where
  "buildDefaultTags tagsMap s = s\<lparr>st_defaultTags := (''serverType:'' @ st_serverType s) # map tag tagsMap\<rparr>"

text \<open>\<open>client_err\<close>: the error of creating the client when none is given.\<close>

definition newStatsdReporter :: "goerror option \<Rightarrow> MetricsConfig \<Rightarrow> string \<Rightarrow> (goerror, StatsdReporter) outcome" where
  "newStatsdReporter client_err cfg serverType =
     (let sr = buildDefaultTags (case mc_ConstLabels cfg of Some cl \<Rightarrow> cl | None \<Rightarrow> [])
        \<lparr>st_rate = sc_Rate (mc_Statsd cfg), st_serverType = serverType, st_defaultTags = [], st_sent = []\<rparr> in
      case client_err of Some err \<Rightarrow> Err err | None \<Rightarrow> Ok sr)"

definition NewStatsdReporter :: "goerror option \<Rightarrow> MetricsConfig \<Rightarrow> string \<Rightarrow> (goerror, StatsdReporter) outcome" where
  [simp]: "NewStatsdReporter client_err cfg serverType = newStatsdReporter client_err cfg serverType"

definition int64_of :: "real \<Rightarrow> real" where
  "int64_of x = (if 0 \<le> x then of_int \<lfloor>x\<rfloor> else of_int \<lceil>x\<rceil>)"

definition statsd_report :: "statsd_client \<Rightarrow> report_kind \<Rightarrow> string \<Rightarrow> labels \<Rightarrow> real \<Rightarrow> StatsdReporter \<Rightarrow>
    (goerror, labels \<times> StatsdReporter) outcome" where
  "statsd_report client kind metric tagsMap value s =
     (if kind = HistogramReport then Err ErrNotImplemented
      else
        let fullTags = st_defaultTags s @ map tag tagsMap;
            value = (if kind = CountReport then int64_of value else value) in
        case client kind metric value fullTags (st_rate s) of
          Some err \<Rightarrow> Err err
        | None \<Rightarrow> Ok (tagsMap, s\<lparr>st_sent := st_sent s @ [(kind, metric, value, fullTags)]\<rparr>))"

section \<open>Reports of the framework\<close>

datatype Reporter = Prometheus PrometheusReporter | Statsd StatsdReporter

definition report :: "promlib \<Rightarrow> statsd_client \<Rightarrow> report_kind \<Rightarrow> string \<Rightarrow> labels \<Rightarrow> real \<Rightarrow> Reporter \<Rightarrow>
    (goerror, labels \<times> Reporter) outcome" where
  "report lib client kind metric ls value r =
     (case r of
        Prometheus p \<Rightarrow> bind_outcome (prom_report lib kind metric ls value p) (\<lambda>(ls, p). Ok (ls, Prometheus p))
      | Statsd s \<Rightarrow> bind_outcome (statsd_report client kind metric ls value s) (\<lambda>(ls, s). Ok (ls, Statsd s)))"

text \<open>
  A loop over the reporters that drops errors. The label map is the same for all of them, so what one
  reporter adds the next one sees.
\<close>

fun report_all :: "promlib \<Rightarrow> statsd_client \<Rightarrow> report_kind \<Rightarrow> string \<Rightarrow> labels \<Rightarrow> real \<Rightarrow> Reporter list \<Rightarrow>
    (goerror, Reporter list) outcome" where
  "report_all lib client kind metric ls value [] = Ok []"
| "report_all lib client kind metric ls value (r # rs) =
     (case report lib client kind metric ls value r of
        Panic p \<Rightarrow> Panic p
      | Err _ \<Rightarrow> bind_outcome (report_all lib client kind metric ls value rs) (\<lambda>rs. Ok (r # rs))
      | Ok (ls, r) \<Rightarrow> bind_outcome (report_all lib client kind metric ls value rs) (\<lambda>rs. Ok (r # rs)))"

text \<open>A loop with new labels for every reporter.\<close>

fun report_each :: "promlib \<Rightarrow> statsd_client \<Rightarrow> (report_kind \<times> string \<times> labels \<times> real) list \<Rightarrow> Reporter \<Rightarrow>
    (goerror, Reporter) outcome" where
  "report_each lib client [] r = Ok r"
| "report_each lib client ((kind, metric, ls, value) # reps) r =
     (case report lib client kind metric ls value r of
        Panic p \<Rightarrow> Panic p
      | Err _ \<Rightarrow> report_each lib client reps r
      | Ok (_, r) \<Rightarrow> report_each lib client reps r)"

fun map_outcome :: "('a \<Rightarrow> (goerror, 'b) outcome) \<Rightarrow> 'a list \<Rightarrow> (goerror, 'b list) outcome" where
  "map_outcome f [] = Ok []"
| "map_outcome f (x # xs) = bind_outcome (f x) (\<lambda>y. bind_outcome (map_outcome f xs) (\<lambda>ys. Ok (y # ys)))"

definition ReportNumberOfConnectedClients where
  "ReportNumberOfConnectedClients lib client number reporters =
     map_outcome (report_each lib client [(GaugeReport, ConnectedClients, gm_empty, real_of_int number)]) reporters"

text \<open>One round of the endless loop of \<open>ReportSysMetrics\<close>.\<close>

definition ReportSysMetrics where
  "ReportSysMetrics lib client num alloc objects reporters =
     map_outcome (report_each lib client
       [(GaugeReport, Goroutines, gm_empty, real_of_int num), (GaugeReport, HeapSize, gm_empty, real_of_int alloc),
        (GaugeReport, HeapObjects, gm_empty, real_of_int objects)]) reporters"

definition ReportExceededRateLimiting where
  "ReportExceededRateLimiting lib client reporters =
     map_outcome (report_each lib client [(CountReport, ExceededRateLimiting, gm_empty, 1)]) reporters"

definition server_reportMetrics :: "promlib \<Rightarrow> statsd_client \<Rightarrow> int \<Rightarrow> NatsRPCServer \<Rightarrow> Reporter list \<Rightarrow> (goerror, Reporter list) outcome" where
  "server_reportMetrics lib client queued ns reporters =
     map_outcome (report_each lib client
       [(GaugeReport, DroppedMessages, gm_empty, real_of_int (ns_dropped ns)),
        (GaugeReport, ChannelCapacity, [(''channel'', ''rpc_server_subchan'')], real_of_int (ns_messagesBufferSize ns - queued))]) reporters"

definition tagsFromContext :: "ctx option \<Rightarrow> heap \<Rightarrow> (goerror, labels) outcome" where
  "tagsFromContext c h =
     bind_outcome (GetFromPropagateCtx c MetricTagsKey h) (\<lambda>val.
     Ok (case val of GTags tags \<Rightarrow> tags | _ \<Rightarrow> gm_empty))"

definition getTags :: "ctx option \<Rightarrow> labels \<Rightarrow> heap \<Rightarrow> (goerror, labels) outcome" where
  "getTags c tags h = bind_outcome (tagsFromContext c h) (\<lambda>ct. Ok (fold (\<lambda>(k, v). gm_put k v) ct tags))"

text \<open>The value part of \<open>strconv.ParseInt\<close>, whose error is dropped: 0 on a syntax error, the limit when out of range.\<close>

fun parse_uint :: "string \<Rightarrow> nat \<Rightarrow> nat" where
  "parse_uint [] n = n"
| "parse_uint (c # cs) n =
     (case digit_val c of
        None \<Rightarrow> 0
      | Some d \<Rightarrow> if 2 ^ 64 \<le> 10 * n + d then 2 ^ 64 - 1 else parse_uint cs (10 * n + d))"

definition ParseInt_value :: "string \<Rightarrow> int" where
  "ParseInt_value s =
     (let (neg, ds) =
        (case s of
           [] \<Rightarrow> (False, [])
         | c # cs \<Rightarrow> if c = CHR ''-'' then (True, cs) else if c = CHR ''+'' then (False, cs) else (False, s));
          n = int (parse_uint ds 0)
      in if neg then max (- (2 ^ 63)) (- n) else min (2 ^ 63 - 1) n)"

text \<open>\<open>time.Since\<close> saturates at the limits of a duration.\<close>

definition time_Since :: "int \<Rightarrow> int \<Rightarrow> int" where
  "time_Since now t = max (- (2 ^ 63)) (min (2 ^ 63 - 1) (now - t))"

definition ReportTimingFromCtx :: "promlib \<Rightarrow> statsd_client \<Rightarrow> int \<Rightarrow> ctx option \<Rightarrow> string \<Rightarrow> err_iface \<Rightarrow> heap \<Rightarrow>
    Reporter list \<Rightarrow> (goerror, Reporter list) outcome" where
  "ReportTimingFromCtx lib client now c ty err h reporters =
     (if c = None then Ok reporters
      else if reporters = [] then Ok reporters
      else
        bind_outcome (GetFromPropagateCtx c StartTimeKey h) (\<lambda>startTimestampStr.
        case is_string startTimestampStr of
          None \<Rightarrow> Panic ''interface conversion''
        | Some s \<Rightarrow>
            bind_outcome (GetFromPropagateCtx c RouteKey h) (\<lambda>route.
            case is_string route of
              None \<Rightarrow> Panic ''interface conversion''
            | Some rt \<Rightarrow>
                bind_outcome (getTags c [(''route'', rt), (''status'', if err = NilIface then ''ok'' else ''failed''),
                  (''type'', ty), (''code'', FromError err)] h) (\<lambda>tags.
                report_all lib client SummaryReport ResponseTime tags (real_of_int (time_Since now (ParseInt_value s))) reporters))))"

definition ReportMessageProcessDelayFromCtx :: "promlib \<Rightarrow> statsd_client \<Rightarrow> int \<Rightarrow> ctx option \<Rightarrow> string \<Rightarrow> heap \<Rightarrow>
    Reporter list \<Rightarrow> (goerror, Reporter list) outcome" where
  "ReportMessageProcessDelayFromCtx lib client now c ty h reporters =
     (if reporters = [] then Ok reporters
      else
        bind_outcome (GetFromPropagateCtx c StartTimeKey h) (\<lambda>startTimestampStr.
        case is_string startTimestampStr of
          None \<Rightarrow> Panic ''interface conversion''
        | Some s \<Rightarrow>
            bind_outcome (GetFromPropagateCtx c RouteKey h) (\<lambda>route.
            case is_string route of
              None \<Rightarrow> Panic ''interface conversion''
            | Some rt \<Rightarrow>
                bind_outcome (getTags c [(''route'', rt), (''type'', ty)] h) (\<lambda>tags.
                report_all lib client SummaryReport ProcessDelay tags (real_of_int (time_Since now (ParseInt_value s))) reporters))))"

definition AddMetricTagsToPropagateCtx :: "ctx option \<Rightarrow> labels \<Rightarrow> heap \<Rightarrow> (goerror, ctx \<times> heap) outcome" where
  "AddMetricTagsToPropagateCtx c tags h = AddToPropagateCtx c MetricTagsKey (GTags tags) h"

section \<open>Lemmas\<close>

lemma gm_keys_put [simp]: "set (gm_keys (gm_put k v m)) = insert k (set (gm_keys m))"
  by (simp add: gm_keys_def gm_put_def dom_map_of_conv_image_fst [symmetric] update_conv')

lemma gm_keys_simps [simp]: "gm_keys [] = []" "gm_keys ((k, v) # m) = k # gm_keys m"
  by (simp_all add: gm_keys_def)

lemma keys_fold_put: "set (gm_keys (fold (\<lambda>(k, v). gm_put k v) new m)) = set (gm_keys m) \<union> set (gm_keys new)"
  by (induction new arbitrary: m) auto

lemma ensureLabels_keys: "set (gm_keys (ensureLabels ls p)) = set (gm_keys ls) \<union> set (gm_keys (prr_additionalLabels p))"
proof -
  have "set (gm_keys (fold (\<lambda>(key, dv) ls. if gm_get ls key = None then gm_put key dv ls else ls) new ls)) =
      set (gm_keys ls) \<union> set (gm_keys new)" for new
  proof (induction new arbitrary: ls)
    case (Cons kv new)
    then show ?case using gm_keys_get [of "fst kv" ls] by (cases kv) auto
  qed simp
  then show ?thesis by (simp add: ensureLabels_def)
qed

text \<open>What the library promises of \<open>With\<close>: the labels given are exactly the label names of the vector.\<close>

definition with_spec :: "promlib \<Rightarrow> bool" where
  "with_spec lib \<longleftrightarrow> (\<forall>names ls. distinct names \<longrightarrow> (pm_With lib names ls \<longleftrightarrow> set (gm_keys ls) = set names))"

lemma registerMetrics_response:
  assumes "registerMetrics lib cl add spec p0 = Ok (p, cl')"
  shows "prr_additionalLabels p = add \<and> (\<exists>v. gm_get (prr_summaryReportersMap p) ResponseTime = Some v \<and>
    vc_LabelNames v = responseLabels @ gm_keys add \<and> vc_samples v = [])"
  using assms
  by (auto simp: registerMetrics_def Let_def registerCustomMetrics_def new_vec_def ResponseTime_def ProcessDelay_def
      split: option.splits if_splits)

lemma report_timing_labels:
  assumes "with_spec lib" "distinct (responseLabels @ gm_keys (prr_additionalLabels p))"
    and "gm_get (prr_summaryReportersMap p) ResponseTime = Some v" "vc_LabelNames v = responseLabels @ gm_keys (prr_additionalLabels p)"
    and "set responseLabels \<subseteq> set (gm_keys ls)"
  shows "if set (gm_keys ls) \<subseteq> set (vc_LabelNames v)
    then report lib client SummaryReport ResponseTime ls value (Prometheus p) =
      Ok (ensureLabels ls p, Prometheus (p\<lparr>prr_summaryReportersMap := gm_put ResponseTime
        (v\<lparr>vc_samples := vc_samples v @ [(ensureLabels ls p, value)]\<rparr>) (prr_summaryReportersMap p)\<rparr>))
    else \<exists>m. report lib client SummaryReport ResponseTime ls value (Prometheus p) = Panic m"
proof -
  have "pm_With lib (vc_LabelNames v) (ensureLabels ls p) \<longleftrightarrow>
      set (gm_keys ls) \<union> set (gm_keys (prr_additionalLabels p)) = set (vc_LabelNames v)"
    using assms(1,2,4) ensureLabels_keys [of ls p] by (simp add: with_spec_def)
  also have "\<dots> \<longleftrightarrow> set (gm_keys ls) \<subseteq> set (vc_LabelNames v)"
    using assms(4,5) by auto
  finally show ?thesis
    using assms(3) by (simp add: report_def prom_report_def observe_def Let_def)
qed

lemma GetFromPropagateCtx_nil: "GetFromPropagateCtx None k h = Ok GNil"
  by (simp add: GetFromPropagateCtx_def ToMap_def new_map_def Let_def read_map_def)

lemma ctx_of_start_time: "GetFromPropagateCtx c k h = Ok (GString s) \<Longrightarrow> c \<noteq> None"
  by (cases c) (auto simp: GetFromPropagateCtx_nil)

text \<open>The labels of a timing report before the reporter completes them, and a Prometheus reporter after one more observation.\<close>

definition timing_labels :: "string \<Rightarrow> string \<Rightarrow> err_iface \<Rightarrow> labels \<Rightarrow> labels" where
  "timing_labels rt ty err tags =
     fold (\<lambda>(k, v). gm_put k v) tags
       [(''route'', rt), (''status'', if err = NilIface then ''ok'' else ''failed''), (''type'', ty), (''code'', FromError err)]"

definition observed :: "labels \<Rightarrow> real \<Rightarrow> vec \<Rightarrow> PrometheusReporter \<Rightarrow> PrometheusReporter" where
  "observed ls t v p =
     p\<lparr>prr_summaryReportersMap := gm_put ResponseTime (v\<lparr>vc_samples := vc_samples v @ [(ls, t)]\<rparr>) (prr_summaryReportersMap p)\<rparr>"

lemma timing_labels_keys: "set (gm_keys (timing_labels rt ty err tags)) = set responseLabels \<union> set (gm_keys tags)"
  by (simp add: timing_labels_def keys_fold_put responseLabels_def insert_commute)

lemma fold_put_other: "k \<notin> set (gm_keys new) \<Longrightarrow> gm_get (fold (\<lambda>(k, v). gm_put k v) new m) k = gm_get m k"
  by (induction new arbitrary: m) auto

lemma ensureLabels_get: "gm_get ls k = Some v \<Longrightarrow> gm_get (ensureLabels ls p) k = Some v"
proof -
  have "gm_get ls k = Some v \<Longrightarrow>
      gm_get (fold (\<lambda>(key, dv) ls. if gm_get ls key = None then gm_put key dv ls else ls) new ls) k = Some v" for new
  proof (induction new arbitrary: ls)
    case (Cons kv new)
    then show ?case by (cases "fst kv = k") (auto split: prod.splits)
  qed simp
  then show "gm_get ls k = Some v \<Longrightarrow> ?thesis" by (simp add: ensureLabels_def)
qed

lemma ReportTimingFromCtx_labels:
  assumes "GetFromPropagateCtx c StartTimeKey h = Ok (GString s)" "GetFromPropagateCtx c RouteKey h = Ok (GString rt)"
    and "tagsFromContext c h = Ok tags" "reporters \<noteq> []"
  shows "ReportTimingFromCtx lib client now c ty err h reporters =
    report_all lib client SummaryReport ResponseTime (timing_labels rt ty err tags)
      (real_of_int (time_Since now (ParseInt_value s))) reporters"
  using assms ctx_of_start_time [OF assms(1)]
  by (auto simp: ReportTimingFromCtx_def is_string_def getTags_def timing_labels_def)

lemma timing_report_exact:
  assumes "with_spec lib" "registerMetrics lib cl add spec p0 = Ok (p, cl')" "distinct (responseLabels @ gm_keys add)"
    and "GetFromPropagateCtx c StartTimeKey h = Ok (GString s)" "GetFromPropagateCtx c RouteKey h = Ok (GString rt)"
    and "tagsFromContext c h = Ok tags"
    and "ls = ensureLabels (timing_labels rt ty err tags) p"
  shows "set (gm_keys ls) = set (responseLabels @ gm_keys add) \<union> set (gm_keys tags) \<and>
    (\<exists>v. gm_get (prr_summaryReportersMap p) ResponseTime = Some v \<and> vc_samples v = [] \<and>
      (if set (gm_keys tags) \<subseteq> set (responseLabels @ gm_keys add)
       then ReportTimingFromCtx lib client now c ty err h [Prometheus p] =
         Ok [Prometheus (observed ls (real_of_int (time_Since now (ParseInt_value s))) v p)]
       else \<exists>m. ReportTimingFromCtx lib client now c ty err h [Prometheus p] = Panic m))"
proof -
  let ?t = "real_of_int (time_Since now (ParseInt_value s))" and ?ls = "timing_labels rt ty err tags"
  obtain v where v: "prr_additionalLabels p = add" "gm_get (prr_summaryReportersMap p) ResponseTime = Some v"
    "vc_LabelNames v = responseLabels @ gm_keys add" "vc_samples v = []"
    using registerMetrics_response [OF assms(2)] by blast
  have keys: "set (gm_keys ls) = set (responseLabels @ gm_keys add) \<union> set (gm_keys tags)"
    using v(1) by (auto simp: assms(7) ensureLabels_keys timing_labels_keys)
  have "if set (gm_keys tags) \<subseteq> set (responseLabels @ gm_keys add)
    then report lib client SummaryReport ResponseTime ?ls ?t (Prometheus p) = Ok (ls, Prometheus (observed ls ?t v p))
    else \<exists>m. report lib client SummaryReport ResponseTime ?ls ?t (Prometheus p) = Panic m"
    using report_timing_labels [OF assms(1) _ v(2), of ?ls client ?t] assms(3) v(1,3)
    by (simp add: timing_labels_keys observed_def assms(7))
  then show ?thesis
    using keys v ReportTimingFromCtx_labels [OF assms(4-6), of "[Prometheus p]" lib client now ty err]
    by (auto split: if_splits)
qed

section \<open>Properties\<close>


definition sample_promlib :: promlib where
  "sample_promlib = \<lparr>pm_With = \<lambda>names ls. set (gm_keys ls) = set names, pm_MustRegister = \<lambda>_. True\<rparr>"


text \<open>
  Metric tags do not reach the other side of a call. They are read back by the reports from the
  context they were added to; but JSON decoding never gives a \<open>map[string]string\<close> for a value of the propagated map, so in a
  context that was received the tags are always empty, whatever was sent.
\<close>

lemma metric_tags_lost:
  assumes "AddMetricTagsToPropagateCtx c tags h = Ok (c', h')"
    and "\<And>bs m k ts. mj_unmarshal mj bs = Inr (Some m) \<Longrightarrow> gm_get m k \<noteq> Some (GTags ts)"
    and "ctx_Encode mj (Some c') h' = Ok bs" "ctx_Decode mj bs g = Ok (c2, g2)"
  shows "tagsFromContext (Some c') h' = Ok tags \<and> tagsFromContext c2 g2 = Ok []"
proof
  obtain p a h1 where "c' = WithValue p PropagateCtxKey (CMap (Some a))" "h' = h1\<lparr>hp_map := (hp_map h1)(a := gm_put MetricTagsKey (GTags tags) (hp_map h1 a))\<rparr>"
    using AddToPropagateCtx_parts assms(1) unfolding AddMetricTagsToPropagateCtx_def by blast
  then show "tagsFromContext (Some c') h' = Ok tags"
    by (simp add: tagsFromContext_def GetFromPropagateCtx_map read_map_def)
  have "\<exists>v. GetFromPropagateCtx c2 MetricTagsKey g2 = Ok v \<and> (\<forall>ts. v \<noteq> GTags ts)"
    using assms(4,2)
    by (auto simp: ctx_Decode_def FromMap_def GetFromPropagateCtx_map GetFromPropagateCtx_nil read_map_def new_map_def gm_empty_def gm_get_def [of "[]"]
        split: if_splits sum.splits option.splits)
  then show "tagsFromContext c2 g2 = Ok []"
    by (auto simp: tagsFromContext_def gm_empty_def split: gval.splits)
qed

text \<open>A JSON codec that can only read and write two maps, enough to see a tag get lost.\<close>

definition sample_tagsjson :: mapjson where
  "sample_tagsjson = \<lparr>mj_marshal = \<lambda>_. Inr [123, 125], mj_unmarshal = \<lambda>_. Inr (Some [(MetricTagsKey, GMap [(''user'', GString ''u'')])])\<rparr>"

end
