(* ===== verification/CallReport.thy ===== *)
theory CallReport
  imports Metrics
begin

text \<open>
  \<open>Call\<close> of \<open>cluster/nats_rpc_client.go\<close> as a whole: what theory \<open>RpcClient\<close> models, with the metrics report that is deferred once
  the request is marshalled and that runs, with the error the call ends with, on every way out.
\<close>

text \<open>The variable \<open>err\<close> at the end of the call; it is still nil when the call panics.\<close>

definition call_err :: "(goerror, 'a) outcome \<Rightarrow> err_iface" where
  "call_err out = (case out of Err e \<Rightarrow> ErrVal e | _ \<Rightarrow> NilIface)"

text \<open>The arguments are those of \<open>client_Call\<close>, with the reporters and the time of the report.\<close>

definition client_Call_reported :: "promlib \<Rightarrow> statsd_client \<Rightarrow> Reporter list \<Rightarrow> int \<Rightarrow> tracer \<Rightarrow> mapjson \<Rightarrow> protolib \<Rightarrow> timelib \<Rightarrow> nats_env \<Rightarrow>
    string \<Rightarrow> int \<Rightarrow> NatsRPCClient \<Rightarrow> ctx option \<Rightarrow> route \<Rightarrow> message \<Rightarrow> server \<Rightarrow> heap \<Rightarrow>
    ((goerror, p_response \<times> heap) outcome \<times> Reporter list) \<times> (nat \<times> string option) list" where
  "client_Call_reported lib client reporters later tr mj pl tim nv nuid now ns c rt msg sv h =
     call_span tr ns sv c h (\<lambda>out. (out, reporters)) (\<lambda>c.
       if \<not> nc_running ns then (Err ErrRPCClientNotInitialized, reporters)
       else
         (case prepare_call tr mj tim nuid now ns (Some c) rt msg h of
            Err e \<Rightarrow> (Err e, reporters)
          | Panic p \<Rightarrow> (Panic p, reporters)
          | Ok (req, reqTimeout, h') \<Rightarrow>
              let out = bind_outcome (send_call pl tim nv ns rt msg sv req reqTimeout) (\<lambda>res. Ok (res, h')) in
              (case pl_marshal_req pl req of
                 Inl _ \<Rightarrow> (out, reporters)
               | Inr _ \<Rightarrow>
                   (case bind_outcome (call_context (Some c) h) (\<lambda>c.
                       ReportTimingFromCtx lib client later (Some c) ''rpc'' (call_err out) h' reporters) of
                      Ok rs \<Rightarrow> (out, rs)
                    | Err e \<Rightarrow> (Err e, reporters)
                    | Panic p \<Rightarrow> (Panic p, reporters)))))"

section \<open>Lemmas\<close>

lemma AddToPropagateCtx_same:
  assumes "has_map c" "AddToPropagateCtx c k v h = Ok (c', h')"
  shows "ctx_vals c h' = (ctx_vals c h)(k \<mapsto> v) \<and> has_map (Some c') \<and> ctx_vals (Some c') = ctx_vals c"
proof -
  obtain p a h1 where d: "c = Some p" "ToMap c h = Ok (Some a, h1)"
    "h' = h1\<lparr>hp_map := (hp_map h1)(a := gm_put k v (hp_map h1 a))\<rparr>" "c' = WithValue p PropagateCtxKey (CMap (Some a))"
    using AddToPropagateCtx_parts [OF assms(2)] by blast
  then have "ctx_Value p PropagateCtxKey = Some (CMap (Some a))" "h1 = h"
    using assms(1) by (auto simp: has_map_def ToMap_def)
  then show ?thesis by (simp add: d has_map_def ctx_vals_def read_map_def fun_eq_iff)
qed

lemma InjectSpan_cases:
  assumes "InjectSpan tr c h = Ok (Some c1, e, h1)"
  shows "c = Some c1 \<and> h1 = h \<or> (\<exists>d. AddToPropagateCtx c SpanPropagateCtxKey d h = Ok (c1, h1))"
proof -
  obtain sp where "SpanFromContext c = Ok sp" using assms by (auto simp: InjectSpan_def bind_outcome_Ok)
  then show ?thesis
    using assms by (cases sp; cases "tr_Inject tr (tr_Context tr (the sp))") (auto simp: InjectSpan_def bind_outcome_Ok)
qed

lemma buildRequest_keeps:
  assumes "has_map c" "buildRequest tr mj c rt msg sv h = Ok (req, h')" "k \<notin> {SpanPropagateCtxKey, PeerIDKey, PeerServiceKey}"
  shows "ctx_vals c h' k = ctx_vals c h k"
proof -
  obtain c1 e h1 c2 h2 c3 where i: "InjectSpan tr c h = Ok (c1, e, h1)"
    and a: "AddToPropagateCtx c1 PeerIDKey (GString (sv_ID sv)) h1 = Ok (c2, h2)"
      "AddToPropagateCtx (Some c2) PeerServiceKey (GString (sv_Type sv)) h2 = Ok (c3, h')"
    using assms(2) by (auto simp: buildRequest_def bind_outcome_Ok)
  have "c1 \<noteq> None" using AddToPropagateCtx_parts [OF a(1)] by auto
  then consider "c1 = c" "h1 = h" | d c' where "AddToPropagateCtx c SpanPropagateCtxKey d h = Ok (c', h1)" "c1 = Some c'"
    using i InjectSpan_cases by blast
  then have "has_map c1 \<and> ctx_vals c1 = ctx_vals c \<and> ctx_vals c h1 k = ctx_vals c h k"
  proof cases
    case 2
    then show ?thesis using AddToPropagateCtx_same [OF assms(1) 2(1)] assms(3) by simp
  qed (use assms(1) in simp)
  moreover from this have "has_map (Some c2)" "ctx_vals (Some c2) = ctx_vals c1" "ctx_vals c1 h2 k = ctx_vals c1 h1 k"
    using AddToPropagateCtx_same [OF _ a(1)] assms(3) by auto
  ultimately show ?thesis using AddToPropagateCtx_same [OF _ a(2)] assms(3) by simp
qed

text \<open>What the report reads from the context of the call.\<close>

lemma call_context_vals:
  assumes "ctx_ok c" "prepare_call tr mj tim nuid now ns c rt msg h = Ok (req, t, h')"
  shows "\<exists>c'. call_context c h = Ok c' \<and> (\<forall>k. k \<notin> {SpanPropagateCtxKey, PeerIDKey, PeerServiceKey} \<longrightarrow>
    GetFromPropagateCtx (Some c') k h' = Ok (val_of (call_vals tim nuid now ns rt (ctx_vals c h) k)))"
proof -
  obtain c' h1 where p: "prepare_call tr mj tim nuid now ns c rt msg h =
      bind_outcome (buildRequest tr mj (Some c') rt msg (nc_server ns) h1) (\<lambda>(req, h2).
        Ok (req, val_of (call_vals tim nuid now ns rt (ctx_vals c h) RequestTimeout), h2))"
    "ctx_ok (Some c')" "ctx_vals (Some c') h1 = call_vals tim nuid now ns rt (ctx_vals c h)" "call_context c h = Ok c'" "has_map (Some c')"
    using prepare_call_vals [OF assms(1)] by blast
  then have "buildRequest tr mj (Some c') rt msg (nc_server ns) h1 = Ok (req, h')"
    using assms(2) p(1) by (cases "buildRequest tr mj (Some c') rt msg (nc_server ns) h1") auto
  then show ?thesis using p(2-4) GetFromPropagateCtx_vals [OF p(2)] buildRequest_keeps [OF p(5)] by auto
qed

lemma call_report_reads:
  assumes "ctx_ok (Some c)" "prepare_call tr mj tim nuid now ns (Some c) rt msg h = Ok (req, t, h')"
    and "tagsFromContext (Some c) h = Ok tags" "val_of (ctx_vals (Some c) h StartTimeKey) = (if fresh then GNil else GString start)"
  shows "\<exists>c'. call_context (Some c) h = Ok c' \<and>
    GetFromPropagateCtx (Some c') StartTimeKey h' = Ok (GString (if fresh then Itoa now else start)) \<and>
    GetFromPropagateCtx (Some c') RouteKey h' = Ok (GString (route_String rt)) \<and> tagsFromContext (Some c') h' = Ok tags"
proof -
  let ?V = "call_vals tim nuid now ns rt (ctx_vals (Some c) h)"
  obtain c' where c': "call_context (Some c) h = Ok c'"
    and w: "\<forall>k. k \<notin> {SpanPropagateCtxKey, PeerIDKey, PeerServiceKey} \<longrightarrow> GetFromPropagateCtx (Some c') k h' = Ok (val_of (?V k))"
    using call_context_vals [OF assms(1,2)] by blast
  have v: "GetFromPropagateCtx (Some c') StartTimeKey h' = Ok (val_of (?V StartTimeKey))"
    "GetFromPropagateCtx (Some c') RouteKey h' = Ok (val_of (?V RouteKey))"
    "GetFromPropagateCtx (Some c') MetricTagsKey h' = Ok (val_of (?V MetricTagsKey))"
    by (rule w [rule_format]; simp add: ctx_keys)+
  have V: "val_of (?V StartTimeKey) = GString (if fresh then Itoa now else start)" "?V RouteKey = Some (GString (route_String rt))"
    "?V MetricTagsKey = ctx_vals (Some c) h MetricTagsKey"
    using assms(4) by (simp_all add: call_vals_def Let_def ctx_keys)
  show ?thesis
    using assms(3) c' by (simp add: v V tagsFromContext_def GetFromPropagateCtx_vals [OF assms(1)])
qed

lemma timing_labels_get:
  assumes "set responseLabels \<inter> set (gm_keys tags) = {}"
  shows "gm_get (timing_labels rt ty err tags) ''route'' = Some rt"
    "gm_get (timing_labels rt ty err tags) ''status'' = Some (if err = NilIface then ''ok'' else ''failed'')"
    "gm_get (timing_labels rt ty err tags) ''type'' = Some ty" "gm_get (timing_labels rt ty err tags) ''code'' = Some (FromError err)"
proof -
  let ?base = "[(''route'', rt), (''status'', if err = NilIface then ''ok'' else ''failed''), (''type'', ty), (''code'', FromError err)]"
  have "gm_get (timing_labels rt ty err tags) k = gm_get ?base k" if "k \<in> set responseLabels" for k
    unfolding timing_labels_def by (rule fold_put_other) (use assms that in auto)
  then show "gm_get (timing_labels rt ty err tags) ''route'' = Some rt"
    "gm_get (timing_labels rt ty err tags) ''status'' = Some (if err = NilIface then ''ok'' else ''failed'')"
    "gm_get (timing_labels rt ty err tags) ''type'' = Some ty" "gm_get (timing_labels rt ty err tags) ''code'' = Some (FromError err)"
    by (simp_all add: responseLabels_def gm_get_def)
qed

lemma parse_digits_ge: "parse_digits cs n = Some m \<Longrightarrow> n \<le> m"
  by (induction cs arbitrary: n) (fastforce split: option.splits)+

lemma parse_uint_digits: "parse_digits cs n = Some m \<Longrightarrow> m < 2 ^ 64 \<Longrightarrow> parse_uint cs n = m"
proof (induction cs arbitrary: n)
  case (Cons c cs)
  then obtain d where "digit_val c = Some d" "parse_digits cs (10 * n + d) = Some m" by (auto split: option.splits)
  then show ?case using Cons parse_digits_ge [of cs "10 * n + d" m] by simp
qed simp

lemma ParseInt_value: "ParseInt s = Some n \<Longrightarrow> ParseInt_value s = n"
  by (auto simp: ParseInt_def ParseInt_value_def Let_def parse_uint_digits split: if_splits option.splits prod.splits list.splits)

section \<open>Properties\<close>



end
