(* ===== verification/Router.thy ===== *)
theory Router
  imports Registry Route Message Context
begin

text \<open>
  \<open>router/router.go\<close>: choosing the server of a call. The router is a client of the service discovery: its
  lemmas are proved in the locale \<open>discovery\<close> and hold for the registry through its interpretation.
  The random number is an argument, what \<open>rand.Intn\<close> returned, with its documented range as hypothesis.
\<close>

type_synonym RoutingFunc =
  "ctx option \<Rightarrow> route \<Rightarrow> bytes \<Rightarrow> (string, server) gomap \<Rightarrow> ctx option \<times> server option \<times> goerror option"

record Router =
  rt_serviceDiscovery :: "sdstate option"
  rt_routesMap :: "(string, RoutingFunc) gomap"

definition router_New :: Router where
  "router_New = \<lparr>rt_serviceDiscovery = None, rt_routesMap = gm_empty\<rparr>"

definition SetServiceDiscovery :: "sdstate \<Rightarrow> Router \<Rightarrow> Router" where
  "SetServiceDiscovery sd r = r\<lparr>rt_serviceDiscovery := Some sd\<rparr>"

text \<open>\<open>rnd.Intn\<close> panics on an empty range; \<open>intn n\<close> is the number it gives for n.\<close>

definition defaultRoute :: "(nat \<Rightarrow> nat) \<Rightarrow> (string, server) gomap \<Rightarrow> (goerror, server) outcome" where
  "defaultRoute intn servers =
     (let srvList = gm_vals servers in
      if length srvList = 0 then Panic ''invalid argument to Intn''
      else index_outcome srvList (intn (length srvList)))"

definition router_Route :: "(nat \<Rightarrow> nat) \<Rightarrow> Router \<Rightarrow> ctx option \<Rightarrow> string \<Rightarrow> route \<Rightarrow> message \<Rightarrow>
    (goerror, ctx option \<times> server option \<times> goerror option) outcome" where
  "router_Route intn r c svType rt msg =
     (case rt_serviceDiscovery r of
        None \<Rightarrow> Ok (c, None, Some ErrServiceDiscoveryNotInitialized)
      | Some sd \<Rightarrow>
          (case GetServersByType svType sd of
             Err e \<Rightarrow> Ok (c, None, Some e)
           | Panic p \<Rightarrow> Panic p
           | Ok serversOfType \<Rightarrow>
               (case gm_get (rt_routesMap r) svType of
                  None \<Rightarrow> bind_outcome (defaultRoute intn serversOfType) (\<lambda>sv. Ok (c, Some sv, None))
                | Some routeFunc \<Rightarrow> Ok (routeFunc c rt (msg_Data msg) serversOfType))))"

definition router_AddRoute :: "string \<Rightarrow> RoutingFunc \<Rightarrow> Router \<Rightarrow> Router" where
  "router_AddRoute serverType routingFunction r =
     r\<lparr>rt_routesMap := gm_put serverType routingFunction (rt_routesMap r)\<rparr>"

section \<open>The router as a client of the service discovery\<close>

context discovery
begin

lemma default_choice:
  assumes "inv s" "by_type t s = Ok m" "\<And>n. 0 < n \<Longrightarrow> intn n < n"
  shows "\<exists>sv. defaultRoute intn m = Ok sv \<and> lookup s (sv_ID sv) = Some sv \<and> sv_Type sv = t"
proof -
  have "m \<noteq> []" using by_type_Ok [OF assms(1,2)] by simp
  then have k: "intn (length (gm_vals m)) < length (gm_vals m)"
    using assms(3) by (simp add: gm_vals_def)
  then have "gm_vals m ! intn (length (gm_vals m)) \<in> set (gm_vals m)" by simp
  then show ?thesis
    using k by_type_values [OF assms(1,2)] by (auto simp: defaultRoute_def Let_def)
qed

lemma default_reaches_known:
  assumes "inv s" "lookup s i = Some sv"
  shows "\<exists>m k. by_type (sv_Type sv) s = Ok m \<and> k < length m \<and> defaultRoute (\<lambda>_. k) m = Ok sv"
proof -
  obtain m where m: "by_type (sv_Type sv) s = Ok m" "gm_get m i = Some sv"
    using by_type_known [OF assms] by blast
  then have "sv \<in> set (gm_vals m)"
    using by_type_Ok [OF assms(1) m(1)] by (auto simp: gm_vals_get)
  then obtain k where "k < length (gm_vals m)" "gm_vals m ! k = sv" by (metis in_set_conv_nth)
  then show ?thesis using m(1) by (intro exI [of _ m] exI [of _ k]) (auto simp: defaultRoute_def gm_vals_def Let_def)
qed

end

text \<open>The same for the registry, through its interpretation.\<close>

lemma router_Route_default:
  assumes "sd_inv sd" "\<And>n. 0 < n \<Longrightarrow> intn n < n"
    and "rt_serviceDiscovery r = Some sd" "gm_get (rt_routesMap r) t = None"
  shows "if \<exists>i sv. registry_abs sd i = Some sv \<and> sv_Type sv = t
    then (\<exists>sv. router_Route intn r c t rt msg = Ok (c, Some sv, None) \<and>
            registry_abs sd (sv_ID sv) = Some sv \<and> sv_Type sv = t)
    else router_Route intn r c t rt msg = Ok (c, None, Some ErrNoServersAvailableOfType)"
proof (cases "GetServersByType t sd")
  case (Ok m)
  then obtain sv where sv: "defaultRoute intn m = Ok sv" "registry_abs sd (sv_ID sv) = Some sv" "sv_Type sv = t"
    using sdreg.default_choice [OF assms(1) Ok, of intn] assms(2) by blast
  then have "router_Route intn r c t rt msg = Ok (c, Some sv, None)"
    using Ok assms(3,4) by (simp add: router_Route_def)
  then show ?thesis using sv by auto
next
  case (Err e)
  then show ?thesis
    using sdreg.by_type_Err [OF assms(1) Err] assms(3) by (auto simp: router_Route_def)
next
  case (Panic p)
  then show ?thesis using sdreg.by_type_total [of t sd] by simp
qed

section \<open>Properties\<close>

text \<open>
  C7: the default routing always finds a server that can take the call. On a consistent registry and
  without a routing function for the type, the result is a registered server of exactly this type; and
  when there is none, the call fails with the error of the service discovery. Routing never panics.
\<close>

theorem default_routing:
  assumes "sd_inv sd" "\<And>n. 0 < n \<Longrightarrow> intn n < n"
    and "rt_serviceDiscovery r = Some sd" "gm_get (rt_routesMap r) t = None"
  shows "if \<exists>i sv. registry_abs sd i = Some sv \<and> sv_Type sv = t
    then (\<exists>sv. router_Route intn r c t rt msg = Ok (c, Some sv, None) \<and>
            registry_abs sd (sv_ID sv) = Some sv \<and> sv_Type sv = t)
    else router_Route intn r c t rt msg = Ok (c, None, Some ErrNoServersAvailableOfType)"
  by (rule router_Route_default [OF assms])

theorem default_routing_witness:
  "\<exists>sv. router_Route (\<lambda>n. n - 1) (SetServiceDiscovery sample_sd router_New) None ''chat'' (NewRoute ''chat'' ''room'' ''join'')
      (message_New []) = Ok (None, Some sv, None) \<and> sv_Type sv = ''chat''"
proof -
  have "\<exists>i sv. registry_abs sample_sd i = Some sv \<and> sv_Type sv = ''chat''"
    by (intro exI [of _ "''c1''"]) (simp add: registry_abs_def sample_sd_def gm_get_def)
  then show ?thesis
    using default_routing [OF sample_sd_inv, of "\<lambda>n. n - 1" "SetServiceDiscovery sample_sd router_New" "''chat''" None
        "NewRoute ''chat'' ''room'' ''join''" "message_New []"]
    by (auto simp: SetServiceDiscovery_def router_New_def)
qed

end
