(* ===== verification/Component.thy ===== *)
theory Component
  imports Errors Message
begin

text \<open>
  \<open>component/method.go\<close>, \<open>component/service.go\<close> and \<open>component/options.go\<close>: which methods of a user's
  component become remotes or handlers, and how a service is built from a component. A
  \<open>reflect.Type\<close> is what the code asks of it: its identity, whether it is a pointer, whether \<open>Elem\<close> is
  defined for its kind (pointers, slices, arrays, channels and maps; it panics on the others), and which
  of the two interfaces it implements. Letters outside ASCII are classified by the parameter \<open>uni_upper\<close>
  (the Unicode tables).
\<close>

section \<open>Reflection\<close>

record gtype =
  gt_name :: string
  gt_ptr :: bool
  gt_elem :: bool
  gt_context :: bool
  gt_proto :: bool

definition typeOfError :: gtype where
  "typeOfError = \<lparr>gt_name = ''error'', gt_ptr = False, gt_elem = False, gt_context = False, gt_proto = False\<rparr>"

definition typeOfBytes :: gtype where
  "typeOfBytes = \<lparr>gt_name = ''[]uint8'', gt_ptr = False, gt_elem = True, gt_context = False, gt_proto = False\<rparr>"

text \<open>\<open>me_In\<close> includes the receiver.\<close>

record gmethod =
  me_Name :: string
  me_PkgPath :: string
  me_In :: "gtype list"
  me_Out :: "gtype list"

text \<open>A component: the name and printed form of its type, the methods of the type, and those of a pointer to it.\<close>

record gcomponent =
  co_typeName :: string
  co_typeString :: string
  co_methods :: "gmethod list"
  co_ptrMethods :: "gmethod list"

section \<open>Suitable methods\<close>

definition isExported :: "(string \<Rightarrow> bool) \<Rightarrow> string \<Rightarrow> bool" where
  "isExported uni_upper name =
     (case name of
        [] \<Rightarrow> False
      | c # _ \<Rightarrow>
          if (of_char c :: nat) < 128 then 65 \<le> (of_char c :: nat) \<and> (of_char c :: nat) \<le> 90 else uni_upper name)"

definition isRemoteMethod :: "gmethod \<Rightarrow> bool" where
  "isRemoteMethod m =
     (if me_PkgPath m \<noteq> '''' then False
      else if length (me_In m) \<noteq> 2 \<and> length (me_In m) \<noteq> 3 then False
      else if \<not> gt_context (me_In m ! 1) then False
      else if length (me_In m) = 3 \<and> \<not> gt_proto (me_In m ! 2) then False
      else if length (me_Out m) = 0 then True
      else if length (me_Out m) \<noteq> 2 then False
      else if \<not> gt_ptr (me_Out m ! 0) \<or> me_Out m ! 1 \<noteq> typeOfError then False
      else if \<not> gt_proto (me_Out m ! 0) then False
      else True)"

definition isHandlerMethod :: "gmethod \<Rightarrow> bool" where
  "isHandlerMethod m =
     (if me_PkgPath m \<noteq> '''' then False
      else if length (me_In m) \<noteq> 2 \<and> length (me_In m) \<noteq> 3 then False
      else if \<not> gt_context (me_In m ! 1) then False
      else if length (me_In m) = 3 \<and> \<not> gt_ptr (me_In m ! 2) \<and> me_In m ! 2 \<noteq> typeOfBytes then False
      else if length (me_Out m) \<noteq> 0 \<and> length (me_Out m) \<noteq> 2 then False
      else if length (me_Out m) = 2 \<and>
        (me_Out m ! 1 \<noteq> typeOfError \<or> me_Out m ! 0 \<noteq> typeOfBytes \<and> \<not> gt_ptr (me_Out m ! 0)) then False
      else True)"

record Remote =
  rm_Receiver :: "gcomponent option"
  rm_Method :: gmethod
  rm_HasArgs :: bool
  rm_Type :: "gtype option"

record Handler =
  hd_Receiver :: "gcomponent option"
  hd_Method :: gmethod
  hd_Type :: "gtype option"
  hd_IsRawArg :: bool
  hd_MessageType :: byte

definition rename :: "(string \<Rightarrow> string) option \<Rightarrow> string \<Rightarrow> string" where
  "rename nameFunc mn = (case nameFunc of None \<Rightarrow> mn | Some f \<Rightarrow> f mn)"

definition suitableRemoteMethods :: "gmethod list \<Rightarrow> (string \<Rightarrow> string) option \<Rightarrow> (string, Remote) gomap" where
  "suitableRemoteMethods ms nameFunc =
     fold (\<lambda>m methods.
       if isRemoteMethod m then
         gm_put (rename nameFunc (me_Name m))
           \<lparr>rm_Receiver = None, rm_Method = m, rm_HasArgs = (length (me_In m) = 3),
            rm_Type = (if length (me_In m) = 3 then Some (me_In m ! 2) else None)\<rparr> methods
       else methods) ms gm_empty"

definition suitableHandlerMethods :: "gmethod list \<Rightarrow> (string \<Rightarrow> string) option \<Rightarrow> (string, Handler) gomap" where
  "suitableHandlerMethods ms nameFunc =
     fold (\<lambda>m methods.
       if isHandlerMethod m then
         gm_put (rename nameFunc (me_Name m))
           \<lparr>hd_Receiver = None, hd_Method = m,
            hd_Type = (if length (me_In m) = 3 then Some (me_In m ! 2) else None),
            hd_IsRawArg = (length (me_In m) = 3 \<and> me_In m ! 2 = typeOfBytes),
            hd_MessageType = (if length (me_Out m) = 0 then Notify else Request)\<rparr> methods
       else methods) ms gm_empty"

section \<open>Services\<close>

record options =
  op_name :: string
  op_nameFunc :: "(string \<Rightarrow> string) option"

definition WithName :: "string \<Rightarrow> options \<Rightarrow> options" where
  "WithName name opt = opt\<lparr>op_name := name\<rparr>"

definition WithNameFunc :: "(string \<Rightarrow> string) \<Rightarrow> options \<Rightarrow> options" where
  "WithNameFunc fn opt = opt\<lparr>op_nameFunc := Some fn\<rparr>"

record service =
  se_Name :: string
  se_Comp :: gcomponent
  se_Handlers :: "(string, Handler) gomap"
  se_Remotes :: "(string, Remote) gomap"
  se_Options :: options

definition NewService :: "gcomponent \<Rightarrow> (options \<Rightarrow> options) list \<Rightarrow> service" where
  "NewService cmp opts =
     (let o1 = fold (\<lambda>opt o1. opt o1) opts \<lparr>op_name = '''', op_nameFunc = None\<rparr> in
      \<lparr>se_Name = (if op_name o1 \<noteq> '''' then op_name o1 else co_typeName cmp), se_Comp = cmp,
       se_Handlers = gm_empty, se_Remotes = gm_empty, se_Options = o1\<rparr>)"

definition ExtractHandler :: "(string \<Rightarrow> bool) \<Rightarrow> service \<Rightarrow> (goerror, unit) outcome \<times> service" where
  "ExtractHandler uni_upper s =
     (let typeName = co_typeName (se_Comp s) in
      if typeName = '''' then (Err (PlainError (''no service name for type '' @ co_typeString (se_Comp s))), s)
      else if \<not> isExported uni_upper typeName then (Err (PlainError (''type '' @ typeName @ '' is not exported'')), s)
      else
        let hs = suitableHandlerMethods (co_methods (se_Comp s)) (op_nameFunc (se_Options s));
            s = s\<lparr>se_Handlers := hs\<rparr> in
        if length hs = 0 then
          (Err (PlainError (''type '' @ se_Name s @ '' has no exported methods of handler type'' @
             (if length (suitableHandlerMethods (co_ptrMethods (se_Comp s)) (op_nameFunc (se_Options s))) \<noteq> 0
              then '' (hint: pass a pointer to value of that type)'' else ''''))), s)
        else (Ok (), s\<lparr>se_Handlers := map (\<lambda>(k, h). (k, h\<lparr>hd_Receiver := Some (se_Comp s)\<rparr>)) hs\<rparr>))"

definition ExtractRemote :: "(string \<Rightarrow> bool) \<Rightarrow> service \<Rightarrow> (goerror, unit) outcome \<times> service" where
  "ExtractRemote uni_upper s =
     (let typeName = co_typeName (se_Comp s) in
      if typeName = '''' then (Err (PlainError (''no service name for type '' @ co_typeString (se_Comp s))), s)
      else if \<not> isExported uni_upper typeName then (Err (PlainError (''type '' @ typeName @ '' is not exported'')), s)
      else
        let rs = suitableRemoteMethods (co_methods (se_Comp s)) (op_nameFunc (se_Options s));
            s = s\<lparr>se_Remotes := rs\<rparr> in
        if length rs = 0 then
          (Err (PlainError (''type '' @ se_Name s @ '' has no exported methods of remote type'' @
             (if length (suitableRemoteMethods (co_ptrMethods (se_Comp s)) (op_nameFunc (se_Options s))) \<noteq> 0
              then '' (hint: pass a pointer to value of that type)'' else ''''))), s)
        else (Ok (), s\<lparr>se_Remotes := map (\<lambda>(k, r). (k, r\<lparr>rm_Receiver := Some (se_Comp s)\<rparr>)) rs\<rparr>))"

text \<open>The result: whether to stop on the error, and the error.\<close>

definition ValidateMessageType :: "Handler \<Rightarrow> byte \<Rightarrow> bool \<times> goerror option" where
  "ValidateMessageType hdl msgType =
     (if hd_MessageType hdl \<noteq> msgType then
        if msgType = Request then (True, Some ErrRequestOnNotify)
        else if msgType = Notify then (False, Some ErrNotifyOnRequest)
        else (False, None)
      else (False, None))"

section \<open>Lemmas\<close>

text \<open>The remotes are the suitable methods; when a renaming makes two names equal, the later method wins.\<close>

lemma suitableRemoteMethods_get:
  "gm_get (suitableRemoteMethods ms f) k =
     map_option (\<lambda>m. \<lparr>rm_Receiver = None, rm_Method = m, rm_HasArgs = (length (me_In m) = 3),
        rm_Type = (if length (me_In m) = 3 then Some (me_In m ! 2) else None)\<rparr>)
       (find (\<lambda>m. isRemoteMethod m \<and> rename f (me_Name m) = k) (rev ms))"
proof -
  define R where "R = (\<lambda>m. \<lparr>rm_Receiver = None, rm_Method = m, rm_HasArgs = (length (me_In m) = 3),
        rm_Type = (if length (me_In m) = 3 then Some (me_In m ! 2) else None)\<rparr>)"
  have "gm_get (fold (\<lambda>m ms. if isRemoteMethod m then gm_put (rename f (me_Name m)) (R m) ms else ms) ms old) k =
      (case find (\<lambda>m. isRemoteMethod m \<and> rename f (me_Name m) = k) (rev ms) of
         Some m \<Rightarrow> Some (R m) | None \<Rightarrow> gm_get old k)" for old
  proof (induction ms arbitrary: old)
    case (Cons m ms)
    have find_append: "find P (xs @ ys) = (case find P xs of Some x \<Rightarrow> Some x | None \<Rightarrow> find P ys)" for P and xs ys :: "gmethod list"
      by (induction xs) auto
    show ?case using Cons by (auto simp: find_append split: option.splits)
  qed simp
  moreover have "suitableRemoteMethods ms f =
      fold (\<lambda>m ms. if isRemoteMethod m then gm_put (rename f (me_Name m)) (R m) ms else ms) ms gm_empty"
    unfolding suitableRemoteMethods_def R_def by (rule refl)
  ultimately show ?thesis
    unfolding R_def [symmetric] by (simp split: option.splits)
qed

lemma suitableRemoteMethods_wf: "gm_wf (suitableRemoteMethods ms f)"
proof -
  have "gm_wf old \<Longrightarrow> gm_wf (fold (\<lambda>m ms. if isRemoteMethod m then gm_put (rename f (me_Name m)) (R m) ms else ms) ms old)"
    for old and R :: "gmethod \<Rightarrow> Remote"
    by (induction ms arbitrary: old) simp_all
  then show ?thesis by (simp add: suitableRemoteMethods_def)
qed

lemma ExtractRemote_get:
  assumes "ExtractRemote u s = (Ok (), s')"
  shows "se_Name s' = se_Name s \<and> gm_wf (se_Remotes s') \<and>
    gm_get (se_Remotes s') k = map_option (\<lambda>r. r\<lparr>rm_Receiver := Some (se_Comp s)\<rparr>)
      (gm_get (suitableRemoteMethods (co_methods (se_Comp s)) (op_nameFunc (se_Options s))) k)"
proof -
  let ?rs = "suitableRemoteMethods (co_methods (se_Comp s)) (op_nameFunc (se_Options s))"
  have "se_Name s' = se_Name s" "se_Remotes s' = map (\<lambda>(k, r). (k, r\<lparr>rm_Receiver := Some (se_Comp s)\<rparr>)) ?rs"
    using assms by (auto simp: ExtractRemote_def Let_def split: if_splits)
  then show ?thesis
    using suitableRemoteMethods_wf [of "co_methods (se_Comp s)" "op_nameFunc (se_Options s)"] by simp
qed

section \<open>Properties\<close>



end
