(* ===== verification/Pipeline.thy ===== *)
theory Pipeline
  imports Errors
begin

text \<open>
  \<open>pipeline/pipeline.go\<close> with its plugins \<open>pipeline/plugin/rate_limiter.go\<close> and
  \<open>pipeline/default/default_struct_validator.go\<close>: the functions run before and after a remote method.
  A hook is a function of the context and the value; the context and value types are left open. The
  rate limiter keeps the times of the last accepted requests; the theory shows that it enforces
  a sliding window.
\<close>

section \<open>Channels\<close>

type_synonym ('c, 'v) HandlerTempl = "'c \<Rightarrow> 'v \<Rightarrow> 'c \<times> 'v \<times> goerror option"
type_synonym ('c, 'v) AfterHandlerTempl = "'c \<Rightarrow> 'v \<Rightarrow> goerror option \<Rightarrow> 'v \<times> goerror option"

record ('c, 'v) Channel =
  ch_Handlers :: "('c, 'v) HandlerTempl list"

record ('c, 'v) AfterChannel =
  ac_Handlers :: "('c, 'v) AfterHandlerTempl list"

record ('c, 'v) Hooks =
  hk_BeforeHandler :: "('c, 'v) Channel"
  hk_AfterHandler :: "('c, 'v) AfterChannel"

definition NewChannel :: "('c, 'v) Channel" where
  "NewChannel = \<lparr>ch_Handlers = []\<rparr>"

definition NewAfterChannel :: "('c, 'v) AfterChannel" where
  "NewAfterChannel = \<lparr>ac_Handlers = []\<rparr>"

definition NewRemoteHooks :: "('c, 'v) Hooks" where
  "NewRemoteHooks = \<lparr>hk_BeforeHandler = NewChannel, hk_AfterHandler = NewAfterChannel\<rparr>"

fun before_loop :: "('c, 'v) HandlerTempl list \<Rightarrow> 'c \<Rightarrow> 'v \<Rightarrow> 'c \<times> 'v \<times> goerror option" where
  "before_loop [] c res = (c, res, None)"
| "before_loop (f # hs) c res =
     (case f c res of
        (c, res, Some err) \<Rightarrow> (c, res, Some err)
      | (c, res, None) \<Rightarrow> before_loop hs c res)"

definition ExecuteBeforePipeline :: "('c, 'v) Channel \<Rightarrow> 'c \<Rightarrow> 'v \<Rightarrow> 'c \<times> 'v \<times> goerror option" where
  "ExecuteBeforePipeline p c data =
     (if length (ch_Handlers p) > 0 then before_loop (ch_Handlers p) c data else (c, data, None))"

fun after_loop :: "('c, 'v) AfterHandlerTempl list \<Rightarrow> 'c \<Rightarrow> 'v \<Rightarrow> goerror option \<Rightarrow> 'v \<times> goerror option" where
  "after_loop [] c ret err = (ret, err)"
| "after_loop (f # hs) c ret err = (case f c ret err of (ret, err) \<Rightarrow> after_loop hs c ret err)"

definition ExecuteAfterPipeline :: "('c, 'v) AfterChannel \<Rightarrow> 'c \<Rightarrow> 'v \<Rightarrow> goerror option \<Rightarrow> 'v \<times> goerror option" where
  "ExecuteAfterPipeline p c res err =
     (if length (ac_Handlers p) > 0 then after_loop (ac_Handlers p) c res err else (res, err))"

definition PushFront :: "('c, 'v) HandlerTempl \<Rightarrow> ('c, 'v) Channel \<Rightarrow> ('c, 'v) Channel" where
  "PushFront f p = p\<lparr>ch_Handlers := f # ch_Handlers p\<rparr>"

definition PushBack :: "('c, 'v) HandlerTempl \<Rightarrow> ('c, 'v) Channel \<Rightarrow> ('c, 'v) Channel" where
  "PushBack f p = p\<lparr>ch_Handlers := ch_Handlers p @ [f]\<rparr>"

definition Clear :: "('c, 'v) Channel \<Rightarrow> ('c, 'v) Channel" where
  "Clear p = p\<lparr>ch_Handlers := []\<rparr>"

definition after_PushFront :: "('c, 'v) AfterHandlerTempl \<Rightarrow> ('c, 'v) AfterChannel \<Rightarrow> ('c, 'v) AfterChannel" where
  "after_PushFront f p = p\<lparr>ac_Handlers := f # ac_Handlers p\<rparr>"

definition after_PushBack :: "('c, 'v) AfterHandlerTempl \<Rightarrow> ('c, 'v) AfterChannel \<Rightarrow> ('c, 'v) AfterChannel" where
  "after_PushBack f p = p\<lparr>ac_Handlers := ac_Handlers p @ [f]\<rparr>"

definition after_Clear :: "('c, 'v) AfterChannel \<Rightarrow> ('c, 'v) AfterChannel" where
  "after_Clear p = p\<lparr>ac_Handlers := []\<rparr>"

section \<open>The struct validator\<close>

text \<open>
  \<open>DefaultValidator.Validate\<close>: \<open>validate\<close> is what the validator library says of a value; nil is
  not validated, and an invalid value is replaced by nil. \<open>dv_validate\<close>: the library's validator has been made.
\<close>

record DefaultValidator =
  dv_validate :: bool

definition lazyinit :: "DefaultValidator \<Rightarrow> DefaultValidator" where
  "lazyinit v = v\<lparr>dv_validate := True\<rparr>"

definition Validate :: "('v \<Rightarrow> goerror option) \<Rightarrow> DefaultValidator \<Rightarrow> 'c \<Rightarrow> 'v option \<Rightarrow>
    ('c \<times> 'v option \<times> goerror option) \<times> DefaultValidator" where
  "Validate validate v c inp =
     (case inp of
        None \<Rightarrow> ((c, None, None), v)
      | Some x \<Rightarrow>
          (case validate x of
             Some err \<Rightarrow> ((c, None, Some err), lazyinit v)
           | None \<Rightarrow> ((c, Some x, None), lazyinit v)))"

section \<open>The rate limiter\<close>

text \<open>
  \<open>rl_times\<close> is the list of accepted times, oldest first; \<open>MoveToBack\<close> of the updated
  front entry is the removal of the oldest time and the addition of the new one. With a
  limit of zero or less, \<open>Front\<close> of the empty list is nil and is dereferenced.
\<close>

record RateLimiter =
  rl_limit :: int
  rl_interval :: int
  rl_times :: "int list"
  rl_forceDisable :: bool

definition NewRateLimiter :: "int \<Rightarrow> int \<Rightarrow> bool \<Rightarrow> RateLimiter" where
  "NewRateLimiter limit interval forceDisable =
     \<lparr>rl_limit = limit, rl_interval = interval, rl_times = [], rl_forceDisable = forceDisable\<rparr>"

definition shouldRateLimit :: "int \<Rightarrow> RateLimiter \<Rightarrow> (goerror, bool \<times> RateLimiter) outcome" where
  "shouldRateLimit now r =
     (if int (length (rl_times r)) < rl_limit r then Ok (False, r\<lparr>rl_times := rl_times r @ [now]\<rparr>)
      else
        case rl_times r of
          [] \<Rightarrow> Panic ''invalid memory address or nil pointer dereference''
        | front # rest \<Rightarrow>
            if now - front < rl_interval r then Ok (True, r)
            else Ok (False, r\<lparr>rl_times := rest @ [now]\<rparr>))"

text \<open>\<open>HandleBefore\<close>: the report to the metrics is the boolean of the result.\<close>

definition HandleBefore :: "int \<Rightarrow> RateLimiter \<Rightarrow> (goerror, goerror option \<times> bool \<times> RateLimiter) outcome" where
  "HandleBefore now r =
     bind_outcome (shouldRateLimit now r) (\<lambda>(exceeded, r).
     Ok (if exceeded \<and> rl_forceDisable r then Some ErrRateLimitExceeded else None, exceeded, r))"

text \<open>A sequence of requests: the times of those that are not over the limit, and of those that are.\<close>

fun rl_run :: "int list \<Rightarrow> RateLimiter \<Rightarrow> (goerror, int list \<times> int list \<times> RateLimiter) outcome" where
  "rl_run [] r = Ok ([], [], r)"
| "rl_run (t # ts) r =
     bind_outcome (shouldRateLimit t r) (\<lambda>(exceeded, r).
     bind_outcome (rl_run ts r) (\<lambda>(acc, rej, r).
     Ok (if exceeded then (acc, t # rej, r) else (t # acc, rej, r))))"

section \<open>Lemmas\<close>

lemma before_loop_append:
  "before_loop (xs @ ys) c v =
     (case before_loop xs c v of (c, v, Some e) \<Rightarrow> (c, v, Some e) | (c, v, None) \<Rightarrow> before_loop ys c v)"
  by (induction xs arbitrary: c v) (auto split: prod.splits option.splits)

lemma ExecuteBeforePipeline_loop: "ExecuteBeforePipeline p c v = before_loop (ch_Handlers p) c v"
  by (simp add: ExecuteBeforePipeline_def)

lemma ExecuteAfterPipeline_loop: "ExecuteAfterPipeline p c v e = after_loop (ac_Handlers p) c v e"
  by (simp add: ExecuteAfterPipeline_def)

text \<open>A hook that fails keeps every later one from running, wherever they were pushed.\<close>

lemma before_fails:
  assumes "before_loop (ch_Handlers p) c v = (c', v', Some e)"
  shows "ExecuteBeforePipeline (PushBack f p) c v = (c', v', Some e)"
  using assms by (simp add: ExecuteBeforePipeline_loop PushBack_def before_loop_append)

lemma before_runs_in_order:
  assumes "f c v = (c1, v1, None)" "before_loop (ch_Handlers p) c1 v1 = (c2, v2, None)"
  shows "ExecuteBeforePipeline (PushFront f (PushBack g p)) c v = g c2 v2"
  using assms
  by (simp add: ExecuteBeforePipeline_loop PushFront_def PushBack_def before_loop_append
      split: prod.splits option.splits)

text \<open>The invariant of the rate limiter: it remembers the last \<open>limit\<close> of the accepted times \<open>acc\<close>.\<close>

definition last_n :: "nat \<Rightarrow> 'a list \<Rightarrow> 'a list" where
  "last_n n xs = drop (length xs - n) xs"

definition window_ok :: "nat \<Rightarrow> int \<Rightarrow> int list \<Rightarrow> bool" where
  "window_ok n d acc \<longleftrightarrow> (\<forall>i. i + n < length acc \<longrightarrow> d \<le> acc ! (i + n) - acc ! i)"

lemma last_n_snoc:
  assumes "0 < n"
  shows "last_n n (acc @ [t]) = (if length acc < n then acc @ [t] else tl (last_n n acc) @ [t])"
proof (cases "length acc < n")
  case False
  then have "Suc (length acc) - n = Suc (length acc - n)" by simp
  then show ?thesis using False assms by (simp add: last_n_def drop_Suc tl_drop)
qed (simp add: last_n_def)

lemma window_ok_snoc:
  assumes "window_ok n d acc" "0 < n" "n \<le> length acc \<Longrightarrow> d \<le> t - acc ! (length acc - n)"
  shows "window_ok n d (acc @ [t])"
  unfolding window_ok_def
proof (intro allI impI)
  fix i
  assume i: "i + n < length (acc @ [t])"
  show "d \<le> (acc @ [t]) ! (i + n) - (acc @ [t]) ! i"
  proof (cases "i + n < length acc")
    case True
    then show ?thesis using assms(1) by (simp add: window_ok_def nth_append)
  next
    case False
    then have "i = length acc - n" "n \<le> length acc" "i < length acc" using i assms(2) by simp_all
    then show ?thesis using assms(3) False i by (simp add: nth_append)
  qed
qed

lemma shouldRateLimit_step:
  assumes "0 < n" "rl_limit r = int n" "rl_times r = last_n n acc" "window_ok n (rl_interval r) acc"
  shows "\<exists>b r'. shouldRateLimit t r = Ok (b, r') \<and> rl_limit r' = rl_limit r \<and> rl_interval r' = rl_interval r \<and>
    rl_times r' = last_n n (if b then acc else acc @ [t]) \<and>
    window_ok n (rl_interval r) (if b then acc else acc @ [t]) \<and>
    (b \<longleftrightarrow> n \<le> length acc \<and> t - acc ! (length acc - n) < rl_interval r)"
proof (cases "length acc < n")
  case True
  then have "rl_times r = acc" using assms(3) by (simp add: last_n_def)
  then show ?thesis
    using True assms window_ok_snoc [OF assms(4,1), of t]
    by (intro exI [of _ False] exI [of _ "r\<lparr>rl_times := acc @ [t]\<rparr>"]) (simp add: shouldRateLimit_def last_n_snoc)
next
  case False
  then have l: "length (last_n n acc) = n" by (simp add: last_n_def)
  then obtain f rest where fr: "last_n n acc = f # rest" using assms(1) by (cases "last_n n acc") auto
  have f: "f = acc ! (length acc - n)"
    using fr False assms(1) by (metis diff_less hd_drop_conv_nth last_n_def length_greater_0_conv less_le_trans linorder_not_less list.sel(1))
  show ?thesis
  proof (cases "t - f < rl_interval r")
    case True
    then have "shouldRateLimit t r = Ok (True, r)"
      using assms(2,3) fr l by (auto simp: shouldRateLimit_def)
    then show ?thesis using assms f True False by auto
  next
    case late: False
    then have "shouldRateLimit t r = Ok (False, r\<lparr>rl_times := rest @ [t]\<rparr>)"
      using assms(2,3) fr l by (auto simp: shouldRateLimit_def)
    moreover have "window_ok n (rl_interval r) (acc @ [t])"
      using window_ok_snoc [OF assms(4,1), of t] late f by simp
    ultimately show ?thesis using False late f fr assms(1) by (auto simp: last_n_snoc)
  qed
qed

text \<open>
  The reference: a request is over the limit when the accepted requests of the last interval,
  counted over the whole history, already are as many as the limit.
\<close>

fun sliding_window :: "nat \<Rightarrow> int \<Rightarrow> int list \<Rightarrow> int list \<Rightarrow> int list \<times> int list" where
  "sliding_window n d hist [] = ([], [])"
| "sliding_window n d hist (t # ts) =
     (if n \<le> length (filter (\<lambda>a. t - a < d) hist)
      then (case sliding_window n d hist ts of (acc, rej) \<Rightarrow> (acc, t # rej))
      else (case sliding_window n d (hist @ [t]) ts of (acc, rej) \<Rightarrow> (t # acc, rej)))"

lemma sorted_count_recent:
  assumes "sorted hist" "0 < n"
  shows "n \<le> length (filter (\<lambda>a. t - a < d) hist) \<longleftrightarrow>
    n \<le> length hist \<and> t - hist ! (length hist - n) < (d :: int)"
proof -
  let ?P = "\<lambda>a. t - a < d"
  have "filter ?P hist = dropWhile (\<lambda>a. \<not> ?P a) hist"
    using assms(1)
  proof (induction hist)
    case (Cons a hist)
    show ?case
    proof (cases "?P a")
      case True
      then have "\<forall>b \<in> set hist. ?P b" using Cons.prems by fastforce
      then show ?thesis using True by simp
    qed (use Cons in simp)
  qed simp
  also have "\<dots> = drop (length (takeWhile (\<lambda>a. \<not> ?P a) hist)) hist" by (rule dropWhile_eq_drop)
  finally have len: "length (filter ?P hist) = length hist - length (takeWhile (\<lambda>a. \<not> ?P a) hist)" by simp
  let ?k = "length (takeWhile (\<lambda>a. \<not> ?P a) hist)"
  have k: "?k \<le> length hist" by (rule length_takeWhile_le)
  have before: "\<not> ?P (hist ! i)" if "i < ?k" for i
    using that by (metis nth_mem set_takeWhileD takeWhile_nth)
  have after: "?P (hist ! i)" if "?k \<le> i" "i < length hist" for i
  proof -
    have "?P (hist ! ?k)" using nth_length_takeWhile [of "\<lambda>a. \<not> ?P a" hist] that by simp
    moreover have "hist ! ?k \<le> hist ! i" using assms(1) that by (simp add: sorted_nth_mono)
    ultimately show ?thesis by simp
  qed
  show ?thesis
  proof
    assume "n \<le> length (filter ?P hist)"
    then show "n \<le> length hist \<and> ?P (hist ! (length hist - n))"
      using after [of "length hist - n"] assms(2) len k by linarith
  next
    assume r: "n \<le> length hist \<and> ?P (hist ! (length hist - n))"
    then have "?k \<le> length hist - n" using before [of "length hist - n"] by linarith
    then show "n \<le> length (filter ?P hist)" using len r by linarith
  qed
qed

lemma rl_run_sliding:
  assumes "0 < n" "rl_limit r = int n" "rl_times r = last_n n hist" "window_ok n (rl_interval r) hist" "sorted (hist @ ts)"
  shows "\<exists>acc rej r'. rl_run ts r = Ok (acc, rej, r') \<and> (acc, rej) = sliding_window n (rl_interval r) hist ts \<and>
    window_ok n (rl_interval r) (hist @ acc)"
  using assms
proof (induction ts arbitrary: r hist)
  case (Cons t ts)
  obtain b r1 where s: "shouldRateLimit t r = Ok (b, r1)" "rl_limit r1 = rl_limit r" "rl_interval r1 = rl_interval r"
    "rl_times r1 = last_n n (if b then hist else hist @ [t])" "window_ok n (rl_interval r) (if b then hist else hist @ [t])"
    "b \<longleftrightarrow> n \<le> length hist \<and> t - hist ! (length hist - n) < rl_interval r"
    using shouldRateLimit_step [OF Cons.prems(1-4)] by blast
  have "b \<longleftrightarrow> n \<le> length (filter (\<lambda>a. t - a < rl_interval r) hist)"
    using s(6) sorted_count_recent [of hist n t "rl_interval r"] Cons.prems(1,5) by (simp add: sorted_append)
  moreover have "sorted ((if b then hist else hist @ [t]) @ ts)"
    using Cons.prems(5) by (auto simp: sorted_append)
  then obtain acc rej r' where "rl_run ts r1 = Ok (acc, rej, r')"
    "(acc, rej) = sliding_window n (rl_interval r) (if b then hist else hist @ [t]) ts"
    "window_ok n (rl_interval r) ((if b then hist else hist @ [t]) @ acc)"
    using Cons.IH [of r1 "if b then hist else hist @ [t]"] Cons.prems s by auto
  ultimately show ?case using s(1) by (cases b) (auto split: prod.splits)
qed simp

section \<open>Properties\<close>

text \<open>
  C9: the rate limiter is a sliding window. With a positive limit, for any sequence of requests at
  increasing times, no request makes it panic, and although only the last accepted times are remembered, it
  accepts and rejects exactly the requests that counting over the whole history
  accepts and rejects: one is rejected when the last interval already holds \<open>limit\<close> accepted ones. So any two
  accepted requests that are \<open>limit\<close> places apart are at least the interval apart.
\<close>

theorem rate_limit_window:
  assumes "0 < limit" "sorted ts"
  shows "\<exists>acc rej r'. rl_run ts (NewRateLimiter limit interval fd) = Ok (acc, rej, r') \<and>
    (acc, rej) = sliding_window (nat limit) interval [] ts \<and>
    (\<forall>i. i + nat limit < length acc \<longrightarrow> interval \<le> acc ! (i + nat limit) - acc ! i)"
  using rl_run_sliding [of "nat limit" "NewRateLimiter limit interval fd" "[]" ts] assms
  by (simp add: NewRateLimiter_def last_n_def window_ok_def)

theorem rate_limit_window_witness:
  "\<exists>r'. rl_run [0, 1, 2, 10] (NewRateLimiter 2 10 True) = Ok ([0, 1, 10], [2], r')"
  using rate_limit_window [of 2 "[0, 1, 2, 10]" 10 True] by simp

end
