(* ===== verification/RemoteService.thy ===== *)
theory RemoteService
  imports RpcClient Router Component Pipeline
begin

text \<open>
  \<open>service/remote.go\<close> and \<open>service/util.go\<close>: registering components, handling the requests that come in,
  and making calls. The values passed to and from user methods have an open type; how a user method
  behaves (\<open>invoke\<close>), the hooks and the protocol buffer library are parameters.
\<close>

section \<open>Data\<close>

text \<open>
  \<open>va_parse ty data\<close>: a new value of the type filled from the data; \<open>None\<close> inside when the type is no
  protocol message. \<open>va_print v\<close>: the bytes of a returned value; \<open>None\<close> when it is no protocol message.
\<close>

record 'v valuelib =
  va_parse :: "gtype \<Rightarrow> bytes \<Rightarrow> (goerror + 'v) option"
  va_print :: "'v \<Rightarrow> (goerror + bytes) option"

record 'v RemoteService =
  rs_services :: "(string, service) gomap"
  rs_remotes :: "(string, Remote) gomap"
  rs_server :: server
  rs_router :: Router
  rs_hooks :: "(ctx, 'v option) Hooks"

definition NewRemoteService :: "Router \<Rightarrow> server \<Rightarrow> (ctx, 'v option) Hooks \<Rightarrow> 'v RemoteService" where
  "NewRemoteService router sv hooks =
     \<lparr>rs_services = gm_empty, rs_remotes = gm_empty, rs_server = sv, rs_router = router, rs_hooks = hooks\<rparr>"

section \<open>Registration\<close>

definition Register :: "(string \<Rightarrow> bool) \<Rightarrow> gcomponent \<Rightarrow> (options \<Rightarrow> options) list \<Rightarrow> 'v RemoteService \<Rightarrow>
    (goerror, unit) outcome \<times> 'v RemoteService" where
  "Register uni_upper cmp opts r =
     (let s = NewService cmp opts in
      if gm_get (rs_services r) (se_Name s) \<noteq> None
      then (Err (PlainError (''remote: service already defined: '' @ se_Name s)), r)
      else
        case ExtractRemote uni_upper s of
          (Ok _, s) \<Rightarrow>
            (Ok (), r\<lparr>rs_services := gm_put (se_Name s) s (rs_services r),
                      rs_remotes := fold (\<lambda>(name, remote) rs. gm_put (se_Name s @ ''.'' @ name) remote rs)
                        (se_Remotes s) (rs_remotes r)\<rparr>)
        | (e, _) \<Rightarrow> (e, r))"

section \<open>Incoming requests\<close>

definition unmarshalRemoteArg :: "'v valuelib \<Rightarrow> Remote \<Rightarrow> bytes \<Rightarrow> (goerror, 'v option) outcome" where
  "unmarshalRemoteArg va remote payload =
     (case rm_Type remote of
        None \<Rightarrow> Ok None
      | Some ty \<Rightarrow>
          if \<not> gt_elem ty then Panic (''reflect: Elem of invalid type '' @ gt_name ty)
          else
            case va_parse va ty payload of
              None \<Rightarrow> Err ErrWrongValueType
            | Some (Inl e) \<Rightarrow> Err e
            | Some (Inr v) \<Rightarrow> Ok (Some v))"

definition handleRPC :: "'v valuelib \<Rightarrow> (Remote \<Rightarrow> ctx \<Rightarrow> 'v option \<Rightarrow> 'v call_result) \<Rightarrow> 'v RemoteService \<Rightarrow>
    ctx \<Rightarrow> p_request \<Rightarrow> route \<Rightarrow> (goerror, p_response) outcome" where
  "handleRPC va invoke r c req rt =
     (case gm_get (rs_remotes r) (route_Short rt) of
        None \<Rightarrow> Ok (error_response ErrNotFoundCode ''route not found'' [(''route'', route_Short rt)])
      | Some remote \<Rightarrow>
          (case (if rm_HasArgs remote then unmarshalRemoteArg va remote (pm_Data (GetMsg req)) else Ok None) of
             Err e \<Rightarrow> Ok (error_response ErrBadRequestCode (err_Error e) [])
           | Panic p \<Rightarrow> Panic p
           | Ok arg \<Rightarrow>
               (case ExecuteBeforePipeline (hk_BeforeHandler (rs_hooks r)) c arg of
                  (c, arg, Some e) \<Rightarrow> Ok (error_response ErrInternalCode (err_Error e) [])
                | (c, arg, None) \<Rightarrow>
                    (case Pcall (me_Name (rm_Method remote)) (invoke remote c (if rm_HasArgs remote then arg else None)) of
                       (ret, err) \<Rightarrow>
                         (case ExecuteAfterPipeline (hk_AfterHandler (rs_hooks r)) c ret err of
                            (ret, Some err) \<Rightarrow>
                              Ok (error_response (case is_nrpc err of Some val \<Rightarrow> ne_Code val | None \<Rightarrow> ErrUnknownCode)
                                (err_Error err) (case is_nrpc err of Some val \<Rightarrow> md_list (ne_Metadata val) | None \<Rightarrow> []))
                          | (None, None) \<Rightarrow> Ok \<lparr>ps_Data = [], ps_Error = None\<rparr>
                          | (Some v, None) \<Rightarrow>
                              (case va_print va v of
                                 None \<Rightarrow> Ok (error_response ErrUnknownCode (err_Error ErrWrongValueType) [])
                               | Some (Inl e) \<Rightarrow> Ok (error_response ErrUnknownCode (err_Error e) [])
                               | Some (Inr b) \<Rightarrow> Ok \<lparr>ps_Data = b, ps_Error = None\<rparr>))))))"

definition processRemoteMessage :: "'v valuelib \<Rightarrow> (Remote \<Rightarrow> ctx \<Rightarrow> 'v option \<Rightarrow> 'v call_result) \<Rightarrow> 'v RemoteService \<Rightarrow>
    ctx \<Rightarrow> p_request \<Rightarrow> (goerror, p_response) outcome" where
  "processRemoteMessage va invoke r c req =
     (case route_Decode (pm_Route (GetMsg req)) of
        Ok rt \<Rightarrow> handleRPC va invoke r c req rt
      | _ \<Rightarrow> Ok (error_response ErrBadRequestCode ''cannot decode route'' [(''route'', pm_Route (GetMsg req))]))"

text \<open>
  \<open>Call\<close>, the handler of the RPC server. The response is returned with the error, if any.
\<close>

definition rs_Call :: "tracer \<Rightarrow> mapjson \<Rightarrow> string \<Rightarrow> 'v valuelib \<Rightarrow> (Remote \<Rightarrow> ctx \<Rightarrow> 'v option \<Rightarrow> 'v call_result) \<Rightarrow>
    'v RemoteService \<Rightarrow> p_request \<Rightarrow> heap \<Rightarrow> (goerror, p_response \<times> goerror option) outcome" where
  "rs_Call tr mj nuid va invoke r req h =
     (case GetContextFromRequest mj nuid req h of
        Panic p \<Rightarrow> Panic p
      | Err e \<Rightarrow> Ok (error_response ErrInternalCode (err_Error e) [], Some (PlainError (err_Error e)))
      | Ok (c, h) \<Rightarrow>
          bind_outcome (StartSpanFromRequest tr (Some c) (sv_ID (rs_server r)) (pm_Route (GetMsg req)) h) (\<lambda>c.
          case c of
            None \<Rightarrow> Panic nil_context
          | Some c \<Rightarrow> bind_outcome (processRemoteMessage va invoke r c req) (\<lambda>res. Ok (res, None))))"

section \<open>Outgoing calls\<close>

text \<open>
  \<open>remoteCall\<close>: \<open>call\<close> is the RPC client's \<open>Call\<close>. Without a given server the router chooses one.
\<close>

definition remoteCall :: "(nat \<Rightarrow> nat) \<Rightarrow> (ctx option \<Rightarrow> server \<Rightarrow> (goerror, p_response) outcome) \<Rightarrow> 'v RemoteService \<Rightarrow>
    ctx option \<Rightarrow> server option \<Rightarrow> route \<Rightarrow> message \<Rightarrow> (goerror, p_response) outcome" where
  "remoteCall intn call r c sv rt msg =
     (case sv of
        Some target \<Rightarrow> call c target
      | None \<Rightarrow>
          bind_outcome (router_Route intn (rs_router r) c (SvType rt) rt msg) (\<lambda>(c, target, err).
          case err of
            Some e \<Rightarrow> Err (NrpcError (NewError e ErrInternalCode []))
          | None \<Rightarrow> (case target of None \<Rightarrow> Panic nil_context | Some t \<Rightarrow> call c t)))"

definition DoRPC :: "(nat \<Rightarrow> nat) \<Rightarrow> (message \<Rightarrow> ctx option \<Rightarrow> server \<Rightarrow> (goerror, p_response) outcome) \<Rightarrow> 'v RemoteService \<Rightarrow>
    sdstate \<Rightarrow> ctx option \<Rightarrow> string \<Rightarrow> byte \<Rightarrow> route \<Rightarrow> bytes \<Rightarrow> (goerror, p_response) outcome" where
  "DoRPC intn call r sd c serverID mt rt protoData =
     (let msg = \<lparr>msg_Type = mt, msg_ID = 0, msg_Route = route_Short rt, msg_Data = protoData,
                 msg_compressed = False, msg_Err = False\<rparr> in
      if serverID = '''' then remoteCall intn (call msg) r c None rt msg
      else
        case GetServer serverID sd of
          Ok target \<Rightarrow> remoteCall intn (call msg) r c (Some target) rt msg
        | _ \<Rightarrow> Err ErrServerNotFound)"

text \<open>
  \<open>RPC\<close>: \<open>arg\<close> is what marshalling the argument gave (\<open>None\<close> for a nil argument), \<open>unmarshal_reply\<close>
  what reading the answer into the reply gives, when there is a reply to fill.
\<close>

definition rs_RPC :: "(nat \<Rightarrow> nat) \<Rightarrow> (message \<Rightarrow> ctx option \<Rightarrow> server \<Rightarrow> (goerror, p_response) outcome) \<Rightarrow> 'v RemoteService \<Rightarrow>
    sdstate \<Rightarrow> ctx option \<Rightarrow> string \<Rightarrow> byte \<Rightarrow> route \<Rightarrow> (bytes \<Rightarrow> goerror option) option \<Rightarrow> (goerror + bytes) option \<Rightarrow>
    (goerror, unit) outcome" where
  "rs_RPC intn call r sd c serverID mt rt unmarshal_reply arg =
     (case arg of
        Some (Inl e) \<Rightarrow> Err e
      | _ \<Rightarrow>
          let data = (case arg of Some (Inr d) \<Rightarrow> d | _ \<Rightarrow> []) in
          bind_outcome (DoRPC intn call r sd c serverID mt rt data) (\<lambda>res.
          case ps_Error res of
            Some pe \<Rightarrow> Err (NrpcError \<lparr>ne_Code = pe_Code pe, ne_Message = pe_Msg pe, ne_Metadata = md_ptr (pe_Metadata pe)\<rparr>)
          | None \<Rightarrow>
              (case unmarshal_reply of
                 None \<Rightarrow> Ok ()
               | Some u \<Rightarrow> (case u (ps_Data res) of None \<Rightarrow> Ok () | Some e \<Rightarrow> Err e))))"

section \<open>Local handlers\<close>

definition unmarshalHandlerArg :: "(gtype \<Rightarrow> bytes \<Rightarrow> goerror + 'v) \<Rightarrow> Handler \<Rightarrow> bytes \<Rightarrow> (goerror, 'v sval option) outcome" where
  "unmarshalHandlerArg unmarshal handler payload =
     (if hd_IsRawArg handler then Ok (Some (RawBytes payload))
      else
        case hd_Type handler of
          None \<Rightarrow> Ok None
        | Some ty \<Rightarrow> (case unmarshal ty payload of Inl e \<Rightarrow> Err e | Inr v \<Rightarrow> Ok (Some (Val v))))"

text \<open>A message type that is a \<open>message.Type\<close>, a \<open>protos.MsgType\<close>, or something else.\<close>

datatype msg_iface = MsgTypeIface byte | ProtoTypeIface int | OtherIface

definition errInvalidMsg :: goerror where
  "errInvalidMsg = PlainError ''invalid message type provided''"

definition getMsgType :: "msg_iface \<Rightarrow> (goerror, byte) outcome" where
  "getMsgType i =
     (case i of
        MsgTypeIface t \<Rightarrow> Ok t
      | ProtoTypeIface t \<Rightarrow> Ok (ConvertProtoToMessageType t)
      | OtherIface \<Rightarrow> Err errInvalidMsg)"

definition serializeReturn :: "('v \<Rightarrow> goerror + bytes) \<Rightarrow> (p_error \<Rightarrow> goerror + bytes) \<Rightarrow> 'v sval \<Rightarrow> (goerror, bytes) outcome" where
  "serializeReturn marshal marshal_err ret =
     (case SerializeOrRaw marshal ret of
        Err e \<Rightarrow> GetErrorPayload marshal_err e
      | r \<Rightarrow> r)"

section \<open>Lemmas\<close>

lemma fold_put_prefix:
  assumes "gm_wf m"
  shows "gm_get (fold (\<lambda>(name, v) rs. gm_put (p @ name) v rs) m old) (p @ k) =
    (case gm_get m k of Some v \<Rightarrow> Some v | None \<Rightarrow> gm_get old (p @ k))"
  using assms
proof (induction m arbitrary: old)
  case (Cons kv m)
  obtain n v where kv: "kv = (n, v)" by (cases kv)
  have wf: "gm_wf m" and nn: "gm_get m n = None"
    using Cons.prems kv by (auto simp: gm_wf_def gm_get_def map_of_eq_None_iff)
  show ?case
    using Cons.IH [OF wf, of "gm_put (p @ n) v old"] nn kv by (auto simp: gm_get_Cons split: option.splits)
qed simp

text \<open>What the answer to a request is, given what the method returned.\<close>

definition response_of :: "'v valuelib \<Rightarrow> 'v option \<times> goerror option \<Rightarrow> p_response" where
  "response_of va res =
     (case res of
        (_, Some err) \<Rightarrow>
          error_response (case is_nrpc err of Some val \<Rightarrow> ne_Code val | None \<Rightarrow> ErrUnknownCode)
            (err_Error err) (case is_nrpc err of Some val \<Rightarrow> md_list (ne_Metadata val) | None \<Rightarrow> [])
      | (None, None) \<Rightarrow> \<lparr>ps_Data = [], ps_Error = None\<rparr>
      | (Some v, None) \<Rightarrow>
          (case va_print va v of
             None \<Rightarrow> error_response ErrUnknownCode (err_Error ErrWrongValueType) []
           | Some (Inl e) \<Rightarrow> error_response ErrUnknownCode (err_Error e) []
           | Some (Inr b) \<Rightarrow> \<lparr>ps_Data = b, ps_Error = None\<rparr>))"

lemma handleRPC_found:
  assumes "gm_get (rs_remotes r) (route_Short rt) = Some remote"
    and "(if rm_HasArgs remote then unmarshalRemoteArg va remote (pm_Data (GetMsg req)) else Ok None) = Ok arg"
    and "ExecuteBeforePipeline (hk_BeforeHandler (rs_hooks r)) c arg = (c', arg', None)"
  shows "handleRPC va invoke r c req rt = Ok (response_of va
    (ExecuteAfterPipeline (hk_AfterHandler (rs_hooks r)) c'
      (fst (Pcall (me_Name (rm_Method remote)) (invoke remote c' (if rm_HasArgs remote then arg' else None))))
      (snd (Pcall (me_Name (rm_Method remote)) (invoke remote c' (if rm_HasArgs remote then arg' else None))))))"
  using assms
  by (auto simp: handleRPC_def response_of_def split: prod.splits option.splits sum.splits)

lemma handleRPC_returns:
  assumes "gm_get (rs_remotes r) (route_Short rt) = Some remote"
    and "(if rm_HasArgs remote then unmarshalRemoteArg va remote (pm_Data (GetMsg req)) else Ok None) = Ok arg"
  shows "\<exists>res. handleRPC va invoke r c req rt = Ok res"
proof (cases "ExecuteBeforePipeline (hk_BeforeHandler (rs_hooks r)) c arg")
  case (fields c' arg' err)
  then show ?thesis
    using handleRPC_found [OF assms, of c c' arg' invoke] assms
    by (cases err) (auto simp: handleRPC_def)
qed

lemma Register_remote:
  assumes "Register u cmp opts r = (Ok (), r')" "s = NewService cmp opts"
    and "gm_get (suitableRemoteMethods (co_methods cmp) (op_nameFunc (se_Options s))) mn = Some remote"
  shows "rs_hooks r' = rs_hooks r \<and> gm_get (rs_services r') (se_Name s) \<noteq> None \<and>
    gm_get (rs_remotes r') (se_Name s @ ''.'' @ mn) = Some (remote\<lparr>rm_Receiver := Some cmp\<rparr>)"
proof -
  have sc: "se_Comp s = cmp" using assms(2) by (simp add: NewService_def Let_def)
  obtain s' where e: "ExtractRemote u s = (Ok (), s')"
    using assms(1,2) by (auto simp: Register_def Let_def split: if_splits prod.splits outcome.splits)
  have g: "se_Name s' = se_Name s" "gm_wf (se_Remotes s')"
    "gm_get (se_Remotes s') mn = Some (remote\<lparr>rm_Receiver := Some cmp\<rparr>)"
    using ExtractRemote_get [OF e, of mn] assms(3) sc by simp_all
  have r': "r' = r\<lparr>rs_services := gm_put (se_Name s) s' (rs_services r),
      rs_remotes := fold (\<lambda>(name, remote) rs. gm_put ((se_Name s @ ''.'') @ name) remote rs) (se_Remotes s') (rs_remotes r)\<rparr>"
    using assms(1,2) e g(1) by (auto simp: Register_def Let_def split: if_splits)
  show ?thesis
    using fold_put_prefix [OF g(2), of "se_Name s @ ''.''" "rs_remotes r" mn] g(3)
    by (simp add: r')
qed

lemma pipeline_none [simp]:
  "ExecuteBeforePipeline (hk_BeforeHandler NewRemoteHooks) c v = (c, v, None)"
  "ExecuteAfterPipeline (hk_AfterHandler NewRemoteHooks) c ret err = (ret, err)"
  by (simp_all add: ExecuteBeforePipeline_def ExecuteAfterPipeline_def NewRemoteHooks_def NewChannel_def NewAfterChannel_def)

text \<open>A request for a method of a registered component, when no hooks are installed.\<close>

lemma processRemoteMessage_registered:
  assumes "Register u cmp opts r = (Ok (), r')" "rs_hooks r = NewRemoteHooks"
    and "gm_get (suitableRemoteMethods (co_methods cmp) (op_nameFunc (se_Options (NewService cmp opts)))) mn = Some remote"
    and "route_Decode (pm_Route (GetMsg req)) = Ok rt" "Service rt = se_Name (NewService cmp opts)" "Method rt = mn"
    and "(if rm_HasArgs remote then unmarshalRemoteArg va remote (pm_Data (GetMsg req)) else Ok None) = Ok arg"
  shows "processRemoteMessage va invoke r' c req = Ok (response_of va
    (Pcall (me_Name (rm_Method remote)) (invoke (remote\<lparr>rm_Receiver := Some cmp\<rparr>) c (if rm_HasArgs remote then arg else None))))"
proof -
  have g: "rs_hooks r' = NewRemoteHooks" "gm_get (rs_remotes r') (route_Short rt) = Some (remote\<lparr>rm_Receiver := Some cmp\<rparr>)"
    using Register_remote [OF assms(1) refl assms(3)] assms(2,5,6) by (simp_all add: route_Short_def)
  have "(if rm_HasArgs (remote\<lparr>rm_Receiver := Some cmp\<rparr>)
      then unmarshalRemoteArg va (remote\<lparr>rm_Receiver := Some cmp\<rparr>) (pm_Data (GetMsg req)) else Ok None) = Ok arg"
    using assms(7) by (cases "rm_HasArgs remote") (simp_all add: unmarshalRemoteArg_def)
  then have "handleRPC va invoke r' c req rt = Ok (response_of va
    (Pcall (me_Name (rm_Method remote)) (invoke (remote\<lparr>rm_Receiver := Some cmp\<rparr>) c (if rm_HasArgs remote then arg else None))))"
    using handleRPC_found [OF g(2), of va req arg c c arg invoke] g(1) by simp
  then show ?thesis using assms(4) by (simp add: processRemoteMessage_def)
qed

section \<open>Properties\<close>

text \<open>
  C21: a registered method is served. After a component has been registered, a request whose route names
  its service and one of its suitable methods (under the configured renaming) is answered with the
  outcome of exactly this method: its value, its error with code and metadata, or, when it
  panics, an error; never with a panic of the server.
\<close>

theorem registered_method_served:
  assumes "Register u cmp opts r = (Ok (), r')" "rs_hooks r = NewRemoteHooks"
    and "gm_get (suitableRemoteMethods (co_methods cmp) (op_nameFunc (se_Options (NewService cmp opts)))) mn = Some remote"
    and "route_Decode (pm_Route (GetMsg req)) = Ok rt" "Service rt = se_Name (NewService cmp opts)" "Method rt = mn"
    and "(if rm_HasArgs remote then unmarshalRemoteArg va remote (pm_Data (GetMsg req)) else Ok None) = Ok arg"
  shows "processRemoteMessage va invoke r' c req = Ok (response_of va
    (Pcall (me_Name (rm_Method remote)) (invoke (remote\<lparr>rm_Receiver := Some cmp\<rparr>) c (if rm_HasArgs remote then arg else None))))"
  by (rule processRemoteMessage_registered [OF assms])

definition sample_method :: gmethod where
  "sample_method = \<lparr>me_Name = ''Join'', me_PkgPath = '''',
     me_In = [\<lparr>gt_name = ''*Room'', gt_ptr = True, gt_elem = True, gt_context = False, gt_proto = False\<rparr>,
              \<lparr>gt_name = ''context.Context'', gt_ptr = False, gt_elem = False, gt_context = True, gt_proto = False\<rparr>],
     me_Out = []\<rparr>"

definition sample_component :: gcomponent where
  "sample_component = \<lparr>co_typeName = ''Room'', co_typeString = ''*Room'', co_methods = [sample_method], co_ptrMethods = []\<rparr>"

definition sample_remotes :: "nat RemoteService" where
  "sample_remotes = NewRemoteService router_New sample_server NewRemoteHooks"

lemma sample_registered:
  "gm_get (suitableRemoteMethods (co_methods sample_component) (op_nameFunc (se_Options (NewService sample_component [])))) ''Join'' =
      Some \<lparr>rm_Receiver = None, rm_Method = sample_method, rm_HasArgs = False, rm_Type = None\<rparr>"
  "se_Name (NewService sample_component []) = ''Room''" "rs_hooks sample_remotes = NewRemoteHooks"
  "\<exists>r'. Register (\<lambda>_. False) sample_component [] sample_remotes = (Ok (), r')"
  "route_Decode ''game.Room.Join'' = Ok \<lparr>SvType = ''game'', Service = ''Room'', Method = ''Join''\<rparr>"
proof -
  have m: "isRemoteMethod sample_method" by (simp add: isRemoteMethod_def sample_method_def)
  show "gm_get (suitableRemoteMethods (co_methods sample_component) (op_nameFunc (se_Options (NewService sample_component [])))) ''Join'' =
      Some \<lparr>rm_Receiver = None, rm_Method = sample_method, rm_HasArgs = False, rm_Type = None\<rparr>"
    using m by (simp add: suitableRemoteMethods_get sample_component_def NewService_def rename_def sample_method_def)
  show "\<exists>r'. Register (\<lambda>_. False) sample_component [] sample_remotes = (Ok (), r')"
    using m by (simp add: Register_def sample_remotes_def NewRemoteService_def ExtractRemote_def Let_def isExported_def
        suitableRemoteMethods_def gm_put_def gm_empty_def NewService_def sample_component_def)
  show "se_Name (NewService sample_component []) = ''Room''" "rs_hooks sample_remotes = NewRemoteHooks"
    by (simp_all add: NewService_def sample_component_def sample_remotes_def NewRemoteService_def)
  show "route_Decode ''game.Room.Join'' = Ok \<lparr>SvType = ''game'', Service = ''Room'', Method = ''Join''\<rparr>"
    by code_simp
qed

theorem registered_method_served_witness:
  "processRemoteMessage \<lparr>va_parse = \<lambda>_ _. None, va_print = \<lambda>_. None\<rparr> (\<lambda>_ _ _. PanicString ''boom'')
     (snd (Register (\<lambda>_. False) sample_component [] sample_remotes)) Background
     \<lparr>pr_Msg = Some (zero_msg\<lparr>pm_Route := ''game.Room.Join''\<rparr>), pr_Metadata = []\<rparr> =
   Ok (error_response ErrUnknownCode ''boom'' [])"
proof -
  let ?req = "\<lparr>pr_Msg = Some (zero_msg\<lparr>pm_Route := ''game.Room.Join''\<rparr>), pr_Metadata = []\<rparr>"
  obtain r' where r: "Register (\<lambda>_. False) sample_component [] sample_remotes = (Ok (), r')"
    using sample_registered(4) ..
  have ok: "route_Decode (pm_Route (GetMsg ?req)) = Ok \<lparr>SvType = ''game'', Service = ''Room'', Method = ''Join''\<rparr>"
    by (simp add: GetMsg_def sample_registered)
  show ?thesis
    using registered_method_served [OF r sample_registered(3,1) ok, of "\<lparr>va_parse = \<lambda>_ _. None, va_print = \<lambda>_. None\<rparr>" None "\<lambda>_ _ _. PanicString ''boom''" Background]
    by (simp add: r sample_registered Pcall_def response_of_def is_nrpc_def)
qed


end
