(* ===== verification/WorkerPool.thy ===== *)
theory WorkerPool
  imports Prelude Errors "HOL-Library.Multiset"
begin

text \<open>
  \<open>cluster/worker_pool.go\<close>: tasks that carry the same share id are run one after the other by a queue
  with a goroutine of its own. The first part models the choice of the queue (\<open>hash\<close>, \<open>getQueue\<close>), as
  one call and as the two accesses to the shared map it consists of. The second part is the state machine of
  one queue: submitting goroutines, the worker and the cleanup that retires idle queues, over the
  queue's mutex, wait group and channel.
\<close>

section \<open>Choosing the queue\<close>

text \<open>FNV-1a over 32 bits, as \<open>hash/fnv\<close> computes it; Go's \<open>int\<close> holds every 32-bit value.\<close>

definition fnv_step :: "32 word \<Rightarrow> byte \<Rightarrow> 32 word" where
  "fnv_step h b = (h XOR ucast b) * 16777619"

definition hash :: "string \<Rightarrow> int" where
  "hash uid = uint (foldl fnv_step 2166136261 (bytes_of_string uid))"

record WorkerPool =
  wp_queues :: "(string, nat) gomap"
  wp_next :: nat
  wp_queueNum :: int
  wp_queueSize :: int
  wp_clearInterval :: int
  wp_clearTimePass :: int
  wp_quit_closed :: bool
  wp_cleanup :: bool

definition NewWorkerPool :: "int \<Rightarrow> int \<Rightarrow> int \<Rightarrow> int \<Rightarrow> WorkerPool" where
  "NewWorkerPool queueNum queueSize clearInterval clearTimePass =
     \<lparr>wp_queues = gm_empty, wp_next = 0, wp_queueNum = queueNum, wp_queueSize = queueSize,
      wp_clearInterval = clearInterval, wp_clearTimePass = clearTimePass, wp_quit_closed = False, wp_cleanup = False\<rparr>"

definition wp_Start :: "WorkerPool \<Rightarrow> WorkerPool" where
  "wp_Start m = (if wp_clearInterval m > 0 \<and> wp_clearTimePass m > 0 then m\<lparr>wp_cleanup := True\<rparr> else m)"

definition queue_key :: "WorkerPool \<Rightarrow> string \<Rightarrow> string" where
  "queue_key m uid = (if wp_queueNum m > 0 then Itoa (hash uid mod wp_queueNum m) else uid)"

text \<open>The second access of \<open>getQueue\<close>: a new queue, stored under the key. A negative buffer size panics.\<close>

definition store_queue :: "string \<Rightarrow> WorkerPool \<Rightarrow> (goerror, nat \<times> WorkerPool) outcome" where
  "store_queue key m =
     (if wp_queueSize m < 0 then Panic ''makechan: size out of range''
      else Ok (wp_next m, m\<lparr>wp_next := Suc (wp_next m), wp_queues := gm_put key (wp_next m) (wp_queues m)\<rparr>))"

definition getQueue :: "string \<Rightarrow> WorkerPool \<Rightarrow> (goerror, nat \<times> WorkerPool) outcome" where
  "getQueue uid m =
     (let key = queue_key m uid in
      case gm_get (wp_queues m) key of
        Some q \<Rightarrow> Ok (q, m)
      | None \<Rightarrow> store_queue key m)"

text \<open>
  \<open>Stop\<close> of the pool: the quit channel is closed (a second time is a panic) and every queue is stopped; the
  second result are the queues in the order they are visited.
\<close>

definition wp_Stop :: "WorkerPool \<Rightarrow> (goerror, nat list) outcome \<times> WorkerPool" where
  "wp_Stop m =
     (if wp_quit_closed m then (Panic ''close of closed channel'', m)
      else (Ok (gm_vals (wp_queues m)), m\<lparr>wp_quit_closed := True\<rparr>))"

text \<open>
  One round of the cleanup, when none of the queues it stops has work left: \<open>lastActive\<close> is the time a queue was last used. The
  queues that are idle for too long are stopped and forgotten; the first result are those.
\<close>

definition cleanupOldQueues :: "(nat \<Rightarrow> int) \<Rightarrow> int \<Rightarrow> WorkerPool \<Rightarrow> nat list \<times> WorkerPool" where
  "cleanupOldQueues lastActive now m =
     fold (\<lambda>(key, q) (stopped, m).
       if now - lastActive q > wp_clearTimePass m then (stopped @ [q], m\<lparr>wp_queues := gm_del key (wp_queues m)\<rparr>)
       else (stopped, m)) (wp_queues m) ([], m)"

subsection \<open>Several goroutines at once\<close>

text \<open>
  Where a goroutine inside \<open>getQueue\<close> is: before the \<open>Load\<close>, after a \<open>Load\<close> that found
  nothing, or done with a queue. Requests are processed by many goroutines, so these interleave.
\<close>

datatype getter = Loading string | Missed string | Got string nat

inductive get_step :: "WorkerPool \<times> getter list \<Rightarrow> WorkerPool \<times> getter list \<Rightarrow> bool" where
  load_hit: "i < length gs \<Longrightarrow> gs ! i = Loading uid \<Longrightarrow> gm_get (wp_queues m) (queue_key m uid) = Some q \<Longrightarrow>
    get_step (m, gs) (m, gs[i := Got uid q])"
| load_miss: "i < length gs \<Longrightarrow> gs ! i = Loading uid \<Longrightarrow> gm_get (wp_queues m) (queue_key m uid) = None \<Longrightarrow>
    get_step (m, gs) (m, gs[i := Missed uid])"
| store: "i < length gs \<Longrightarrow> gs ! i = Missed uid \<Longrightarrow> store_queue (queue_key m uid) m = Ok (q, m') \<Longrightarrow>
    get_step (m, gs) (m', gs[i := Got uid q])"

section \<open>One queue\<close>

text \<open>
  The worker waits for a task, runs one, or has run it and waits for the mutex to note the time. The
  cleanup is elsewhere, or holds the mutex and waits in \<open>Stop\<close> for the wait group.
\<close>

datatype worker_state = WIdle | WRunning nat | WLocking nat | WExited
datatype cleaner_state = CElsewhere | CStopping | CFinished

record WorkerQueue =
  wq_cap :: nat
  wq_buf :: "nat list"
  wq_worker :: worker_state
  wq_cleaner :: cleaner_state
  wq_wg :: int
  wq_lastActive :: int
  wq_closed :: bool
  wq_adding :: "nat multiset"
  wq_sending :: "nat multiset"
  wq_sent :: "nat list"
  wq_done :: "nat list"
  wq_panicked :: bool
  wq_now :: int

definition NewWorkerQueue :: "nat \<Rightarrow> int \<Rightarrow> WorkerQueue" where
  "NewWorkerQueue bufferSize now =
     \<lparr>wq_cap = bufferSize, wq_buf = [], wq_worker = WIdle, wq_cleaner = CElsewhere, wq_wg = 0, wq_lastActive = now,
      wq_closed = False, wq_adding = {#}, wq_sending = {#}, wq_sent = [], wq_done = [], wq_panicked = False, wq_now = now\<rparr>"

text \<open>
  \<open>wq_adding\<close>: submitters that have noted the time but not yet called \<open>wg.Add\<close>; \<open>wq_sending\<close>: those that
  have and are about to send. A send goes into the buffer, or directly to an idle worker when the
  buffer has no room for it; on a closed channel it panics. \<open>pass\<close> is \<open>clearTimePass\<close>. The mutex is
  only held over several steps by the cleanup.
\<close>

inductive wq_step :: "int \<Rightarrow> WorkerQueue \<Rightarrow> WorkerQueue \<Rightarrow> bool" for pass where
  submit_touch: "wq_cleaner q \<noteq> CStopping \<Longrightarrow>
    wq_step pass q (q\<lparr>wq_lastActive := wq_now q, wq_adding := add_mset t (wq_adding q)\<rparr>)"
| submit_add: "wq_adding q = add_mset t a \<Longrightarrow>
    wq_step pass q (q\<lparr>wq_adding := a, wq_sending := add_mset t (wq_sending q), wq_wg := wq_wg q + 1\<rparr>)"
| submit_send: "wq_sending q = add_mset t s \<Longrightarrow> \<not> wq_closed q \<Longrightarrow>
    length (wq_buf q) < wq_cap q \<or> (wq_buf q = [] \<and> wq_worker q = WIdle) \<Longrightarrow>
    wq_step pass q (q\<lparr>wq_sending := s, wq_buf := wq_buf q @ [t], wq_sent := wq_sent q @ [t]\<rparr>)"
| submit_panic: "wq_sending q = add_mset t s \<Longrightarrow> wq_closed q \<Longrightarrow>
    wq_step pass q (q\<lparr>wq_sending := s, wq_panicked := True\<rparr>)"
| worker_take: "wq_worker q = WIdle \<Longrightarrow> wq_buf q = t # b \<Longrightarrow>
    wq_step pass q (q\<lparr>wq_worker := WRunning t, wq_buf := b\<rparr>)"
| worker_ran: "wq_worker q = WRunning t \<Longrightarrow>
    wq_step pass q (q\<lparr>wq_worker := WLocking t, wq_done := wq_done q @ [t]\<rparr>)"
| worker_done: "wq_worker q = WLocking t \<Longrightarrow> wq_cleaner q \<noteq> CStopping \<Longrightarrow>
    wq_step pass q (q\<lparr>wq_worker := WIdle, wq_lastActive := wq_now q, wq_wg := wq_wg q - 1\<rparr>)"
| worker_exit: "wq_worker q = WIdle \<Longrightarrow> wq_buf q = [] \<Longrightarrow> wq_closed q \<Longrightarrow>
    wq_step pass q (q\<lparr>wq_worker := WExited\<rparr>)"
| clean_stop: "wq_cleaner q = CElsewhere \<Longrightarrow> wq_now q - wq_lastActive q > pass \<Longrightarrow>
    wq_step pass q (q\<lparr>wq_cleaner := CStopping\<rparr>)"
| clean_close: "wq_cleaner q = CStopping \<Longrightarrow> wq_wg q = 0 \<Longrightarrow>
    wq_step pass q (q\<lparr>wq_cleaner := CFinished, wq_closed := True\<rparr>)"
| tick: "0 \<le> d \<Longrightarrow> wq_step pass q (q\<lparr>wq_now := wq_now q + d\<rparr>)"

inductive_cases wq_stepE: "wq_step pass q q'"

section \<open>Invariant of a queue\<close>

definition wq_current :: "WorkerQueue \<Rightarrow> nat list" where
  "wq_current q = (case wq_worker q of WRunning t \<Rightarrow> [t] | _ \<Rightarrow> [])"

definition wq_busy :: "WorkerQueue \<Rightarrow> int" where
  "wq_busy q = (case wq_worker q of WRunning t \<Rightarrow> 1 | WLocking t \<Rightarrow> 1 | _ \<Rightarrow> 0)"

text \<open>
  What was sent is what was run, is running and waits, in this order. While the channel is open the
  wait group counts the submitters about to send, the waiting tasks and the one at the worker; the cleanup closes the
  channel only when nothing is left.
\<close>

definition wq_inv :: "WorkerQueue \<Rightarrow> bool" where
  "wq_inv q \<longleftrightarrow>
     wq_sent q = wq_done q @ wq_current q @ wq_buf q \<and>
     (wq_closed q \<longleftrightarrow> wq_cleaner q = CFinished) \<and>
     (if wq_closed q then wq_buf q = [] \<and> wq_worker q \<in> {WIdle, WExited}
      else wq_worker q \<noteq> WExited \<and> wq_wg q = int (size (wq_sending q)) + int (length (wq_buf q)) + wq_busy q)"

lemmas wq_defs = wq_inv_def wq_current_def wq_busy_def

lemma wq_inv_new: "wq_inv (NewWorkerQueue n now)"
  by (simp add: wq_defs NewWorkerQueue_def)

lemma wq_inv_step: "wq_step pass q q' \<Longrightarrow> wq_inv q \<Longrightarrow> wq_inv q'"
proof (erule wq_stepE, goal_cases)
  case 10
  then have "wq_wg q = int (size (wq_sending q)) + int (length (wq_buf q)) + wq_busy q" "\<not> wq_closed q"
    by (simp_all add: wq_inv_def)
  moreover have "0 \<le> wq_busy q" by (simp add: wq_busy_def split: worker_state.splits)
  ultimately have "length (wq_buf q) = 0" "wq_busy q = 0" using 10 by linarith+
  then show ?case using 10 by (auto simp: wq_defs split: worker_state.splits)
qed (auto simp: wq_defs split: worker_state.splits if_splits)

interpretation wqrun: step_invariant "wq_step pass" wq_inv for pass
  by unfold_locales (rule wq_inv_step)

lemmas wq_inv_steps = wqrun.steps

text \<open>The cleanup waits for a task that waits for the cleanup.\<close>

definition wq_stuck :: "nat \<Rightarrow> WorkerQueue \<Rightarrow> bool" where
  "wq_stuck t q \<longleftrightarrow> wq_inv q \<and> wq_cleaner q = CStopping \<and> wq_worker q = WLocking t"

lemma wq_stuck_step: "wq_step pass q q' \<Longrightarrow> wq_stuck t q \<Longrightarrow> wq_stuck t q' \<and> wq_done q' = wq_done q"
proof -
  assume st: "wq_step pass q q'" and s: "wq_stuck t q"
  then have "wq_inv q'" using wq_inv_step by (simp add: wq_stuck_def)
  moreover have "wq_wg q > 0"
    using s by (auto simp: wq_stuck_def wq_inv_def wq_busy_def)
  ultimately show ?thesis
    using st s by (auto elim!: wq_stepE simp: wq_stuck_def)
qed

lemma wq_stuck_steps: "(wq_step pass)\<^sup>*\<^sup>* q q' \<Longrightarrow> wq_stuck t q \<Longrightarrow> wq_stuck t q' \<and> wq_done q' = wq_done q"
  by (induction rule: rtranclp_induct) (auto dest: wq_stuck_step)

text \<open>A run: one task is submitted and still running when the cleanup finds the queue idle for too long.\<close>

lemma wq_run_running:
  assumes "0 \<le> pass"
  shows "\<exists>q. (wq_step pass)\<^sup>*\<^sup>* (NewWorkerQueue n now) q \<and> wq_inv q \<and> wq_worker q = WRunning t \<and>
    wq_cleaner q = CElsewhere \<and> wq_now q - wq_lastActive q > pass"
proof -
  let ?q0 = "NewWorkerQueue n now"
  let ?q1 = "?q0\<lparr>wq_lastActive := now, wq_adding := {#t#}\<rparr>"
  let ?q2 = "?q0\<lparr>wq_lastActive := now, wq_sending := {#t#}, wq_wg := 1\<rparr>"
  let ?q3 = "?q0\<lparr>wq_lastActive := now, wq_wg := 1, wq_buf := [t], wq_sent := [t]\<rparr>"
  let ?q4 = "?q0\<lparr>wq_lastActive := now, wq_wg := 1, wq_sent := [t], wq_worker := WRunning t\<rparr>"
  let ?q5 = "?q0\<lparr>wq_lastActive := now, wq_wg := 1, wq_sent := [t], wq_worker := WRunning t, wq_now := now + (pass + 1)\<rparr>"
  have "wq_step pass ?q0 ?q1"
    using wq_step.submit_touch [of ?q0 pass t] by (simp add: NewWorkerQueue_def)
  moreover have "wq_step pass ?q1 ?q2"
    using wq_step.submit_add [of ?q1 t "{#}" pass] by (simp add: NewWorkerQueue_def)
  moreover have "wq_step pass ?q2 ?q3"
    using wq_step.submit_send [of ?q2 t "{#}" pass] by (simp add: NewWorkerQueue_def)
  moreover have "wq_step pass ?q3 ?q4"
    using wq_step.worker_take [of ?q3 t "[]" pass] by (simp add: NewWorkerQueue_def)
  moreover have "wq_step pass ?q4 ?q5"
    using wq_step.tick [of "pass + 1" pass ?q4] assms by (simp add: NewWorkerQueue_def)
  ultimately have "(wq_step pass)\<^sup>*\<^sup>* ?q0 ?q5"
    by (meson converse_rtranclp_into_rtranclp r_into_rtranclp)
  moreover from this have "wq_inv ?q5" using wq_inv_steps wq_inv_new by blast
  ultimately show ?thesis by (intro exI [of _ ?q5]) (simp add: NewWorkerQueue_def)
qed

section \<open>Properties\<close>

text \<open>
  C8: a queue runs its tasks in order, one at a time, and loses none. In every reachable
  state, for every interleaving of submitters, worker and cleanup, the tasks that were sent are those that have
  run, the one that is running, and those that wait, in the order they were sent; and when the
  cleanup has closed the queue, all of them have run.
\<close>

theorem worker_queue_fifo:
  assumes "(wq_step pass)\<^sup>*\<^sup>* (NewWorkerQueue n now) q"
  shows "wq_sent q = wq_done q @ wq_current q @ wq_buf q \<and> (wq_closed q \<longrightarrow> wq_done q = wq_sent q)"
  using wq_inv_steps [OF assms wq_inv_new]
  by (auto simp: wq_inv_def wq_current_def split: if_splits worker_state.splits)

theorem worker_queue_fifo_witness:
  "\<exists>q. wq_worker q = WRunning 5 \<and> wq_sent q = wq_done q @ wq_current q @ wq_buf q"
proof -
  obtain q where "(wq_step 3)\<^sup>*\<^sup>* (NewWorkerQueue 1 0) q" "wq_worker q = WRunning 5"
    using wq_run_running [of 3 1 0 5] by auto
  then show ?thesis using worker_queue_fifo by blast
qed

text \<open>
  C28: the cleanup can deadlock with the worker. It calls \<open>Stop\<close>, which waits for the wait group, while it
  holds the mutex that the worker needs before it counts down. When a task runs for longer than
  \<open>clearTimePass\<close> this state is reached, and from then on nothing changes it: the task is never
  counted down, the cleanup never goes on, and no later task of the queue is run.
\<close>

theorem cleanup_deadlock:
  assumes "0 \<le> pass"
  shows "\<exists>q. (wq_step pass)\<^sup>*\<^sup>* (NewWorkerQueue n now) q \<and>
    (\<forall>q'. (wq_step pass)\<^sup>*\<^sup>* q q' \<longrightarrow> wq_worker q' = WLocking t \<and> wq_cleaner q' = CStopping \<and> wq_done q' = wq_done q)"
proof -
  obtain q where q: "(wq_step pass)\<^sup>*\<^sup>* (NewWorkerQueue n now) q" "wq_inv q" "wq_worker q = WRunning t"
    "wq_cleaner q = CElsewhere" "wq_now q - wq_lastActive q > pass"
    using wq_run_running [OF assms] by blast
  let ?q1 = "q\<lparr>wq_cleaner := CStopping\<rparr>"
  let ?q2 = "?q1\<lparr>wq_worker := WLocking t, wq_done := wq_done ?q1 @ [t]\<rparr>"
  have s1: "wq_step pass q ?q1" using q by (intro wq_step.clean_stop)
  have s2: "wq_step pass ?q1 ?q2" using q(3) by (intro wq_step.worker_ran) simp
  have r: "(wq_step pass)\<^sup>*\<^sup>* (NewWorkerQueue n now) ?q2"
    using q(1) s1 s2 by (meson rtranclp.rtrancl_into_rtrancl)
  have "wq_stuck t ?q2"
    using wq_inv_steps [OF r wq_inv_new] by (simp add: wq_stuck_def)
  then have "\<forall>q'. (wq_step pass)\<^sup>*\<^sup>* ?q2 q' \<longrightarrow> wq_worker q' = WLocking t \<and> wq_cleaner q' = CStopping \<and> wq_done q' = wq_done ?q2"
    using wq_stuck_steps by (fastforce simp: wq_stuck_def)
  then show ?thesis using r by blast
qed

theorem cleanup_deadlock_witness:
  "\<exists>q. (wq_step 600)\<^sup>*\<^sup>* (NewWorkerQueue 100 0) q \<and> wq_worker q = WLocking 1 \<and> wq_cleaner q = CStopping"
  using cleanup_deadlock [of 600 100 0 1] by auto

lemma hash_bounds: "0 \<le> hash uid \<and> hash uid < 2 ^ 32"
  using uint_lt2p [of "foldl fnv_step 2166136261 (bytes_of_string uid)"] by (simp add: hash_def)

lemma queue_key_store: "store_queue key m = Ok (q, m') \<Longrightarrow> queue_key m' = queue_key m"
  by (auto simp: store_queue_def queue_key_def fun_eq_iff split: if_splits)

text \<open>
  One call at a time, tasks of one share id meet in one queue: a second \<open>getQueue\<close>, for any share id with
  the same key, gives the queue of the first and changes nothing. With a positive \<open>queueNum\<close> the key is
  a number below it, so there are at most that many queues.
\<close>

lemma same_share_same_queue:
  assumes "getQueue uid m = Ok (q, m')" "queue_key m uid' = queue_key m uid"
  shows "getQueue uid' m' = Ok (q, m') \<and>
    (wp_queueNum m > 0 \<longrightarrow> (\<exists>i. 0 \<le> i \<and> i < wp_queueNum m \<and> queue_key m uid = Itoa i))"
proof -
  have "queue_key m' uid' = queue_key m uid \<and> gm_get (wp_queues m') (queue_key m uid) = Some q"
  proof (cases "gm_get (wp_queues m) (queue_key m uid)")
    case None
    then have s: "store_queue (queue_key m uid) m = Ok (q, m')" using assms(1) by (simp add: getQueue_def)
    moreover have "gm_get (wp_queues m') (queue_key m uid) = Some q"
      using s by (auto simp: store_queue_def split: if_splits)
    ultimately show ?thesis using queue_key_store [OF s] assms(2) by simp
  next
    case (Some x)
    then show ?thesis using assms by (simp add: getQueue_def)
  qed
  then have "getQueue uid' m' = Ok (q, m')" by (simp add: getQueue_def)
  moreover have "\<exists>i. 0 \<le> i \<and> i < wp_queueNum m \<and> queue_key m uid = Itoa i" if "wp_queueNum m > 0"
    using that by (intro exI [of _ "hash uid mod wp_queueNum m"]) (simp add: queue_key_def)
  ultimately show ?thesis by blast
qed

text \<open>
  With two goroutines in \<open>getQueue\<close> this fails: both can miss the key and each stores a
  queue of its own, so that two tasks of one share id are handled by different queues at the same time.
\<close>

lemma getQueue_race:
  assumes "0 \<le> qsz"
  shows "\<exists>m q q'. get_step\<^sup>*\<^sup>* (NewWorkerPool num qsz ci cp, [Loading uid, Loading uid]) (m, [Got uid q, Got uid q']) \<and> q \<noteq> q'"
proof -
  let ?m = "NewWorkerPool num qsz ci cp"
  define m1 where "m1 = ?m\<lparr>wp_next := 1, wp_queues := gm_put (queue_key ?m uid) 0 (wp_queues ?m)\<rparr>"
  have st: "store_queue k ?m = Ok (0, ?m\<lparr>wp_next := 1, wp_queues := gm_put k 0 (wp_queues ?m)\<rparr>)" for k
    using assms by (simp add: store_queue_def NewWorkerPool_def)
  have m1: "store_queue (queue_key ?m uid) ?m = Ok (0, m1)" "wp_next m1 = 1" "queue_key m1 = queue_key ?m" "wp_queueSize m1 = qsz"
    using st queue_key_store [OF st] by (simp_all add: m1_def, simp_all add: NewWorkerPool_def)
  obtain m2 where m2: "store_queue (queue_key m1 uid) m1 = Ok (1, m2)"
    using m1 assms by (simp add: store_queue_def)
  have n: "gm_get (wp_queues ?m) k = None" for k by (simp add: NewWorkerPool_def)
  have "get_step (?m, [Loading uid, Loading uid]) (?m, [Missed uid, Loading uid])"
    using get_step.load_miss [of 0 "[Loading uid, Loading uid]" uid ?m] n by simp
  moreover have "get_step (?m, [Missed uid, Loading uid]) (?m, [Missed uid, Missed uid])"
    using get_step.load_miss [of 1 "[Missed uid, Loading uid]" uid ?m] n by simp
  moreover have "get_step (?m, [Missed uid, Missed uid]) (m1, [Got uid 0, Missed uid])"
    using get_step.store [of 0 "[Missed uid, Missed uid]" uid ?m 0 m1] m1 by simp
  moreover have "get_step (m1, [Got uid 0, Missed uid]) (m2, [Got uid 0, Got uid 1])"
    using get_step.store [of 1 "[Got uid 0, Missed uid]" uid m1 1 m2] m2 by simp
  ultimately have "get_step\<^sup>*\<^sup>* (?m, [Loading uid, Loading uid]) (m2, [Got uid 0, Got uid 1])"
    by (meson converse_rtranclp_into_rtranclp r_into_rtranclp)
  then show ?thesis by (metis zero_neq_one)
qed

text \<open>FNV-1a as arithmetic on numbers, for comparison.\<close>

definition fnv_ref :: "nat list \<Rightarrow> nat" where
  "fnv_ref bs = foldl (\<lambda>h b. ((h XOR b) * 16777619) mod 2 ^ 32) 2166136261 bs"

lemma fnv_step_nat: "unat (fnv_step h b) = ((unat h XOR unat b) * 16777619) mod 2 ^ 32"
proof -
  have "unat b < 2 ^ 32" by (rule order.strict_trans2 [OF unsigned_less]) simp
  then have "unat (ucast b :: 32 word) = unat b"
    by (simp add: unsigned_ucast_eq take_bit_nat_eq_self)
  then have "unat (h XOR ucast b) = unat h XOR unat b"
    by (simp add: unsigned_xor_eq)
  then show ?thesis by (simp add: fnv_step_def unat_word_ariths)
qed

text \<open>
  The hash of a share id is FNV-1a: the word computation agrees with the reference definition over the
  natural numbers, and gives a number below 2^32.
\<close>

lemma hash_is_fnv: "hash uid = int (fnv_ref (map of_char uid)) \<and> hash uid < 2 ^ 32"
proof -
  have "unat (foldl fnv_step h bs) = foldl (\<lambda>h b. ((h XOR b) * 16777619) mod 2 ^ 32) (unat h) (map unat bs)" for h bs
    by (induction bs arbitrary: h) (simp_all add: fnv_step_nat)
  then have "unat (foldl fnv_step 2166136261 (bytes_of_string uid)) = fnv_ref (map unat (bytes_of_string uid))"
    by (simp add: fnv_ref_def)
  moreover have "map unat (bytes_of_string uid) = map of_char uid"
    by (simp add: bytes_of_string_def unat_of_nat)
  ultimately have "hash uid = int (fnv_ref (map of_char uid))"
    by (simp add: hash_def uint_nat)
  then show ?thesis using hash_bounds [of uid] by simp
qed

end
