(* ===== verification/App.thy ===== *)
theory App
  imports RemoteService Metrics Discovery WorkerPool
begin

text \<open>
  The application object: \<open>app.go\<close>, \<open>module.go\<close>, \<open>component.go\<close>, \<open>rpc.go\<close>. What the app calls, in which
  order, is a trace of events; the outcomes of user modules are data of the module. \<open>Err\<close> as the outcome of
  starting is the end of the process by the logger's \<open>Fatal\<close>. The router and the service discovery
  are objects the app shares with its remote service: a change of the router is made in both places, and the present
  state of the service discovery is an argument where it is read.
\<close>

section \<open>Data\<close>

text \<open>A module: what its \<open>Init\<close> and \<open>Shutdown\<close> return. A nil module is \<open>None\<close> where modules are stored.\<close>

record gmodule =
  gm_Init :: "goerror option"
  gm_Shutdown :: "goerror option"

record regComp =
  rc_comp :: gcomponent
  rc_opts :: "(options \<Rightarrow> options) list"

record moduleWrapper =
  mw_module :: "gmodule option"
  mw_name :: string

text \<open>The channel on which the app is told to stop: closed or not, and the senders that wait at it.\<close>

record dieChan =
  dc_closed :: bool
  dc_senders :: nat

record 'v App =
  ap_config :: config
  ap_debug :: bool
  ap_dieChan :: dieChan
  ap_heartbeat :: int
  ap_router :: "Router option"
  ap_rpcClient :: "gmodule option"
  ap_rpcServer :: "gmodule option"
  ap_metricsReporters :: "Reporter list"
  ap_running :: bool
  ap_server :: server
  ap_serviceDiscovery :: "gmodule option"
  ap_startAt :: int
  ap_remoteService :: "'v RemoteService option"
  ap_remoteComp :: "regComp list"
  ap_modulesMap :: "(string, gmodule option) gomap"
  ap_modulesArr :: "moduleWrapper list"

datatype app_event =
    ModInit string | ModAfterInit string | ModBeforeShutdown string | ModShutdown string | WarnStopping string
  | CompInit gcomponent | CompAfterInit gcomponent | CompBeforeShutdown gcomponent | CompShutdown gcomponent
  | RegisterFailed goerror | NoRemoteService | MetricsStarted int

definition NewApp :: "int \<Rightarrow> dieChan \<Rightarrow> Router option \<Rightarrow> server \<Rightarrow> gmodule option \<Rightarrow> gmodule option \<Rightarrow> gmodule option \<Rightarrow>
    'v RemoteService option \<Rightarrow> Reporter list \<Rightarrow> config \<Rightarrow> 'v App" where
  "NewApp now dieCh router sv rpcClient rpcServer serviceDiscovery remoteService metricsReporters cfg =
     \<lparr>ap_config = cfg, ap_debug = False, ap_dieChan = dieCh, ap_heartbeat = cfg_Heartbeat_Interval cfg,
      ap_router = router, ap_rpcClient = rpcClient, ap_rpcServer = rpcServer, ap_metricsReporters = metricsReporters,
      ap_running = False, ap_server = sv, ap_serviceDiscovery = serviceDiscovery, ap_startAt = now,
      ap_remoteService = remoteService, ap_remoteComp = [], ap_modulesMap = gm_empty, ap_modulesArr = []\<rparr>"

definition SetDebug :: "bool \<Rightarrow> 'v App \<Rightarrow> 'v App" where
  "SetDebug debug app = app\<lparr>ap_debug := debug\<rparr>"

definition SetHeartbeatTime :: "int \<Rightarrow> 'v App \<Rightarrow> 'v App" where
  "SetHeartbeatTime interval app = app\<lparr>ap_heartbeat := interval\<rparr>"

definition GetServerID :: "'v App \<Rightarrow> string" where
  "GetServerID app = sv_ID (ap_server app)"

definition GetDieChan :: "'v App \<Rightarrow> dieChan" where
  "GetDieChan app = ap_dieChan app"

definition GetMetricsReporters :: "'v App \<Rightarrow> Reporter list" where
  "GetMetricsReporters app = ap_metricsReporters app"

definition app_GetServer :: "'v App \<Rightarrow> server" where
  "app_GetServer app = ap_server app"

text \<open>The registry as the app asks it: \<open>sd\<close> is the present state of the service discovery, nil when there is none.\<close>

definition app_GetServerByID :: "sdstate \<Rightarrow> string \<Rightarrow> 'v App \<Rightarrow> (goerror, server) outcome" where
  "app_GetServerByID sd ident app = (case ap_serviceDiscovery app of None \<Rightarrow> Panic nil_context | Some _ \<Rightarrow> GetServer ident sd)"

definition app_GetServersByType :: "sdstate \<Rightarrow> string \<Rightarrow> 'v App \<Rightarrow> (goerror, (string, server) gomap) outcome" where
  "app_GetServersByType sd t app = (case ap_serviceDiscovery app of None \<Rightarrow> Panic nil_context | Some _ \<Rightarrow> GetServersByType t sd)"

definition app_GetServers :: "sdstate \<Rightarrow> 'v App \<Rightarrow> (goerror, server list) outcome" where
  "app_GetServers sd app = (case ap_serviceDiscovery app of None \<Rightarrow> Panic nil_context | Some _ \<Rightarrow> Ok (GetServers sd))"

definition IsRunning :: "'v App \<Rightarrow> bool" where
  "IsRunning app = ap_running app"

definition periodicMetrics :: "'v App \<Rightarrow> app_event list" where
  [simp]: "periodicMetrics app = [MetricsStarted (mc_Period (cfg_Metrics (ap_config app)))]"

section \<open>Modules\<close>

definition alreadyRegistered :: "string \<Rightarrow> 'v App \<Rightarrow> goerror option" where
  "alreadyRegistered name app =
     (case gm_get (ap_modulesMap app) name of
        Some _ \<Rightarrow> Some (PlainError (''module with name '' @ name @ '' already exists''))
      | None \<Rightarrow> None)"

definition RegisterModuleAfter :: "gmodule option \<Rightarrow> string \<Rightarrow> 'v App \<Rightarrow> (goerror, unit) outcome \<times> 'v App" where
  "RegisterModuleAfter md name app =
     (case alreadyRegistered name app of
        Some err \<Rightarrow> (Err err, app)
      | None \<Rightarrow> (Ok (), app\<lparr>ap_modulesMap := gm_put name md (ap_modulesMap app),
                 ap_modulesArr := ap_modulesArr app @ [\<lparr>mw_module = md, mw_name = name\<rparr>]\<rparr>))"

definition RegisterModuleBefore :: "gmodule option \<Rightarrow> string \<Rightarrow> 'v App \<Rightarrow> (goerror, unit) outcome \<times> 'v App" where
  "RegisterModuleBefore md name app =
     (case alreadyRegistered name app of
        Some err \<Rightarrow> (Err err, app)
      | None \<Rightarrow> (Ok (), app\<lparr>ap_modulesMap := gm_put name md (ap_modulesMap app),
                 ap_modulesArr := [\<lparr>mw_module = md, mw_name = name\<rparr>] @ ap_modulesArr app\<rparr>))"

definition RegisterModule :: "gmodule option \<Rightarrow> string \<Rightarrow> 'v App \<Rightarrow> (goerror, unit) outcome \<times> 'v App" where
  "RegisterModule md name app = RegisterModuleAfter md name app"

definition GetModule :: "string \<Rightarrow> 'v App \<Rightarrow> (goerror, gmodule option) outcome" where
  "GetModule name app =
     (case gm_get (ap_modulesMap app) name of
        Some m \<Rightarrow> Ok m
      | None \<Rightarrow> Err (PlainError (''module with name '' @ name @ '' not found'')))"

text \<open>The first loop of \<open>startModules\<close>: a nil module panics, an error ends the process.\<close>

fun init_modules :: "moduleWrapper list \<Rightarrow> (goerror, unit) outcome \<times> app_event list" where
  "init_modules [] = (Ok (), [])"
| "init_modules (w # ws) =
     (case mw_module w of
        None \<Rightarrow> (Panic nil_context, [])
      | Some m \<Rightarrow>
          (case gm_Init m of
             Some err \<Rightarrow> (Err (PlainError (''error starting module '' @ mw_name w @ '', error: '' @ err_Error err)), [ModInit (mw_name w)])
           | None \<Rightarrow> (case init_modules ws of (r, tr) \<Rightarrow> (r, ModInit (mw_name w) # tr))))"

definition startModules :: "'v App \<Rightarrow> (goerror, unit) outcome \<times> app_event list" where
  "startModules app =
     (case init_modules (ap_modulesArr app) of
        (Ok _, tr) \<Rightarrow> (Ok (), tr @ map (\<lambda>w. ModAfterInit (mw_name w)) (ap_modulesArr app))
      | (r, tr) \<Rightarrow> (r, tr))"

definition stop_module :: "moduleWrapper \<Rightarrow> app_event list" where
  "stop_module w =
     ModShutdown (mw_name w) #
     (case mw_module w of
        Some m \<Rightarrow> (case gm_Shutdown m of Some _ \<Rightarrow> [WarnStopping (mw_name w)] | None \<Rightarrow> [])
      | None \<Rightarrow> [])"

definition shutdownModules :: "'v App \<Rightarrow> app_event list" where
  "shutdownModules app =
     map (\<lambda>w. ModBeforeShutdown (mw_name w)) (rev (ap_modulesArr app)) @ concat (map stop_module (rev (ap_modulesArr app)))"

section \<open>Components\<close>

definition app_Register :: "gcomponent \<Rightarrow> (options \<Rightarrow> options) list \<Rightarrow> 'v App \<Rightarrow> 'v App" where
  "app_Register c opts app = app\<lparr>ap_remoteComp := ap_remoteComp app @ [\<lparr>rc_comp = c, rc_opts = opts\<rparr>]\<rparr>"

text \<open>The third loop of \<open>startupComponents\<close>: a registration that fails is logged and the loop goes on.\<close>

fun register_components :: "(string \<Rightarrow> bool) \<Rightarrow> regComp list \<Rightarrow> 'v RemoteService option \<Rightarrow> 'v RemoteService option \<times> app_event list" where
  "register_components u [] rs = (rs, [])"
| "register_components u (c # cs) rs =
     (case rs of
        None \<Rightarrow> (case register_components u cs rs of (rs, tr) \<Rightarrow> (rs, NoRemoteService # tr))
      | Some r \<Rightarrow>
          (case Register u (rc_comp c) (rc_opts c) r of
             (Err err, r) \<Rightarrow> (case register_components u cs (Some r) of (rs, tr) \<Rightarrow> (rs, RegisterFailed err # tr))
           | (_, r) \<Rightarrow> register_components u cs (Some r)))"

definition startupComponents :: "(string \<Rightarrow> bool) \<Rightarrow> 'v App \<Rightarrow> 'v App \<times> app_event list" where
  "startupComponents u app =
     (let cs = map rc_comp (ap_remoteComp app) in
      case register_components u (ap_remoteComp app) (ap_remoteService app) of
        (rs, tr) \<Rightarrow> (app\<lparr>ap_remoteService := rs\<rparr>, map CompInit cs @ map CompAfterInit cs @ tr))"

definition shutdownComponents :: "'v App \<Rightarrow> app_event list" where
  "shutdownComponents app =
     (let cs = map rc_comp (ap_remoteComp app) in map CompBeforeShutdown (rev cs) @ map CompShutdown (rev cs))"

section \<open>Starting and stopping\<close>

text \<open>A receive on the die channel: from a waiting sender, or at once when it is closed; \<open>None\<close> while it would block.\<close>

definition die_receive :: "dieChan \<Rightarrow> dieChan option" where
  "die_receive d =
     (if dc_senders d > 0 then Some (d\<lparr>dc_senders := dc_senders d - 1\<rparr>)
      else if dc_closed d then Some d else None)"

definition close_die :: "dieChan \<Rightarrow> (goerror, dieChan) outcome" where
  "close_die d = (if dc_closed d then Panic ''close of closed channel'' else Ok (d\<lparr>dc_closed := True\<rparr>))"

definition app_Shutdown :: "'v App \<Rightarrow> (goerror, 'v App) outcome" where
  "app_Shutdown app =
     (case die_receive (ap_dieChan app) of
        Some d \<Rightarrow> Ok (app\<lparr>ap_dieChan := d\<rparr>)
      | None \<Rightarrow> bind_outcome (close_die (ap_dieChan app)) (\<lambda>d. Ok (app\<lparr>ap_dieChan := d\<rparr>)))"

definition app_start :: "(string \<Rightarrow> bool) \<Rightarrow> 'v App \<Rightarrow> (goerror, unit) outcome \<times> 'v App \<times> app_event list" where
  "app_start u app =
     (case startupComponents u app of
        (app, tr) \<Rightarrow>
          (case startModules app of
             (Ok _, tr') \<Rightarrow> (Ok (), app\<lparr>ap_running := True\<rparr>, tr @ tr')
           | (r, tr') \<Rightarrow> (r, app, tr @ tr')))"

text \<open>The three registrations at the beginning of \<open>Start\<close>.\<close>

definition register_own :: "'v App \<Rightarrow> (goerror, unit) outcome \<times> 'v App" where
  "register_own app =
     (case RegisterModuleBefore (ap_rpcServer app) ''rpcServer'' app of
        (Ok _, app) \<Rightarrow>
          (case RegisterModuleBefore (ap_rpcClient app) ''rpcClient'' app of
             (Ok _, app) \<Rightarrow> RegisterModuleAfter (ap_serviceDiscovery app) ''serviceDiscovery'' app
           | r \<Rightarrow> r)
      | r \<Rightarrow> r)"

text \<open>
  What ends the wait of \<open>Start\<close>: the die channel or a signal. \<open>d\<close> is the die channel at that moment; closing it
  on a signal panics when it is closed already, and that happens outside the deferred reset
  of \<open>running\<close>, which still runs.
\<close>

datatype stop_cause = DieChan | Signal

definition Start :: "(string \<Rightarrow> bool) \<Rightarrow> stop_cause \<Rightarrow> dieChan \<Rightarrow> 'v App \<Rightarrow> (goerror, unit) outcome \<times> 'v App \<times> app_event list" where
  "Start u cause d app =
     (case register_own app of
        (Ok _, app) \<Rightarrow>
          (let tr = periodicMetrics app in
           case app_start u app of
             (Ok _, app, tr') \<Rightarrow>
               (case (case cause of DieChan \<Rightarrow> Ok d | Signal \<Rightarrow> close_die d) of
                  Ok d \<Rightarrow> (Ok (), app\<lparr>ap_dieChan := d, ap_running := False\<rparr>, tr @ tr' @ shutdownModules app @ shutdownComponents app)
                | Panic p \<Rightarrow> (Panic p, app\<lparr>ap_dieChan := d, ap_running := False\<rparr>, tr @ tr')
                | Err e \<Rightarrow> (Err e, app, tr @ tr'))
           | (r, app, tr') \<Rightarrow> (r, app, tr @ tr'))
      | (r, app) \<Rightarrow> (r, app, []))"

section \<open>Configuration while stopped\<close>

definition app_SetDictionary :: "(string, 16 word) gomap option \<Rightarrow> 'v App \<Rightarrow> dictionary \<Rightarrow> (goerror + message_err) option \<times> dictionary" where
  "app_SetDictionary dict app d =
     (if ap_running app then (Some (Inl ErrChangeDictionaryWhileRunning), d)
      else case message_SetDictionary dict d of (err, d) \<Rightarrow> (map_option Inr err, d))"

definition app_AddRoute :: "string \<Rightarrow> RoutingFunc \<Rightarrow> 'v App \<Rightarrow> (goerror, unit) outcome \<times> 'v App" where
  "app_AddRoute serverType routingFunction app =
     (case ap_router app of
        Some r \<Rightarrow>
          if ap_running app then (Err ErrChangeRouteWhileRunning, app)
          else
            let r = router_AddRoute serverType routingFunction r in
            (Ok (), app\<lparr>ap_router := Some r, ap_remoteService := map_option (\<lambda>rs. rs\<lparr>rs_router := r\<rparr>) (ap_remoteService app)\<rparr>)
      | None \<Rightarrow> (Err ErrRouterNotInitialized, app))"

section \<open>Remote calls\<close>

definition route_error :: "route_err \<Rightarrow> goerror" where
  "route_error e =
     (case e of
        ErrRouteFieldCantEmpty \<Rightarrow> PlainError ''route field can not be empty''
      | ErrInvalidRoute \<Rightarrow> PlainError ''invalid route'')"

text \<open>
  \<open>reply\<close>: nil, or whether it is a pointer and how the answer is read into it. \<open>arg\<close>: nil, or what
  marshalling it gives. \<open>call\<close> is the RPC client's \<open>Call\<close>, \<open>sd\<close> the present state of the service discovery.
\<close>

definition doSendRPC :: "(nat \<Rightarrow> nat) \<Rightarrow> (message \<Rightarrow> ctx option \<Rightarrow> server \<Rightarrow> (goerror, p_response) outcome) \<Rightarrow> sdstate \<Rightarrow>
    'v App \<Rightarrow> ctx option \<Rightarrow> string \<Rightarrow> string \<Rightarrow> byte \<Rightarrow> (bool \<times> (bytes \<Rightarrow> goerror option)) option \<Rightarrow>
    (goerror + bytes) option \<Rightarrow> (goerror, unit) outcome" where
  "doSendRPC intn call sd app c serverID routeStr mt reply arg =
     (if ap_rpcServer app = None then Err ErrRPCServerNotInitialized
      else if mt = Request \<and> (case reply of None \<Rightarrow> True | Some (ptr, _) \<Rightarrow> \<not> ptr) then Err ErrReplyShouldBePtr
      else
        case route_Decode routeStr of
          Err e \<Rightarrow> Err (route_error e)
        | Panic p \<Rightarrow> Panic p
        | Ok r \<Rightarrow>
            if SvType r = '''' then Err ErrNoServerTypeChosenForRPC
            else if SvType r = sv_Type (ap_server app) \<and> serverID = '''' \<or> serverID = sv_ID (ap_server app)
            then Err ErrNonsenseRPC
            else
              case ap_remoteService app of
                None \<Rightarrow> (case arg of Some (Inl e) \<Rightarrow> Err e | _ \<Rightarrow> Panic nil_context)
              | Some rs \<Rightarrow>
                  rs_RPC intn call (rs\<lparr>rs_router := SetServiceDiscovery sd (rs_router rs)\<rparr>) sd c serverID mt r
                    (map_option snd reply) arg)"

definition app_RPC where
  "app_RPC intn call sd app c routeStr reply arg = doSendRPC intn call sd app c '''' routeStr Request reply arg"

definition app_RPCTo where
  "app_RPCTo intn call sd app c serverID routeStr reply arg = doSendRPC intn call sd app c serverID routeStr Request reply arg"

definition app_Notify where
  "app_Notify intn call sd app c routeStr arg = doSendRPC intn call sd app c '''' routeStr Notify None arg"

definition app_NotifyTo where
  "app_NotifyTo intn call sd app c serverID routeStr arg = doSendRPC intn call sd app c serverID routeStr Notify None arg"

section \<open>Invariant\<close>

text \<open>The list and the map of modules hold the same modules, and no name is used twice.\<close>

definition app_inv :: "'v App \<Rightarrow> bool" where
  "app_inv app \<longleftrightarrow>
     distinct (map mw_name (ap_modulesArr app)) \<and>
     (\<forall>name md. gm_get (ap_modulesMap app) name = Some md \<longleftrightarrow> \<lparr>mw_module = md, mw_name = name\<rparr> \<in> set (ap_modulesArr app))"

definition app_names :: "'v App \<Rightarrow> string list" where
  "app_names app = map mw_name (ap_modulesArr app)"

lemma app_inv_new: "app_inv (NewApp now d router sv cl srv sd rs reps cfg)"
  by (simp add: app_inv_def NewApp_def)

lemma alreadyRegistered_None:
  assumes "app_inv app"
  shows "alreadyRegistered name app = None \<longleftrightarrow> name \<notin> set (app_names app)"
proof -
  have "w = \<lparr>mw_module = mw_module w, mw_name = name\<rparr>" if "mw_name w = name" for w :: moduleWrapper
    using that by simp
  then have "name \<in> set (app_names app) \<longleftrightarrow> (\<exists>md. \<lparr>mw_module = md, mw_name = name\<rparr> \<in> set (ap_modulesArr app))"
    unfolding app_names_def set_map image_iff by (metis moduleWrapper.select_convs(2))
  then have "name \<in> set (app_names app) \<longleftrightarrow> (\<exists>md. gm_get (ap_modulesMap app) name = Some md)"
    using assms by (simp add: app_inv_def)
  then show ?thesis by (auto simp: alreadyRegistered_def split: option.splits)
qed

text \<open>Registering: what both forms do, for every app that satisfies the invariant.\<close>

lemma RegisterModule_spec:
  assumes "app_inv app"
  shows "RegisterModuleAfter md name app =
      (if name \<in> set (app_names app) then (Err (PlainError (''module with name '' @ name @ '' already exists'')), app)
       else (Ok (), app\<lparr>ap_modulesMap := gm_put name md (ap_modulesMap app),
              ap_modulesArr := ap_modulesArr app @ [\<lparr>mw_module = md, mw_name = name\<rparr>]\<rparr>))"
    and "RegisterModuleBefore md name app =
      (if name \<in> set (app_names app) then (Err (PlainError (''module with name '' @ name @ '' already exists'')), app)
       else (Ok (), app\<lparr>ap_modulesMap := gm_put name md (ap_modulesMap app),
              ap_modulesArr := \<lparr>mw_module = md, mw_name = name\<rparr> # ap_modulesArr app\<rparr>))"
  using alreadyRegistered_None [OF assms, of name]
  by (auto simp: RegisterModuleAfter_def RegisterModuleBefore_def alreadyRegistered_def split: option.splits)

lemma app_inv_add:
  assumes "app_inv app" "name \<notin> set (app_names app)"
    and "distinct (map mw_name arr)" "set arr = insert \<lparr>mw_module = md, mw_name = name\<rparr> (set (ap_modulesArr app))"
  shows "app_inv (app\<lparr>ap_modulesMap := gm_put name md (ap_modulesMap app), ap_modulesArr := arr\<rparr>)"
  using assms by (force simp: app_inv_def app_names_def)

lemma app_inv_names: "app_inv app \<Longrightarrow> distinct (map mw_name (ap_modulesArr app))"
  by (simp add: app_inv_def)

lemma RegisterModule_inv:
  assumes "app_inv app"
  shows "app_inv (snd (RegisterModuleAfter md name app))" "app_inv (snd (RegisterModuleBefore md name app))"
  using assms app_inv_names [OF assms]
  by (auto simp: RegisterModule_spec [OF assms] app_names_def intro!: app_inv_add)

lemma RegisterModule_names:
  assumes "app_inv app" "name \<notin> set (app_names app)"
  shows "app_names (snd (RegisterModuleAfter md name app)) = app_names app @ [name]"
    and "app_names (snd (RegisterModuleBefore md name app)) = name # app_names app"
  using assms(2) by (simp_all add: RegisterModule_spec [OF assms(1)] app_names_def)

section \<open>Starting\<close>

definition starts_ok :: "moduleWrapper \<Rightarrow> bool" where
  "starts_ok w \<longleftrightarrow> (case mw_module w of Some m \<Rightarrow> gm_Init m = None | None \<Rightarrow> False)"

lemma init_modules_append:
  "init_modules (xs @ ys) =
     (case init_modules xs of
        (Ok _, tr) \<Rightarrow> (case init_modules ys of (r, tr') \<Rightarrow> (r, tr @ tr'))
      | (r, tr) \<Rightarrow> (r, tr))"
  by (induction xs) (auto split: option.splits outcome.splits prod.splits)

lemma init_modules_Ok: "fst (init_modules ws) = Ok () \<longleftrightarrow> (\<forall>w \<in> set ws. starts_ok w)"
  by (induction ws) (auto simp: starts_ok_def split: option.splits prod.splits)

lemma init_modules_trace: "\<forall>w \<in> set ws. starts_ok w \<Longrightarrow> init_modules ws = (Ok (), map (\<lambda>w. ModInit (mw_name w)) ws)"
  by (induction ws) (auto simp: starts_ok_def split: option.splits)

lemma init_modules_events: "set (snd (init_modules ws)) \<subseteq> (\<lambda>w. ModInit (mw_name w)) ` set ws"
  by (induction ws) (auto split: option.splits prod.splits)

text \<open>A module that comes last is reached only when all before it have started.\<close>

lemma init_modules_last:
  assumes "ModInit (mw_name w) \<in> set (snd (init_modules (ws @ [w])))" "mw_name w \<notin> mw_name ` set ws"
  shows "(\<forall>v \<in> set ws. starts_ok v) \<and>
    snd (init_modules (ws @ [w])) = map (\<lambda>w. ModInit (mw_name w)) ws @ [ModInit (mw_name w)]"
proof (cases "fst (init_modules ws)")
  case (Ok x)
  then have ok: "\<forall>v \<in> set ws. starts_ok v" using init_modules_Ok by simp
  have "snd (init_modules [w]) = [ModInit (mw_name w)]"
    using assms init_modules_trace [OF ok] by (auto simp: init_modules_append split: option.splits prod.splits if_splits)
  then show ?thesis using ok init_modules_trace [OF ok] by (auto simp: init_modules_append split: prod.splits)
next
  case (Err e)
  then show ?thesis using assms init_modules_events [of ws] by (auto simp: init_modules_append split: prod.splits)
next
  case (Panic p)
  then show ?thesis using assms init_modules_events [of ws] by (auto simp: init_modules_append split: prod.splits)
qed

definition own_names :: "string set" where
  "own_names = {''rpcServer'', ''rpcClient'', ''serviceDiscovery''}"

text \<open>The modules in the order \<open>Start\<close> gives them.\<close>

definition start_order :: "'v App \<Rightarrow> moduleWrapper list" where
  "start_order app =
     [\<lparr>mw_module = ap_rpcClient app, mw_name = ''rpcClient''\<rparr>, \<lparr>mw_module = ap_rpcServer app, mw_name = ''rpcServer''\<rparr>] @
     ap_modulesArr app @ [\<lparr>mw_module = ap_serviceDiscovery app, mw_name = ''serviceDiscovery''\<rparr>]"

lemma register_cases:
  "gm_get (ap_modulesMap app) name = None \<Longrightarrow> RegisterModuleBefore md name app =
     (Ok (), app\<lparr>ap_modulesMap := gm_put name md (ap_modulesMap app),
        ap_modulesArr := \<lparr>mw_module = md, mw_name = name\<rparr> # ap_modulesArr app\<rparr>)"
  "gm_get (ap_modulesMap app) name = None \<Longrightarrow> RegisterModuleAfter md name app =
     (Ok (), app\<lparr>ap_modulesMap := gm_put name md (ap_modulesMap app),
        ap_modulesArr := ap_modulesArr app @ [\<lparr>mw_module = md, mw_name = name\<rparr>]\<rparr>)"
  "gm_get (ap_modulesMap app) name = Some x \<Longrightarrow>
     RegisterModuleBefore md name app = (Err (PlainError (''module with name '' @ name @ '' already exists'')), app)"
  "gm_get (ap_modulesMap app) name = Some x \<Longrightarrow>
     RegisterModuleAfter md name app = (Err (PlainError (''module with name '' @ name @ '' already exists'')), app)"
  by (simp_all add: RegisterModuleBefore_def RegisterModuleAfter_def alreadyRegistered_def)

lemma register_own_spec:
  assumes "app_inv app"
  shows "if own_names \<inter> set (app_names app) = {}
    then \<exists>m. register_own app = (Ok (), app\<lparr>ap_modulesMap := m, ap_modulesArr := start_order app\<rparr>)
    else \<exists>e app'. register_own app = (Err e, app')"
proof -
  have "name \<in> set (app_names app) \<longleftrightarrow> gm_get (ap_modulesMap app) name \<noteq> None" for name
    using alreadyRegistered_None [OF assms, of name] by (auto simp: alreadyRegistered_def split: option.splits)
  then have "own_names \<inter> set (app_names app) = {} \<longleftrightarrow> gm_get (ap_modulesMap app) ''rpcServer'' = None \<and>
      gm_get (ap_modulesMap app) ''rpcClient'' = None \<and> gm_get (ap_modulesMap app) ''serviceDiscovery'' = None"
    by (auto simp: own_names_def)
  moreover have "if gm_get (ap_modulesMap app) ''rpcServer'' = None \<and> gm_get (ap_modulesMap app) ''rpcClient'' = None \<and>
        gm_get (ap_modulesMap app) ''serviceDiscovery'' = None
      then \<exists>m. register_own app = (Ok (), app\<lparr>ap_modulesMap := m, ap_modulesArr := start_order app\<rparr>)
      else \<exists>e app'. register_own app = (Err e, app')"
  proof (cases "gm_get (ap_modulesMap app) ''rpcServer''")
    case server: None
    show ?thesis
    proof (cases "gm_get (ap_modulesMap app) ''rpcClient''")
      case client: None
      show ?thesis using server client
        by (cases "gm_get (ap_modulesMap app) ''serviceDiscovery''")
          (simp_all add: register_own_def register_cases start_order_def, rule exI, rule refl)
    qed (use server in \<open>simp add: register_own_def register_cases\<close>)
  qed (simp add: register_own_def register_cases)
  ultimately show ?thesis by simp
qed

lemma register_own_Ok:
  assumes "app_inv app" "register_own app = (Ok (), app1)"
  shows "own_names \<inter> set (app_names app) = {} \<and> (\<exists>m. app1 = app\<lparr>ap_modulesMap := m, ap_modulesArr := start_order app\<rparr>)"
  using register_own_spec [OF assms(1)] assms(2) by (auto split: if_splits)

lemma register_components_events: "ModInit n \<notin> set (snd (register_components u cs rs))"
proof (induction cs arbitrary: rs)
  case (Cons c cs)
  show ?case
  proof (cases rs)
    case None
    then show ?thesis using Cons [of None] by (auto split: prod.splits)
  next
    case (Some r)
    obtain res r' where "Register u (rc_comp c) (rc_opts c) r = (res, r')" by (cases "Register u (rc_comp c) (rc_opts c) r")
    then show ?thesis using Some Cons [of "Some r'"] by (cases res) (auto split: prod.splits)
  qed
qed simp

text \<open>What components do before the modules start: every component is initialised, then registered.\<close>

lemma startupComponents_trace:
  "\<exists>rs tr. startupComponents u app = (app\<lparr>ap_remoteService := rs\<rparr>,
     map CompInit (map rc_comp (ap_remoteComp app)) @ map CompAfterInit (map rc_comp (ap_remoteComp app)) @ tr) \<and>
     register_components u (ap_remoteComp app) (ap_remoteService app) = (rs, tr)"
  by (auto simp: startupComponents_def Let_def split: prod.splits)

lemma Start_modules:
  assumes "app_inv app" "Start u cause d app = (r, app', tr)" "ModInit n \<in> set tr"
  shows "own_names \<inter> set (app_names app) = {} \<and> (\<exists>post rs rtr. register_components u (ap_remoteComp app) (ap_remoteService app) = (rs, rtr) \<and>
    tr = MetricsStarted (mc_Period (cfg_Metrics (ap_config app))) # map CompInit (map rc_comp (ap_remoteComp app)) @
      map CompAfterInit (map rc_comp (ap_remoteComp app)) @ rtr @ snd (init_modules (start_order app)) @ post \<and>
    (\<forall>n. ModInit n \<notin> set post))"
proof -
  obtain app1 where reg: "register_own app = (Ok (), app1)"
  proof (cases "register_own app")
    case (Pair r0 a0)
    then show ?thesis using assms(2,3) that by (cases r0) (auto simp: Start_def)
  qed
  then obtain m where m: "own_names \<inter> set (app_names app) = {}" "app1 = app\<lparr>ap_modulesMap := m, ap_modulesArr := start_order app\<rparr>"
    using register_own_Ok [OF assms(1)] by blast
  obtain rs rtr where su: "startupComponents u app1 = (app1\<lparr>ap_remoteService := rs\<rparr>,
      map CompInit (map rc_comp (ap_remoteComp app)) @ map CompAfterInit (map rc_comp (ap_remoteComp app)) @ rtr)"
    "register_components u (ap_remoteComp app) (ap_remoteService app) = (rs, rtr)"
    using startupComponents_trace [of u app1] m(2) by auto
  obtain r1 itr where it: "init_modules (start_order app) = (r1, itr)" by (cases "init_modules (start_order app)")
  have sh: "ModInit n \<notin> set (shutdownModules a @ shutdownComponents a)" for n and a :: "'a App"
    by (auto simp: shutdownModules_def shutdownComponents_def stop_module_def Let_def split: option.splits)
  show ?thesis
  proof (cases r1)
    case (Ok x)
    then obtain app2 where st: "app_start u app1 = (Ok (), app2, snd (startupComponents u app1) @ itr @ map (\<lambda>w. ModAfterInit (mw_name w)) (start_order app))"
      using su(1) it m(2) by (simp add: app_start_def startModules_def)
    have "tr = MetricsStarted (mc_Period (cfg_Metrics (ap_config app))) # snd (startupComponents u app1) @ itr @
        map (\<lambda>w. ModAfterInit (mw_name w)) (start_order app) @
        (case (case cause of DieChan \<Rightarrow> Ok d | Signal \<Rightarrow> close_die d) of Ok _ \<Rightarrow> shutdownModules app2 @ shutdownComponents app2 | _ \<Rightarrow> [])"
      using assms(2) reg st m(2) unfolding Start_def by (auto split: outcome.splits)
    then show ?thesis using m(1) su it sh by (auto split: outcome.splits)
  next
    case (Err e)
    then show ?thesis using assms(2) reg su it m by (auto simp: Start_def app_start_def startModules_def)
  next
    case (Panic p)
    then show ?thesis using assms(2) reg su it m by (auto simp: Start_def app_start_def startModules_def)
  qed
qed

text \<open>A run of \<open>Start\<close> in which every module starts.\<close>

lemma Start_ok:
  assumes "app_inv app" "own_names \<inter> set (app_names app) = {}" "\<forall>w \<in> set (start_order app). starts_ok w"
    and "cause = DieChan \<or> \<not> dc_closed d" "register_components u (ap_remoteComp app) (ap_remoteService app) = (rs, rtr)"
  shows "\<exists>app'. Start u cause d app = (Ok (), app',
      MetricsStarted (mc_Period (cfg_Metrics (ap_config app))) #
      map CompInit (map rc_comp (ap_remoteComp app)) @ map CompAfterInit (map rc_comp (ap_remoteComp app)) @ rtr @
      map ModInit (map mw_name (start_order app)) @ map ModAfterInit (map mw_name (start_order app)) @
      map ModBeforeShutdown (rev (map mw_name (start_order app))) @ concat (map stop_module (rev (start_order app))) @
      map CompBeforeShutdown (rev (map rc_comp (ap_remoteComp app))) @ map CompShutdown (rev (map rc_comp (ap_remoteComp app)))) \<and>
    \<not> ap_running app' \<and> ap_remoteService app' = rs \<and> (cause = Signal \<longrightarrow> dc_closed (ap_dieChan app'))"
proof -
  obtain m where reg: "register_own app = (Ok (), app\<lparr>ap_modulesMap := m, ap_modulesArr := start_order app\<rparr>)"
    using register_own_spec [OF assms(1)] assms(2) by auto
  obtain d' where d': "(case cause of DieChan \<Rightarrow> Ok d | Signal \<Rightarrow> close_die d) = Ok d'" "cause = Signal \<longrightarrow> dc_closed d'"
    using assms(4) by (cases cause) (auto simp: close_die_def)
  have "startModules (app\<lparr>ap_modulesMap := m, ap_modulesArr := start_order app, ap_remoteService := rs\<rparr>) =
      (Ok (), map ModInit (map mw_name (start_order app)) @ map ModAfterInit (map mw_name (start_order app)))"
    using init_modules_trace [OF assms(3)] by (simp add: startModules_def comp_def)
  then have "app_start u (app\<lparr>ap_modulesMap := m, ap_modulesArr := start_order app\<rparr>) =
      (Ok (), app\<lparr>ap_modulesMap := m, ap_modulesArr := start_order app, ap_remoteService := rs, ap_running := True\<rparr>,
       map CompInit (map rc_comp (ap_remoteComp app)) @ map CompAfterInit (map rc_comp (ap_remoteComp app)) @ rtr @
       map ModInit (map mw_name (start_order app)) @ map ModAfterInit (map mw_name (start_order app)))"
    using assms(5) by (simp add: app_start_def startupComponents_def Let_def)
  then show ?thesis
    using reg d' unfolding Start_def
    by (simp add: Let_def shutdownModules_def shutdownComponents_def rev_map comp_def)
qed

section \<open>Remote calls\<close>

text \<open>A call depends on the RPC client only at the server that the router, or the caller, chose.\<close>

lemma DoRPC_cong:
  assumes "sd_inv sd" "\<And>n. 0 < n \<Longrightarrow> intn n < n" "rt_serviceDiscovery (rs_router r) = Some sd"
    and "gm_get (rt_routesMap (rs_router r)) (SvType rt) = None"
    and "\<And>m c t. registry_abs sd (sv_ID t) = Some t \<Longrightarrow>
      (if serverID = '''' then sv_Type t = SvType rt else sv_ID t = serverID) \<Longrightarrow> call m c t = call' m c t"
  shows "DoRPC intn call r sd c serverID mt rt data = DoRPC intn call' r sd c serverID mt rt data"
proof (cases "serverID = ''''")
  case True
  let ?msg = "\<lparr>msg_Type = mt, msg_ID = 0, msg_Route = route_Short rt, msg_Data = data, msg_compressed = False, msg_Err = False\<rparr>"
  consider sv where "router_Route intn (rs_router r) c (SvType rt) rt ?msg = Ok (c, Some sv, None)"
      "registry_abs sd (sv_ID sv) = Some sv" "sv_Type sv = SvType rt"
    | "router_Route intn (rs_router r) c (SvType rt) rt ?msg = Ok (c, None, Some ErrNoServersAvailableOfType)"
    using router_Route_default [OF assms(1-4), of c rt ?msg] by (auto split: if_splits)
  then show ?thesis
  proof cases
    case (1 sv)
    then have "call ?msg c sv = call' ?msg c sv" using assms(5) True by simp
    then show ?thesis using 1(1) True by (simp add: DoRPC_def remoteCall_def)
  next
    case 2
    then show ?thesis using True by (simp add: DoRPC_def remoteCall_def)
  qed
next
  case False
  show ?thesis
  proof (cases "registry_abs sd serverID")
    case None
    then show ?thesis using False by (simp add: DoRPC_def sdreg.by_id_spec)
  next
    case (Some t)
    then have "sv_ID t = serverID" using sdreg.lookup_id [OF assms(1)] by simp
    then have "call m c t = call' m c t" for m c using assms(5) Some False by simp
    then show ?thesis using False Some by (simp add: DoRPC_def remoteCall_def sdreg.by_id_spec)
  qed
qed

lemma rs_RPC_cong:
  assumes "\<And>data. DoRPC intn call r sd c serverID mt rt data = DoRPC intn call' r sd c serverID mt rt data"
  shows "rs_RPC intn call r sd c serverID mt rt u arg = rs_RPC intn call' r sd c serverID mt rt u arg"
  unfolding rs_RPC_def using assms by (simp split: option.splits sum.splits)

section \<open>Properties\<close>

definition sample_app :: "nat App" where
  "sample_app =
     snd (RegisterModule (Some \<lparr>gm_Init = None, gm_Shutdown = Some ErrServerNotFound\<rparr>) ''cache''
       (NewApp 0 \<lparr>dc_closed = False, dc_senders = 0\<rparr> (Some router_New) sample_server
         (Some \<lparr>gm_Init = None, gm_Shutdown = None\<rparr>) (Some \<lparr>gm_Init = None, gm_Shutdown = None\<rparr>) (Some \<lparr>gm_Init = None, gm_Shutdown = None\<rparr>)
         (Some sample_remotes) [] NewDefaultConfig))"

lemma sample_app_inv: "app_inv sample_app"
  unfolding sample_app_def RegisterModule_def by (rule RegisterModule_inv(1)) (rule app_inv_new)

lemma sample_app_order:
  "map mw_name (start_order sample_app) = [''rpcClient'', ''rpcServer'', ''cache'', ''serviceDiscovery'']"
  "\<forall>w \<in> set (start_order sample_app). starts_ok w" "own_names \<inter> set (app_names sample_app) = {}"
  "ap_remoteComp sample_app = []" "ap_remoteService sample_app = Some sample_remotes" "ap_server sample_app = sample_server"
  by (simp_all add: sample_app_def RegisterModule_def RegisterModule_spec [OF app_inv_new] app_names_def,
      simp_all add: NewApp_def start_order_def starts_ok_def own_names_def)

text \<open>
  C6: a server is announced last. In every run of \<open>Start\<close>, when the service discovery is initialised, which is
  what makes the server visible to others, every other module has been initialised
  without an error before, the components have been initialised, and no module is
  initialised afterwards.
\<close>

theorem announced_last:
  assumes "app_inv app" "Start u cause d app = (r, app', tr)" "ModInit ''serviceDiscovery'' \<in> set tr"
  shows "\<exists>pre post. tr = pre @ ModInit ''serviceDiscovery'' # post \<and>
    (\<forall>w \<in> set (ap_modulesArr app). ModInit (mw_name w) \<in> set pre \<and> starts_ok w) \<and>
    ModInit ''rpcServer'' \<in> set pre \<and> ModInit ''rpcClient'' \<in> set pre \<and>
    (\<forall>c \<in> set (ap_remoteComp app). CompAfterInit (rc_comp c) \<in> set pre) \<and> (\<forall>n. ModInit n \<notin> set post)"
proof -
  let ?sd = "\<lparr>mw_module = ap_serviceDiscovery app, mw_name = ''serviceDiscovery''\<rparr>"
  let ?ws = "[\<lparr>mw_module = ap_rpcClient app, mw_name = ''rpcClient''\<rparr>, \<lparr>mw_module = ap_rpcServer app, mw_name = ''rpcServer''\<rparr>] @ ap_modulesArr app"
  obtain post rs rtr where tr: "own_names \<inter> set (app_names app) = {}" "register_components u (ap_remoteComp app) (ap_remoteService app) = (rs, rtr)"
    "tr = MetricsStarted (mc_Period (cfg_Metrics (ap_config app))) # map CompInit (map rc_comp (ap_remoteComp app)) @
      map CompAfterInit (map rc_comp (ap_remoteComp app)) @ rtr @ snd (init_modules (start_order app)) @ post"
    "\<forall>n. ModInit n \<notin> set post"
    using Start_modules [OF assms] by blast
  have "ModInit ''serviceDiscovery'' \<notin> set rtr"
    using register_components_events [of "''serviceDiscovery''" u "ap_remoteComp app" "ap_remoteService app"] tr(2) by simp
  then have "ModInit (mw_name ?sd) \<in> set (snd (init_modules (?ws @ [?sd])))"
    using assms(3) tr(3,4) by (auto simp: start_order_def)
  moreover have "mw_name ?sd \<notin> mw_name ` set ?ws"
    using tr(1) by (auto simp: own_names_def app_names_def)
  ultimately have ok: "\<forall>v \<in> set ?ws. starts_ok v"
    and it: "snd (init_modules (start_order app)) = map (\<lambda>w. ModInit (mw_name w)) ?ws @ [ModInit ''serviceDiscovery'']"
    using init_modules_last [of ?sd ?ws] by (simp_all add: start_order_def)
  show ?thesis
    using tr(4) ok
    by (intro exI [of _ "MetricsStarted (mc_Period (cfg_Metrics (ap_config app))) # map CompInit (map rc_comp (ap_remoteComp app)) @
      map CompAfterInit (map rc_comp (ap_remoteComp app)) @ rtr @ map (\<lambda>w. ModInit (mw_name w)) ?ws"] exI [of _ post])
      (auto simp: tr(3) it)
qed

theorem announced_last_witness:
  "\<exists>pre post. snd (snd (Start (\<lambda>_. False) DieChan \<lparr>dc_closed = True, dc_senders = 0\<rparr> sample_app)) =
     pre @ ModInit ''serviceDiscovery'' # post \<and> ModInit ''rpcServer'' \<in> set pre"
proof -
  obtain r app' tr where st: "Start (\<lambda>_. False) DieChan \<lparr>dc_closed = True, dc_senders = 0\<rparr> sample_app = (r, app', tr)"
    by (cases "Start (\<lambda>_. False) DieChan \<lparr>dc_closed = True, dc_senders = 0\<rparr> sample_app")
  moreover have "ModInit ''serviceDiscovery'' \<in> set tr"
    using Start_ok [OF sample_app_inv sample_app_order(3,2), of DieChan "\<lparr>dc_closed = True, dc_senders = 0\<rparr>" "\<lambda>_. False"
        "ap_remoteService sample_app" "[]"] st by (auto simp: sample_app_order)
  ultimately show ?thesis using announced_last [OF sample_app_inv st] by auto
qed

text \<open>
  C20: the life of an app whose modules start. Modules are initialised in the order RPC client, RPC server, the user's modules, service
  discovery, and only then told so (\<open>AfterInit\<close>) in the same order; components are initialised before all
  modules. After the die channel has delivered, or a signal arrived while the die channel was open, the modules and then the
  components are stopped in the opposite order, each in two passes, also when stopping one of them
  fails; the app is not running in the end.
\<close>

theorem app_lifecycle:
  assumes "app_inv app" "own_names \<inter> set (app_names app) = {}" "\<forall>w \<in> set (start_order app). starts_ok w"
    and "cause = DieChan \<or> \<not> dc_closed d" "register_components u (ap_remoteComp app) (ap_remoteService app) = (rs, rtr)"
  shows "\<exists>app'. Start u cause d app = (Ok (), app',
      MetricsStarted (mc_Period (cfg_Metrics (ap_config app))) #
      map CompInit (map rc_comp (ap_remoteComp app)) @ map CompAfterInit (map rc_comp (ap_remoteComp app)) @ rtr @
      map ModInit (map mw_name (start_order app)) @ map ModAfterInit (map mw_name (start_order app)) @
      map ModBeforeShutdown (rev (map mw_name (start_order app))) @ concat (map stop_module (rev (start_order app))) @
      map CompBeforeShutdown (rev (map rc_comp (ap_remoteComp app))) @ map CompShutdown (rev (map rc_comp (ap_remoteComp app)))) \<and>
    \<not> ap_running app' \<and> ap_remoteService app' = rs \<and> (cause = Signal \<longrightarrow> dc_closed (ap_dieChan app'))"
  by (rule Start_ok [OF assms])

theorem app_lifecycle_witness:
  "\<exists>app' tr. Start (\<lambda>_. False) Signal \<lparr>dc_closed = False, dc_senders = 0\<rparr> sample_app = (Ok (), app', tr) \<and>
     \<not> ap_running app' \<and> dc_closed (ap_dieChan app')"
proof -
  have "register_components (\<lambda>_. False) (ap_remoteComp sample_app) (ap_remoteService sample_app) = (ap_remoteService sample_app, [])"
    by (simp add: sample_app_order)
  from app_lifecycle [OF sample_app_inv sample_app_order(3,2) _ this, of Signal "\<lparr>dc_closed = False, dc_senders = 0\<rparr>"]
  show ?thesis by auto
qed



text \<open>
  After a call of \<open>Shutdown\<close> the wait of \<open>Start\<close> can still go on, but only in one case: when exactly one
  goroutine was waiting to send on the open channel, \<open>Shutdown\<close> takes its message instead of closing.
\<close>

lemma Shutdown_signal:
  "\<exists>app'. app_Shutdown app = Ok app' \<and>
     (die_receive (ap_dieChan app') = None \<longleftrightarrow> \<not> dc_closed (ap_dieChan app) \<and> dc_senders (ap_dieChan app) = 1)"
  by (auto simp: app_Shutdown_def die_receive_def close_die_def)

end
