(* ===== verification/Builder.thy ===== *)
theory Builder
  imports App
begin

text \<open>
  \<open>builder.go\<close>, \<open>reporters.go\<close> and \<open>serialize/serializer.go\<close>: making an app from a configuration. The parts the builder
  makes are those of the other theories; inside an app they are modules. What the outside
  gives is an argument: a new UUID, the host name, the clock, the errors of the statsd client, and the
  post-build hooks, which are functions on the app. A \<open>Fatal\<close> of the logger ends the process: \<open>Err\<close>.
\<close>

section \<open>Serializers\<close>

datatype Serializer = JSON_Serializer | Protobuf_Serializer

definition JSON :: "16 word" where "JSON = 1"
definition PROTOBUF :: "16 word" where "PROTOBUF = 2"

definition NewSerializer :: "16 word \<Rightarrow> (goerror, Serializer) outcome" where
  "NewSerializer serializerType =
     (if serializerType = JSON then Ok JSON_Serializer
      else if serializerType = PROTOBUF then Ok Protobuf_Serializer
      else Err (PlainError ''serializer type unknown''))"

definition serializer_GetName :: "Serializer \<Rightarrow> string" where
  "serializer_GetName s = (case s of JSON_Serializer \<Rightarrow> ''json'' | Protobuf_Serializer \<Rightarrow> ''protobuf'')"

text \<open>
  The two serializers. An \<open>interface{}\<close> given to them holds a protobuf message or another value; the encodings themselves
  are those of \<open>encoding/json\<close> and of the protobuf library, the arguments \<open>jm\<close>, \<open>ju\<close>, \<open>pm\<close> and \<open>pu\<close>.
\<close>

datatype ('m, 'o) dyn_value = ProtoMessage 'm | OtherValue 'o

definition protobuf_Marshal :: "('m \<Rightarrow> goerror + bytes) \<Rightarrow> ('m, 'o) dyn_value \<Rightarrow> goerror + bytes" where
  "protobuf_Marshal pm v = (case v of ProtoMessage pb \<Rightarrow> pm pb | OtherValue _ \<Rightarrow> Inl ErrWrongValueType)"

definition protobuf_Unmarshal :: "(bytes \<Rightarrow> 'm \<Rightarrow> goerror + 'm) \<Rightarrow> bytes \<Rightarrow> ('m, 'o) dyn_value \<Rightarrow> goerror + ('m, 'o) dyn_value" where
  "protobuf_Unmarshal pu data v =
     (case v of
        ProtoMessage pb \<Rightarrow> (case pu data pb of Inl e \<Rightarrow> Inl e | Inr pb \<Rightarrow> Inr (ProtoMessage pb))
      | OtherValue _ \<Rightarrow> Inl ErrWrongValueType)"

definition json_Marshal :: "(('m, 'o) dyn_value \<Rightarrow> goerror + bytes) \<Rightarrow> ('m, 'o) dyn_value \<Rightarrow> goerror + bytes" where
  "json_Marshal jm v = jm v"

definition json_Unmarshal :: "(bytes \<Rightarrow> ('m, 'o) dyn_value \<Rightarrow> goerror + ('m, 'o) dyn_value) \<Rightarrow> bytes \<Rightarrow> ('m, 'o) dyn_value \<Rightarrow>
    goerror + ('m, 'o) dyn_value" where
  "json_Unmarshal ju data v = ju data v"

section \<open>The builder\<close>

text \<open>
  The cluster parts can be replaced by the user before \<open>Build\<close>, also by nil: they are optional. \<open>bd_reporters\<close> are
  the metrics reporters.
\<close>

record 'v Builder =
  bd_postBuildHooks :: "('v App \<Rightarrow> 'v App) list"
  bd_Config :: config
  bd_DieChan :: dieChan
  bd_Serializer :: Serializer
  bd_Router :: Router
  bd_RPCClient :: "NatsRPCClient option"
  bd_RPCServer :: "NatsRPCServer option"
  bd_MetricsReporters :: "Reporter list"
  bd_Server :: server
  bd_RemoteHooks :: "(ctx, 'v option) Hooks"
  bd_ServiceDiscovery :: "sdstate option"
  bd_WorkerPool :: WorkerPool

record build_env =
  be_uuid :: string
  be_hostname :: "string + string"
  be_promlib :: promlib
  be_prometheus :: "PrometheusReporter option"
  be_statsd_err :: "goerror option"

definition CreatePrometheusReporter :: "build_env \<Rightarrow> string \<Rightarrow> MetricsConfig \<Rightarrow> CustomMetricsSpec \<Rightarrow>
    (goerror, PrometheusReporter \<times> MetricsConfig) outcome" where
  "CreatePrometheusReporter env serverType cfg customSpecs =
     GetPrometheusReporter (be_promlib env) serverType cfg customSpecs (be_prometheus env)"

definition CreateStatsdReporter :: "build_env \<Rightarrow> string \<Rightarrow> MetricsConfig \<Rightarrow> (goerror, StatsdReporter) outcome" where
  "CreateStatsdReporter env serverType cfg = NewStatsdReporter (be_statsd_err env) cfg serverType"

text \<open>
  \<open>addDefaultPrometheus\<close> also gives back the metrics configuration, whose constant labels registration changes in place.
\<close>

definition addDefaultPrometheus :: "build_env \<Rightarrow> MetricsConfig \<Rightarrow> CustomMetricsSpec \<Rightarrow> Reporter list \<Rightarrow> string \<Rightarrow>
    (goerror, Reporter list \<times> MetricsConfig) outcome" where
  "addDefaultPrometheus env cfg customMetrics reporters serverType =
     (case CreatePrometheusReporter env serverType cfg customMetrics of
        Ok (p, cfg) \<Rightarrow> Ok (reporters @ [Prometheus p], cfg)
      | Err _ \<Rightarrow> Ok (reporters, cfg)
      | Panic m \<Rightarrow> Panic m)"

definition addDefaultStatsd :: "build_env \<Rightarrow> MetricsConfig \<Rightarrow> Reporter list \<Rightarrow> string \<Rightarrow> Reporter list" where
  "addDefaultStatsd env cfg reporters serverType =
     (case CreateStatsdReporter env serverType cfg of
        Ok s \<Rightarrow> reporters @ [Statsd s]
      | _ \<Rightarrow> reporters)"

definition server_id :: "string \<Rightarrow> int \<Rightarrow> string \<Rightarrow> string" where
  "server_id serverType serverID uuid =
     (let serverId = (if serverID > 0 then serverType @ '':'' @ Itoa serverID else '''') in
      if serverId = '''' then uuid else serverId)"

definition NewBuilder :: "build_env \<Rightarrow> string \<Rightarrow> metadata option \<Rightarrow> config \<Rightarrow> (goerror, 'v Builder) outcome" where
  "NewBuilder env serverType serverMetadata cfg =
     (let serverId = server_id serverType (cfg_ServerID cfg) (be_uuid env);
          md = gm_put ''id'' serverId (case serverMetadata of None \<Rightarrow> gm_empty | Some m \<Rightarrow> m);
          sv = NewServer (be_hostname env) serverId serverType [md];
          mcfg = cfg_Metrics cfg in
      bind_outcome (if pc_Enabled (mc_Prometheus mcfg) then addDefaultPrometheus env mcfg (mc_Custom mcfg) [] serverType else Ok ([], mcfg))
        (\<lambda>(reporters, mcfg).
      let reporters = (if sc_Enabled (mc_Statsd mcfg) then addDefaultStatsd env mcfg reporters serverType else reporters);
          sd = NewEtcdServiceDiscovery (csd_Etcd (cc_SD (cfg_Cluster cfg))) sv True [];
          pool = NewWorkerPool (cfg_Concurrency_PoolSize cfg) (cfg_Concurrency_QueueSize cfg)
            (cfg_Concurrency_ClearInterval cfg) (cfg_Concurrency_ClearTimePass cfg) in
      bind_outcome (NewNatsRPCServer (crpc_Server_Nats (cc_RPC (cfg_Cluster cfg))) sv True) (\<lambda>ns.
      bind_outcome (NewNatsRPCClient (crpc_Client_Nats (cc_RPC (cfg_Cluster cfg))) sv) (\<lambda>nc.
      bind_outcome (NewSerializer (cfg_SerializerType cfg)) (\<lambda>ser.
      Ok \<lparr>bd_postBuildHooks = [], bd_Config = cfg\<lparr>cfg_Metrics := mcfg\<rparr>, bd_DieChan = \<lparr>dc_closed = False, dc_senders = 0\<rparr>,
          bd_Serializer = ser, bd_Router = router_New, bd_RPCClient = Some nc, bd_RPCServer = Some ns,
          bd_MetricsReporters = reporters, bd_Server = sv, bd_RemoteHooks = NewRemoteHooks,
          bd_ServiceDiscovery = Some sd, bd_WorkerPool = pool\<rparr>)))))"

definition AddPostBuildHook :: "('v App \<Rightarrow> 'v App) \<Rightarrow> 'v Builder \<Rightarrow> 'v Builder" where
  "AddPostBuildHook hook b = b\<lparr>bd_postBuildHooks := bd_postBuildHooks b @ [hook]\<rparr>"

text \<open>
  \<open>Build\<close>. The modules of the app are the cluster parts; \<open>cl\<close>, \<open>srv\<close> and \<open>sdm\<close> say what their \<open>Init\<close> and \<open>Shutdown\<close> will
  return. The RPC server is changed in place: it gets the remote service as its handler.
\<close>

definition Build :: "int \<Rightarrow> gmodule \<Rightarrow> gmodule \<Rightarrow> gmodule \<Rightarrow> 'v Builder \<Rightarrow> (goerror, 'v App \<times> 'v Builder) outcome" where
  "Build now cl srv sdm b =
     (case (bd_ServiceDiscovery b, bd_RPCClient b, bd_RPCServer b) of
        (Some sd, Some nc, Some ns) \<Rightarrow>
          (let router = SetServiceDiscovery sd (bd_Router b);
               remoteService = NewRemoteService router (bd_Server b) (bd_RemoteHooks b);
               b = b\<lparr>bd_Router := router, bd_RPCServer := Some (SetHandler ns)\<rparr>;
               app = NewApp now (bd_DieChan b) (Some router) (bd_Server b) (Some cl) (Some srv) (Some sdm)
                 (Some remoteService) (bd_MetricsReporters b) (bd_Config b)
           in Ok (fold (\<lambda>hook app. hook app) (bd_postBuildHooks b) app, b))
      | _ \<Rightarrow> Panic ''Cluster mode must have RPC and service discovery instances'')"

section \<open>Properties\<close>

lemma configure_server_keeps: "configure_server cfg ns = (Ok (), ns') \<Longrightarrow> ns_server ns' = ns_server ns"
  by (auto simp: configure_server_def Let_def split: if_splits)

lemma NewNatsRPCServer_server: "NewNatsRPCServer cfg sv pool = Ok ns \<Longrightarrow> ns_server ns = sv"
  by (auto simp: NewNatsRPCServer_def split: prod.splits outcome.splits dest!: configure_server_keeps)

lemma NewEtcdServiceDiscovery_new:
  "sd_inv (NewEtcdServiceDiscovery cfg sv ch cli) \<and> sd_server (NewEtcdServiceDiscovery cfg sv ch cli) = sv"
  by (simp add: NewEtcdServiceDiscovery_def configure_sd_def sd_inv_def registry_abs_def type_entry_def Let_def)

lemma NewBuilder_parts:
  assumes "NewBuilder env ty md cfg = Ok b"
  shows "bd_Server b = NewServer (be_hostname env) (server_id ty (cfg_ServerID cfg) (be_uuid env)) ty
      [gm_put ''id'' (server_id ty (cfg_ServerID cfg) (be_uuid env)) (case md of None \<Rightarrow> gm_empty | Some m \<Rightarrow> m)] \<and>
    bd_Router b = router_New \<and> bd_postBuildHooks b = [] \<and> \<not> dc_closed (bd_DieChan b) \<and>
    (\<exists>sd ns nc. bd_ServiceDiscovery b = Some sd \<and> sd_inv sd \<and> sd_server sd = bd_Server b \<and>
       bd_RPCServer b = Some ns \<and> ns_server ns = bd_Server b \<and> bd_RPCClient b = Some nc)"
  using assms
  by (auto simp: NewBuilder_def Let_def bind_outcome_Ok NewEtcdServiceDiscovery_new NewNatsRPCServer_server)

text \<open>
  The parts of a built app fit together. Whatever the configuration, when the builder could be made, building
  gives an app that is not running, with an open die channel and no modules yet; its server has the configured id (type and
  number, or the generated one), which is also in the metadata that is published; the service discovery announces and
  the RPC server listens for exactly this server; the remote service handles the requests of the RPC server; and it shares one
  router, over this service discovery, with the app.
\<close>

lemma built_app:
  fixes b :: "'v Builder"
  assumes "NewBuilder env ty md cfg = Ok b"
  shows "\<exists>app b' sd ns rs. Build now cl srv sdm b = Ok (app, b') \<and>
    app_inv app \<and> app_names app = [] \<and> \<not> ap_running app \<and> \<not> dc_closed (ap_dieChan app) \<and>
    GetServerID app = (if cfg_ServerID cfg > 0 then ty @ '':'' @ Itoa (cfg_ServerID cfg) else be_uuid env) \<and>
    gm_get (sv_Metadata (ap_server app)) ''id'' = Some (GetServerID app) \<and>
    bd_ServiceDiscovery b' = Some sd \<and> sd_inv sd \<and> sd_server sd = ap_server app \<and>
    bd_RPCServer b' = Some ns \<and> ns_handler ns \<and> ns_server ns = ap_server app \<and>
    ap_remoteService app = Some rs \<and> ap_router app = Some (rs_router rs) \<and> rt_serviceDiscovery (rs_router rs) = Some sd"
proof -
  obtain sd ns nc where p: "bd_ServiceDiscovery b = Some sd" "sd_inv sd" "sd_server sd = bd_Server b"
    "bd_RPCServer b = Some ns" "ns_server ns = bd_Server b" "bd_RPCClient b = Some nc"
    using NewBuilder_parts [OF assms] by blast
  have hooks: "bd_postBuildHooks b = []" "\<not> dc_closed (bd_DieChan b)" using NewBuilder_parts [OF assms] by blast+
  define app where "app = (NewApp now (bd_DieChan b) (Some (SetServiceDiscovery sd (bd_Router b))) (bd_Server b) (Some cl) (Some srv) (Some sdm)
    (Some (NewRemoteService (SetServiceDiscovery sd (bd_Router b)) (bd_Server b) (bd_RemoteHooks b))) (bd_MetricsReporters b) (bd_Config b) :: 'v App)"
  have b: "Build now cl srv sdm b = Ok (app, b\<lparr>bd_Router := SetServiceDiscovery sd (bd_Router b), bd_RPCServer := Some (SetHandler ns)\<rparr>)"
    using p(1,4,6) hooks by (simp add: Build_def Let_def app_def)
  have i: "app_inv app" by (simp add: app_def app_inv_new)
  have a: "app_names app = []" "\<not> ap_running app" "ap_dieChan app = bd_DieChan b" "ap_server app = bd_Server b"
    "ap_router app = Some (SetServiceDiscovery sd (bd_Router b))"
    "ap_remoteService app = Some (NewRemoteService (SetServiceDiscovery sd (bd_Router b)) (bd_Server b) (bd_RemoteHooks b))"
    by (simp_all add: app_def NewApp_def app_names_def)
  have s: "sv_ID (bd_Server b) = (if cfg_ServerID cfg > 0 then ty @ '':'' @ Itoa (cfg_ServerID cfg) else be_uuid env)"
    "gm_get (sv_Metadata (bd_Server b)) ''id'' = Some (sv_ID (bd_Server b))"
    using NewBuilder_parts [OF assms] by (simp_all add: NewServer_def server_id_def)
  show ?thesis
    using b i a s p hooks
    by (intro exI [of _ app] exI [of _ "b\<lparr>bd_Router := SetServiceDiscovery sd (bd_Router b), bd_RPCServer := Some (SetHandler ns)\<rparr>"]
        exI [of _ sd] exI [of _ "SetHandler ns"] exI [of _ "NewRemoteService (SetServiceDiscovery sd (bd_Router b)) (bd_Server b) (bd_RemoteHooks b)"])
      (simp add: GetServerID_def SetHandler_def NewRemoteService_def SetServiceDiscovery_def)
qed

definition sample_build :: build_env where
  "sample_build = \<lparr>be_uuid = ''u-1'', be_hostname = Inr ''host'', be_promlib = sample_promlib, be_prometheus = None, be_statsd_err = None\<rparr>"

end
