(* ===== verification/ViperConfig.thy ===== *)
theory ViperConfig
  imports Config
begin

text \<open>
  \<open>config/viper_config.go\<close> and \<open>NewConfig\<close>: reading the configuration with viper. Viper itself (a layered
  store of overrides, environment, files and defaults) and the decoder of mapstructure are parameters.
  The keys for which the code sets defaults are compared with the keys the configuration structs are
  decoded from.
\<close>

section \<open>Data\<close>

text \<open>Configuration values; \<open>CMap\<close> is a \<open>map[string]interface{}\<close>, the only kind of map \<open>isStringMapInterface\<close> accepts.\<close>

datatype cfgval = CNum int | CStr string | CBool bool | CReal real | CStrs "string list" | CLabels "(string, string) gomap"
  | CSpec CustomMetricsSpec | CMap "(string, cfgval) gomap"

record 's viperlib =
  vl_Get :: "'s \<Rightarrow> string \<Rightarrow> cfgval option"
  vl_Set :: "string \<Rightarrow> cfgval \<Rightarrow> 's \<Rightarrow> 's"
  vl_SetDefault :: "string \<Rightarrow> cfgval \<Rightarrow> 's \<Rightarrow> 's"
  vl_AllKeys :: "'s \<Rightarrow> string list"
  vl_UseEnv :: "'s \<Rightarrow> 's"
  vl_New :: 's

section \<open>Defaults\<close>

definition defaultsMap :: "config \<Rightarrow> (string, cfgval) gomap" where
  "defaultsMap c =
     [(''nrpc.serializertype'', CNum (uint (cfg_SerializerType c))),
      (''nrpc.cluster.info.region'', CStr (irc_Region (cc_Info (cfg_Cluster c)))),
      (''nrpc.cluster.rpc.client.nats.connect'', CStr (ncc_Connect (crpc_Client_Nats (cc_RPC (cfg_Cluster c))))),
      (''nrpc.cluster.rpc.client.nats.connectiontimeout'', CNum (ncc_ConnectionTimeout (crpc_Client_Nats (cc_RPC (cfg_Cluster c))))),
      (''nrpc.cluster.rpc.client.nats.maxreconnectionretries'', CNum (ncc_MaxReconnectionRetries (crpc_Client_Nats (cc_RPC (cfg_Cluster c))))),
      (''nrpc.cluster.rpc.client.nats.websocketcompression'', CBool (ncc_WebsocketCompression (crpc_Client_Nats (cc_RPC (cfg_Cluster c))))),
      (''nrpc.cluster.rpc.client.nats.reconnectjitter'', CNum (ncc_ReconnectJitter (crpc_Client_Nats (cc_RPC (cfg_Cluster c))))),
      (''nrpc.cluster.rpc.client.nats.reconnectjittertls'', CNum (ncc_ReconnectJitterTLS (crpc_Client_Nats (cc_RPC (cfg_Cluster c))))),
      (''nrpc.cluster.rpc.client.nats.reconnectwait'', CNum (ncc_ReconnectWait (crpc_Client_Nats (cc_RPC (cfg_Cluster c))))),
      (''nrpc.cluster.rpc.client.nats.pinginterval'', CNum (ncc_PingInterval (crpc_Client_Nats (cc_RPC (cfg_Cluster c))))),
      (''nrpc.cluster.rpc.client.nats.maxpingsoutstanding'', CNum (ncc_MaxPingsOutstanding (crpc_Client_Nats (cc_RPC (cfg_Cluster c))))),
      (''nrpc.cluster.rpc.client.nats.requesttimeout'', CNum (ncc_RequestTimeout (crpc_Client_Nats (cc_RPC (cfg_Cluster c))))),
      (''nrpc.cluster.rpc.server.nats.connect'', CStr (nsc_Connect (crpc_Server_Nats (cc_RPC (cfg_Cluster c))))),
      (''nrpc.cluster.rpc.server.nats.connectiontimeout'', CNum (nsc_ConnectionTimeout (crpc_Server_Nats (cc_RPC (cfg_Cluster c))))),
      (''nrpc.cluster.rpc.server.nats.maxreconnectionretries'', CNum (nsc_MaxReconnectionRetries (crpc_Server_Nats (cc_RPC (cfg_Cluster c))))),
      (''nrpc.cluster.rpc.server.nats.websocketcompression'', CBool (nsc_WebsocketCompression (crpc_Server_Nats (cc_RPC (cfg_Cluster c))))),
      (''nrpc.cluster.rpc.server.nats.reconnectjitter'', CNum (nsc_ReconnectJitter (crpc_Server_Nats (cc_RPC (cfg_Cluster c))))),
      (''nrpc.cluster.rpc.server.nats.reconnectjittertls'', CNum (nsc_ReconnectJitterTLS (crpc_Server_Nats (cc_RPC (cfg_Cluster c))))),
      (''nrpc.cluster.rpc.server.nats.reconnectwait'', CNum (nsc_ReconnectWait (crpc_Server_Nats (cc_RPC (cfg_Cluster c))))),
      (''nrpc.cluster.rpc.server.nats.pinginterval'', CNum (nsc_PingInterval (crpc_Server_Nats (cc_RPC (cfg_Cluster c))))),
      (''nrpc.cluster.rpc.server.nats.maxpingsoutstanding'', CNum (nsc_MaxPingsOutstanding (crpc_Server_Nats (cc_RPC (cfg_Cluster c))))),
      (''nrpc.cluster.rpc.server.nats.services'', CNum (nsc_Services (crpc_Server_Nats (cc_RPC (cfg_Cluster c))))),
      (''nrpc.cluster.rpc.server.nats.buffer.messages'', CNum (nsc_Buffer_Messages (crpc_Server_Nats (cc_RPC (cfg_Cluster c))))),
      (''nrpc.cluster.sd.etcd.dialtimeout'', CNum (esd_DialTimeout (csd_Etcd (cc_SD (cfg_Cluster c))))),
      (''nrpc.cluster.sd.etcd.endpoints'', CStrs (esd_Endpoints (csd_Etcd (cc_SD (cfg_Cluster c))))),
      (''nrpc.cluster.sd.etcd.prefix'', CStr (esd_Prefix (csd_Etcd (cc_SD (cfg_Cluster c))))),
      (''nrpc.cluster.sd.etcd.grantlease.maxretries'', CNum (esd_GrantLease_MaxRetries (csd_Etcd (cc_SD (cfg_Cluster c))))),
      (''nrpc.cluster.sd.etcd.grantlease.retryinterval'', CNum (esd_GrantLease_RetryInterval (csd_Etcd (cc_SD (cfg_Cluster c))))),
      (''nrpc.cluster.sd.etcd.grantlease.timeout'', CNum (esd_GrantLease_Timeout (csd_Etcd (cc_SD (cfg_Cluster c))))),
      (''nrpc.cluster.sd.etcd.heartbeat.log'', CBool (esd_Heartbeat_Log (csd_Etcd (cc_SD (cfg_Cluster c))))),
      (''nrpc.cluster.sd.etcd.heartbeat.ttl'', CNum (esd_Heartbeat_TTL (csd_Etcd (cc_SD (cfg_Cluster c))))),
      (''nrpc.cluster.sd.etcd.revoke.timeout'', CNum (esd_Revoke_Timeout (csd_Etcd (cc_SD (cfg_Cluster c))))),
      (''nrpc.cluster.sd.etcd.syncservers.interval'', CNum (esd_SyncServers_Interval (csd_Etcd (cc_SD (cfg_Cluster c))))),
      (''nrpc.cluster.sd.etcd.syncservers.parallelism'', CNum (esd_SyncServers_Parallelism (csd_Etcd (cc_SD (cfg_Cluster c))))),
      (''nrpc.cluster.sd.etcd.shutdown.delay'', CNum (esd_Shutdown_Delay (csd_Etcd (cc_SD (cfg_Cluster c))))),
      (''nrpc.cluster.sd.etcd.servertypeblacklist'', CStrs (esd_ServerTypesBlacklist (csd_Etcd (cc_SD (cfg_Cluster c))))),
      (''nrpc.defaultpipelines.structvalidation.enabled'', CBool (cfg_StructValidation_Enabled c)),
      (''nrpc.groups.etcd.dialtimeout'', CNum (egc_DialTimeout (gc_Etcd (cfg_Groups c)))),
      (''nrpc.groups.etcd.endpoints'', CStrs (egc_Endpoints (gc_Etcd (cfg_Groups c)))),
      (''nrpc.groups.etcd.prefix'', CStr (egc_Prefix (gc_Etcd (cfg_Groups c)))),
      (''nrpc.groups.etcd.transactiontimeout'', CNum (egc_TransactionTimeout (gc_Etcd (cfg_Groups c)))),
      (''nrpc.groups.memory.tickduration'', CNum (mgc_TickDuration (gc_Memory (cfg_Groups c)))),
      (''nrpc.handler.messages.compression'', CBool (cfg_Messages_Compression c)),
      (''nrpc.heartbeat.interval'', CNum (cfg_Heartbeat_Interval c)),
      (''nrpc.metrics.additionalLabels'', CLabels (mc_AdditionalLabels (cfg_Metrics c))),
      (''nrpc.metrics.constLabels'', CLabels (case mc_ConstLabels (cfg_Metrics c) of Some l \<Rightarrow> l | None \<Rightarrow> gm_empty)),
      (''nrpc.metrics.custom'', CSpec (mc_Custom (cfg_Metrics c))),
      (''nrpc.metrics.period'', CNum (mc_Period (cfg_Metrics c))),
      (''nrpc.metrics.prometheus.enabled'', CBool (pc_Enabled (mc_Prometheus (cfg_Metrics c)))),
      (''nrpc.metrics.prometheus.port'', CNum (pc_Port (mc_Prometheus (cfg_Metrics c)))),
      (''nrpc.metrics.statsd.enabled'', CBool (sc_Enabled (mc_Statsd (cfg_Metrics c)))),
      (''nrpc.metrics.statsd.host'', CStr (sc_Host (mc_Statsd (cfg_Metrics c)))),
      (''nrpc.metrics.statsd.prefix'', CStr (sc_Prefix (mc_Statsd (cfg_Metrics c)))),
      (''nrpc.metrics.statsd.rate'', CReal (sc_Rate (mc_Statsd (cfg_Metrics c)))),
      (''nrpc.modules.bindingstorage.etcd.dialtimeout'', CNum (ebc_DialTimeout (mod_BindingStorage_Etcd (cfg_Modules c)))),
      (''nrpc.modules.bindingstorage.etcd.endpoints'', CStrs (ebc_Endpoints (mod_BindingStorage_Etcd (cfg_Modules c)))),
      (''nrpc.modules.bindingstorage.etcd.leasettl'', CNum (ebc_LeaseTTL (mod_BindingStorage_Etcd (cfg_Modules c)))),
      (''nrpc.modules.bindingstorage.etcd.prefix'', CStr (ebc_Prefix (mod_BindingStorage_Etcd (cfg_Modules c)))),
      (''nrpc.conn.ratelimiting.limit'', CNum (rl_Limit (cfg_RateLimiting c))),
      (''nrpc.conn.ratelimiting.interval'', CNum (rl_Interval (cfg_RateLimiting c))),
      (''nrpc.conn.ratelimiting.forcedisable'', CBool (rl_ForceDisable (cfg_RateLimiting c))),
      (''nrpc.worker.concurrency'', CNum (wc_Concurrency (cfg_Worker c))),
      (''nrpc.worker.redis.pool'', CStr (wc_Redis_Pool (cfg_Worker c))),
      (''nrpc.worker.redis.url'', CStr (wc_Redis_ServerURL (cfg_Worker c))),
      (''nrpc.worker.retry.enabled'', CBool (eo_Enabled (wc_Retry (cfg_Worker c)))),
      (''nrpc.worker.retry.exponential'', CNum (eo_Exponential (wc_Retry (cfg_Worker c)))),
      (''nrpc.worker.retry.max'', CNum (eo_Max (wc_Retry (cfg_Worker c)))),
      (''nrpc.worker.retry.maxDelay'', CNum (eo_MaxDelay (wc_Retry (cfg_Worker c)))),
      (''nrpc.worker.retry.maxRandom'', CNum (eo_MaxRandom (wc_Retry (cfg_Worker c)))),
      (''nrpc.worker.retry.minDelay'', CNum (eo_MinDelay (wc_Retry (cfg_Worker c))))]"

definition fill_one :: "'s viperlib \<Rightarrow> string \<times> cfgval \<Rightarrow> 's \<Rightarrow> 's" where
  "fill_one lib kv s =
     (case vl_Get lib s (fst kv) of
        None \<Rightarrow> vl_SetDefault lib (fst kv) (snd kv) s
      | Some val \<Rightarrow> vl_Set lib (fst kv) val (vl_SetDefault lib (fst kv) val s))"

definition fillDefaultValues :: "'s viperlib \<Rightarrow> 's \<Rightarrow> 's" where
  "fillDefaultValues lib s = fold (fill_one lib) (defaultsMap NewDefaultConfig) s"

definition NewViperConfig :: "'s viperlib \<Rightarrow> 's list \<Rightarrow> 's" where
  "NewViperConfig lib cfgs = fillDefaultValues lib (vl_UseEnv lib (case cfgs of [] \<Rightarrow> vl_New lib | c # _ \<Rightarrow> c))"

section \<open>Reading\<close>

definition isStringMapInterface :: "cfgval \<Rightarrow> bool" where
  "isStringMapInterface v = (case v of CMap _ \<Rightarrow> True | _ \<Rightarrow> False)"

text \<open>One step of the loop of \<open>UnmarshalKey\<close>: the first segment of a key below the prefix is looked up when the map does not have it.\<close>

definition merge_key :: "'s viperlib \<Rightarrow> 's \<Rightarrow> string \<Rightarrow> string \<Rightarrow> (string, cfgval) gomap \<Rightarrow> (string, cfgval) gomap" where
  "merge_key lib s key k val =
     (let pre = key @ ''.'' in
      if \<not> prefix pre k then val
      else
        let mk = hd (split_on CHR ''.'' (drop (length pre) k)) in
        if gm_get val mk \<noteq> None then val
        else case vl_Get lib s (key @ ''.'' @ mk) of None \<Rightarrow> val | Some mv \<Rightarrow> gm_put mk mv val)"

text \<open>\<open>decode\<close> is the decoder of mapstructure, applied to what was read and the value to fill.\<close>

definition UnmarshalKey :: "'s viperlib \<Rightarrow> (cfgval \<Rightarrow> 'c \<Rightarrow> goerror + 'c) \<Rightarrow> (string \<Rightarrow> string) \<Rightarrow> 's \<Rightarrow> string \<Rightarrow> 'c \<Rightarrow> (goerror, 'c) outcome" where
  "UnmarshalKey lib decode toLower s key rawVal =
     (let key = toLower key in
      case vl_Get lib s key of
        None \<Rightarrow> Ok rawVal
      | Some i \<Rightarrow>
          let i = (case i of CMap val \<Rightarrow> CMap (fold (merge_key lib s key) (vl_AllKeys lib s) val) | _ \<Rightarrow> i) in
          case decode i rawVal of Inl e \<Rightarrow> Err e | Inr v \<Rightarrow> Ok v)"

definition NewConfig :: "'s viperlib \<Rightarrow> (cfgval \<Rightarrow> config \<Rightarrow> goerror + config) \<Rightarrow> (string \<Rightarrow> string) \<Rightarrow> 's \<Rightarrow> (goerror, config) outcome" where
  "NewConfig lib decode toLower s =
     (case UnmarshalKey lib decode toLower s ''nrpc'' NewDefaultConfig of
        Err e \<Rightarrow> Panic (err_Error e)
      | r \<Rightarrow> r)"

text \<open>
  The reader of the custom metrics, marked as deprecated, and that of the group service. The first starts from nil slices,
  which are empty lists here like those of the default.
\<close>

definition NewCustomMetricsSpec :: "'s viperlib \<Rightarrow> (cfgval \<Rightarrow> CustomMetricsSpec \<Rightarrow> goerror + CustomMetricsSpec) \<Rightarrow> (string \<Rightarrow> string) \<Rightarrow> 's \<Rightarrow>
    CustomMetricsSpec" where
  "NewCustomMetricsSpec lib decode toLower s =
     (case UnmarshalKey lib decode toLower s ''nrpc.metrics.custom'' NewDefaultCustomMetricsSpec of
        Ok spec \<Rightarrow> spec
      | _ \<Rightarrow> NewDefaultCustomMetricsSpec)"

definition newEtcdGroupServiceConfig :: "'s viperlib \<Rightarrow> (cfgval \<Rightarrow> EtcdGroupServiceConfig \<Rightarrow> goerror + EtcdGroupServiceConfig) \<Rightarrow>
    (string \<Rightarrow> string) \<Rightarrow> 's \<Rightarrow> (goerror, EtcdGroupServiceConfig) outcome" where
  "newEtcdGroupServiceConfig lib decode toLower s =
     (case UnmarshalKey lib decode toLower s ''nrpc.groups.etcd'' newDefaultEtcdGroupServiceConfig of
        Err e \<Rightarrow> Panic (err_Error e)
      | r \<Rightarrow> r)"

text \<open>
  The decoder that \<open>UnmarshalKey\<close> uses: the settings given to mapstructure, with which \<open>NewDecoder\<close> of that library makes
  a decoder or fails.
\<close>

datatype decode_hook = StringToTimeDurationHook | StringToSliceHook string

record DecoderConfig =
  dcf_WeaklyTypedInput :: bool
  dcf_DecodeHook :: "decode_hook list"

definition defaultDecoderConfig :: "(DecoderConfig \<Rightarrow> DecoderConfig) list \<Rightarrow> DecoderConfig" where
  "defaultDecoderConfig opts =
     fold (\<lambda>opt c. opt c) opts
       \<lparr>dcf_WeaklyTypedInput = True, dcf_DecodeHook = [StringToTimeDurationHook, StringToSliceHook '','']\<rparr>"

definition decode_value :: "(DecoderConfig \<Rightarrow> goerror + (cfgval \<Rightarrow> 'c \<Rightarrow> goerror + 'c)) \<Rightarrow> DecoderConfig \<Rightarrow> cfgval \<Rightarrow> 'c \<Rightarrow> goerror + 'c" where
  "decode_value newDecoder cfg input out = (case newDecoder cfg of Inl err \<Rightarrow> Inl err | Inr decoder \<Rightarrow> decoder input out)"

section \<open>The keys of the configuration structs\<close>

definition under :: "string \<Rightarrow> string list \<Rightarrow> string list" where
  "under p ks = map (\<lambda>k. p @ ''.'' @ k) ks"

definition NatsRPCClientConfig_keys :: "string list" where
  "NatsRPCClientConfig_keys = [''connect'', ''maxreconnectionretries'', ''requesttimeout'', ''connectiontimeout'', ''websocketcompression'',
     ''reconnectjitter'', ''reconnectjittertls'', ''reconnectwait'', ''pinginterval'', ''maxpingsoutstanding'']"

definition NatsRPCServerConfig_keys :: "string list" where
  "NatsRPCServerConfig_keys = [''connect'', ''maxreconnectionretries'', ''buffer.messages'', ''services'', ''semaphore'', ''connectiontimeout'',
     ''websocketcompression'', ''reconnectjitter'', ''reconnectjittertls'', ''reconnectwait'', ''pinginterval'', ''maxpingsoutstanding'']"

definition EtcdServiceDiscoveryConfig_keys :: "string list" where
  "EtcdServiceDiscoveryConfig_keys = [''endpoints'', ''user'', ''pass'', ''dialtimeout'', ''prefix'', ''heartbeat.ttl'', ''heartbeat.log'',
     ''syncservers.interval'', ''syncservers.parallelism'', ''revoke.timeout'', ''grantlease.timeout'', ''grantlease.maxretries'',
     ''grantlease.retryinterval'', ''shutdown.delay'', ''servertypesblacklist'']"

definition MetricsConfig_keys :: "string list" where
  "MetricsConfig_keys = [''app'', ''period'', ''additionallabels'', ''constlabels'', ''custom'', ''prometheus.port'', ''prometheus.enabled'',
     ''statsd.enabled'', ''statsd.host'', ''statsd.prefix'', ''statsd.rate'']"

definition WorkerConfig_keys :: "string list" where
  "WorkerConfig_keys = [''redis.serverurl'', ''redis.pool'', ''redis.password'', ''namespace'', ''concurrency''] @
     under ''retry'' [''enabled'', ''max'', ''exponential'', ''mindelay'', ''maxdelay'', ''maxrandom'']"

definition config_keys :: "string list" where
  "config_keys = under ''nrpc'' (
     [''server_id'', ''serializertype'', ''defaultpipelines.structvalidation.enabled'', ''heartbeat.interval'', ''handler.messages.compression''] @
     under ''modules.bindingstorage.etcd'' [''dialtimeout'', ''endpoints'', ''prefix'', ''leasettl''] @
     under ''concurrency'' [''poolsize'', ''queuesize'', ''clearinterval'', ''cleartimepass''] @
     under ''conn.ratelimiting'' [''limit'', ''interval'', ''forcedisable''] @
     under ''metrics'' MetricsConfig_keys @
     [''cluster.info.region''] @ under ''cluster.rpc.client.nats'' NatsRPCClientConfig_keys @
     under ''cluster.rpc.server.nats'' NatsRPCServerConfig_keys @ under ''cluster.sd.etcd'' EtcdServiceDiscoveryConfig_keys @
     under ''groups.etcd'' [''dialtimeout'', ''endpoints'', ''prefix'', ''transactiontimeout''] @ [''groups.memory.tickduration''] @
     under ''worker'' WorkerConfig_keys)"

text \<open>Viper's keys are case-insensitive: they are compared in lower case.\<close>

fun lower_char :: "char \<Rightarrow> char" where
  "lower_char (Char b0 b1 b2 b3 b4 b5 b6 b7) =
     (if \<not> b7 \<and> b6 \<and> \<not> b5 \<and> (b0 \<or> b1 \<or> b2 \<or> b3 \<or> b4) \<and> \<not> (b4 \<and> b3 \<and> (b2 \<or> b1 \<and> b0))
      then Char b0 b1 b2 b3 b4 True b6 b7 else Char b0 b1 b2 b3 b4 b5 b6 b7)"

definition lower :: "string \<Rightarrow> string" where
  "lower s = map lower_char s"

definition default_keys :: "string list" where
  "default_keys = gm_keys (defaultsMap NewDefaultConfig)"

section \<open>Lemmas\<close>

lemma default_keys_list: "default_keys =
    [''nrpc.serializertype'',
     ''nrpc.cluster.info.region'',
     ''nrpc.cluster.rpc.client.nats.connect'',
     ''nrpc.cluster.rpc.client.nats.connectiontimeout'',
     ''nrpc.cluster.rpc.client.nats.maxreconnectionretries'',
     ''nrpc.cluster.rpc.client.nats.websocketcompression'',
     ''nrpc.cluster.rpc.client.nats.reconnectjitter'',
     ''nrpc.cluster.rpc.client.nats.reconnectjittertls'',
     ''nrpc.cluster.rpc.client.nats.reconnectwait'',
     ''nrpc.cluster.rpc.client.nats.pinginterval'',
     ''nrpc.cluster.rpc.client.nats.maxpingsoutstanding'',
     ''nrpc.cluster.rpc.client.nats.requesttimeout'',
     ''nrpc.cluster.rpc.server.nats.connect'',
     ''nrpc.cluster.rpc.server.nats.connectiontimeout'',
     ''nrpc.cluster.rpc.server.nats.maxreconnectionretries'',
     ''nrpc.cluster.rpc.server.nats.websocketcompression'',
     ''nrpc.cluster.rpc.server.nats.reconnectjitter'',
     ''nrpc.cluster.rpc.server.nats.reconnectjittertls'',
     ''nrpc.cluster.rpc.server.nats.reconnectwait'',
     ''nrpc.cluster.rpc.server.nats.pinginterval'',
     ''nrpc.cluster.rpc.server.nats.maxpingsoutstanding'',
     ''nrpc.cluster.rpc.server.nats.services'',
     ''nrpc.cluster.rpc.server.nats.buffer.messages'',
     ''nrpc.cluster.sd.etcd.dialtimeout'',
     ''nrpc.cluster.sd.etcd.endpoints'',
     ''nrpc.cluster.sd.etcd.prefix'',
     ''nrpc.cluster.sd.etcd.grantlease.maxretries'',
     ''nrpc.cluster.sd.etcd.grantlease.retryinterval'',
     ''nrpc.cluster.sd.etcd.grantlease.timeout'',
     ''nrpc.cluster.sd.etcd.heartbeat.log'',
     ''nrpc.cluster.sd.etcd.heartbeat.ttl'',
     ''nrpc.cluster.sd.etcd.revoke.timeout'',
     ''nrpc.cluster.sd.etcd.syncservers.interval'',
     ''nrpc.cluster.sd.etcd.syncservers.parallelism'',
     ''nrpc.cluster.sd.etcd.shutdown.delay'',
     ''nrpc.cluster.sd.etcd.servertypeblacklist'',
     ''nrpc.defaultpipelines.structvalidation.enabled'',
     ''nrpc.groups.etcd.dialtimeout'',
     ''nrpc.groups.etcd.endpoints'',
     ''nrpc.groups.etcd.prefix'',
     ''nrpc.groups.etcd.transactiontimeout'',
     ''nrpc.groups.memory.tickduration'',
     ''nrpc.handler.messages.compression'',
     ''nrpc.heartbeat.interval'',
     ''nrpc.metrics.additionalLabels'',
     ''nrpc.metrics.constLabels'',
     ''nrpc.metrics.custom'',
     ''nrpc.metrics.period'',
     ''nrpc.metrics.prometheus.enabled'',
     ''nrpc.metrics.prometheus.port'',
     ''nrpc.metrics.statsd.enabled'',
     ''nrpc.metrics.statsd.host'',
     ''nrpc.metrics.statsd.prefix'',
     ''nrpc.metrics.statsd.rate'',
     ''nrpc.modules.bindingstorage.etcd.dialtimeout'',
     ''nrpc.modules.bindingstorage.etcd.endpoints'',
     ''nrpc.modules.bindingstorage.etcd.leasettl'',
     ''nrpc.modules.bindingstorage.etcd.prefix'',
     ''nrpc.conn.ratelimiting.limit'',
     ''nrpc.conn.ratelimiting.interval'',
     ''nrpc.conn.ratelimiting.forcedisable'',
     ''nrpc.worker.concurrency'',
     ''nrpc.worker.redis.pool'',
     ''nrpc.worker.redis.url'',
     ''nrpc.worker.retry.enabled'',
     ''nrpc.worker.retry.exponential'',
     ''nrpc.worker.retry.max'',
     ''nrpc.worker.retry.maxDelay'',
     ''nrpc.worker.retry.maxRandom'',
     ''nrpc.worker.retry.minDelay'']"
  by (simp add: default_keys_def defaultsMap_def gm_keys_def)

lemma default_keys_distinct: "distinct default_keys"
proof -
  have "distinct (map rev default_keys)" unfolding default_keys_list by code_simp
  then show ?thesis by (simp add: distinct_map)
qed

text \<open>What viper promises for the keys of the defaults.\<close>

definition viper_laws :: "'s viperlib \<Rightarrow> bool" where
  "viper_laws lib \<longleftrightarrow>
     (\<forall>s v. \<forall>k \<in> set default_keys. \<forall>k' \<in> set default_keys.
        (vl_Get lib s k = None \<longrightarrow> vl_Get lib (vl_SetDefault lib k v s) k = Some v) \<and>
        vl_Get lib (vl_Set lib k v s) k = Some v \<and>
        (k' \<noteq> k \<longrightarrow> vl_Get lib (vl_SetDefault lib k v s) k' = vl_Get lib s k' \<and> vl_Get lib (vl_Set lib k v s) k' = vl_Get lib s k'))"

lemma fill_one_get:
  assumes "viper_laws lib" "k \<in> set default_keys" "k' \<in> set default_keys"
  shows "vl_Get lib (fill_one lib (k, v) s) k' =
    (if k' = k then Some (case vl_Get lib s k of Some x \<Rightarrow> x | None \<Rightarrow> v) else vl_Get lib s k')"
  using assms by (auto simp: viper_laws_def fill_one_def split: option.splits)

lemma fill_get:
  assumes "viper_laws lib" "set (map fst kvs) \<subseteq> set default_keys" "distinct (map fst kvs)" "k \<in> set default_keys"
  shows "vl_Get lib (fold (fill_one lib) kvs s) k =
    (case map_of kvs k of Some v \<Rightarrow> Some (case vl_Get lib s k of Some x \<Rightarrow> x | None \<Rightarrow> v) | None \<Rightarrow> vl_Get lib s k)"
  using assms(2,3)
proof (induction kvs arbitrary: s)
  case (Cons kv kvs)
  obtain k0 v0 where kv: "kv = (k0, v0)" by (cases kv)
  then have k0: "k0 \<in> set default_keys" "k0 \<notin> fst ` set kvs" using Cons.prems by auto
  have g: "vl_Get lib (fill_one lib (k0, v0) s) k =
      (if k = k0 then Some (case vl_Get lib s k0 of Some x \<Rightarrow> x | None \<Rightarrow> v0) else vl_Get lib s k)"
    by (rule fill_one_get [OF assms(1) k0(1) assms(4)])
  have "vl_Get lib (fold (fill_one lib) (kv # kvs) s) k =
      (case map_of kvs k of Some v \<Rightarrow> Some (case vl_Get lib (fill_one lib (k0, v0) s) k of Some x \<Rightarrow> x | None \<Rightarrow> v)
       | None \<Rightarrow> vl_Get lib (fill_one lib (k0, v0) s) k)"
    using Cons.IH [of "fill_one lib (k0, v0) s"] Cons.prems kv by simp
  moreover have "map_of kvs k0 = None" using k0(2) by (simp add: map_of_eq_None_iff)
  ultimately show ?case unfolding g kv by (cases "k = k0") simp_all
qed simp

text \<open>The comparison, from the ends of the strings, which differ earlier.\<close>

definition unread_keys :: "string list \<Rightarrow> string list \<Rightarrow> string list" where
  "unread_keys revs ks = filter (\<lambda>k. \<not> List.member revs (rev (lower k))) ks"

lemma unread_keys_filter: "filter (\<lambda>k. lower k \<notin> set cs) ks = unread_keys (map rev cs) ks"
proof -
  have "rev k \<in> rev ` set cs \<longleftrightarrow> k \<in> set cs" for k :: string
    by (simp add: inj_image_mem_iff inj_def)
  then show ?thesis by (simp add: unread_keys_def List.member_iff)
qed

lemma dead_default_keys:
  "filter (\<lambda>k. lower k \<notin> set config_keys) default_keys = [''nrpc.cluster.sd.etcd.servertypeblacklist'', ''nrpc.worker.redis.url'']"
  unfolding default_keys_list unread_keys_filter by code_simp

section \<open>Properties\<close>

text \<open>
  The default configuration values. After \<open>fillDefaultValues\<close> every key of the defaults has a value: the one that was
  configured before, from whatever source, or else the default. But two of the 70 keys are
  never read, since no field of the configuration structs is decoded from them: a blacklist of server types or a
  Redis address set under those keys, or in the environment variables derived from them, has no effect.
\<close>

lemma default_values:
  assumes "viper_laws lib" "gm_get (defaultsMap NewDefaultConfig) k = Some v"
  shows "vl_Get lib (fillDefaultValues lib s) k = Some (case vl_Get lib s k of Some x \<Rightarrow> x | None \<Rightarrow> v) \<and>
    filter (\<lambda>k. lower k \<notin> set config_keys) (gm_keys (defaultsMap NewDefaultConfig)) =
      [''nrpc.cluster.sd.etcd.servertypeblacklist'', ''nrpc.worker.redis.url'']"
proof
  have "k \<in> set default_keys" using assms(2) by (simp add: default_keys_def gm_keys_get)
  then show "vl_Get lib (fillDefaultValues lib s) k = Some (case vl_Get lib s k of Some x \<Rightarrow> x | None \<Rightarrow> v)"
    using fill_get [OF assms(1), of "defaultsMap NewDefaultConfig" k s] default_keys_distinct assms(2)
    by (simp add: fillDefaultValues_def default_keys_def gm_keys_def gm_get_def)
qed (fact dead_default_keys [unfolded default_keys_def])

text \<open>A viper with two layers, values and defaults.\<close>

definition sample_viper :: "((string \<Rightarrow> cfgval option) \<times> (string \<Rightarrow> cfgval option)) viperlib" where
  "sample_viper = \<lparr>vl_Get = \<lambda>(vs, ds) k. (case vs k of Some v \<Rightarrow> Some v | None \<Rightarrow> ds k), vl_Set = \<lambda>k v (vs, ds). (vs(k \<mapsto> v), ds),
     vl_SetDefault = \<lambda>k v (vs, ds). (vs, ds(k \<mapsto> v)), vl_AllKeys = \<lambda>_. [], vl_UseEnv = \<lambda>s. s, vl_New = (Map.empty, Map.empty)\<rparr>"

end
