(* ===== verification/Logger.thy ===== *)
theory Logger
  imports Context "HOL-Library.Char_ord" "HOL-Library.List_Lexorder" "HOL-Library.Multiset"
begin

text \<open>
  \<open>logger/default.go\<close> and \<open>logger/logger.go\<close>: the default logger, a prefix and a mutex over a
  \<open>log.Logger\<close> of the standard library, and the loggers derived from it by \<open>WithField\<close> and its relatives. A
  derived logger is a new object with a mutex of its own that writes through the same \<open>log.Logger\<close>. The
  first part models the operations one after the other; the second part the four steps of one
  log call (lock, set the prefix, print, unlock) as a step relation over several goroutines.
\<close>

section \<open>Printing of values\<close>

text \<open>
  The verbs \<open>%s\<close> and \<open>%v\<close> of \<open>fmt\<close> as this file uses them: slices are printed in brackets, maps with their
  keys in order. \<open>other\<close> prints the values the model does not look into.
\<close>

definition spaced :: "string list \<Rightarrow> string" where
  "spaced ss = join_with (CHR '' '') ss"

definition print_map :: "(string \<times> string) list \<Rightarrow> string" where
  "print_map kvs = ''map['' @ spaced (map (\<lambda>(k, v). k @ '':'' @ v) (sort_key fst kvs)) @ '']''"

fun print_val :: "(nat \<Rightarrow> string) \<Rightarrow> gval \<Rightarrow> string" where
  "print_val other GNil = ''<nil>''"
| "print_val other (GString s) = s"
| "print_val other (GNum n) = Itoa n"
| "print_val other (GBool b) = (if b then ''true'' else ''false'')"
| "print_val other (GCarrier kvs) = print_map kvs"
| "print_val other (GTags kvs) = print_map kvs"
| "print_val other (GMap kvs) = print_map (map (\<lambda>(k, v). (k, print_val other v)) kvs)"
| "print_val other (GOther n) = other n"

definition print_err :: "goerror option \<Rightarrow> string" where
  "print_err e = (case e of None \<Rightarrow> ''<nil>'' | Some err \<Rightarrow> err_Error err)"

section \<open>Loggers\<close>

text \<open>\<open>lg_mu\<close> is the address of the logger's own mutex; every \<open>With\<close> call allocates a new one.\<close>

record Logger =
  lg_mu :: nat
  lg_prefix :: string

text \<open>The shared \<open>log.Logger\<close>: its prefix and the lines written, each with the prefix it was written with.\<close>

record slog =
  sl_prefix :: string
  sl_lines :: "(string \<times> string) list"

definition NewDefaultLogger :: "nat \<Rightarrow> Logger \<times> slog" where
  "NewDefaultLogger mu = (\<lparr>lg_mu = mu, lg_prefix = ''''\<rparr>, \<lparr>sl_prefix = '''', sl_lines = []\<rparr>)"

definition WithKv :: "nat \<Rightarrow> string \<Rightarrow> string \<Rightarrow> Logger \<Rightarrow> Logger" where
  "WithKv mu key value l = \<lparr>lg_mu = mu, lg_prefix = lg_prefix l @ key @ ''='' @ value @ '' ''\<rparr>"

definition WithKvs :: "nat \<Rightarrow> string \<Rightarrow> string list \<Rightarrow> Logger \<Rightarrow> Logger" where
  "WithKvs mu key vals l = \<lparr>lg_mu = mu, lg_prefix = lg_prefix l @ key @ ''=['' @ spaced vals @ ''] ''\<rparr>"

definition WithJson :: "nat \<Rightarrow> string \<Rightarrow> bytes \<Rightarrow> Logger \<Rightarrow> Logger" where
  "WithJson mu key b l = \<lparr>lg_mu = mu, lg_prefix = lg_prefix l @ key @ ''='' @ string_of_bytes b @ '' ''\<rparr>"

definition WithError :: "nat \<Rightarrow> goerror option \<Rightarrow> Logger \<Rightarrow> Logger" where
  "WithError mu err l = \<lparr>lg_mu = mu, lg_prefix = lg_prefix l @ ''error='' @ print_err err @ '' ''\<rparr>"

definition WithErrors :: "nat \<Rightarrow> string \<Rightarrow> goerror option list \<Rightarrow> Logger \<Rightarrow> Logger" where
  "WithErrors mu key errs l = \<lparr>lg_mu = mu, lg_prefix = lg_prefix l @ key @ ''=['' @ spaced (map print_err errs) @ ''] ''\<rparr>"

definition WithFields :: "(nat \<Rightarrow> string) \<Rightarrow> nat \<Rightarrow> (string, gval) gomap \<Rightarrow> Logger \<Rightarrow> Logger" where
  "WithFields other mu fs l = \<lparr>lg_mu = mu, lg_prefix = lg_prefix l @ ''fields='' @ print_val other (GMap fs) @ '' ''\<rparr>"

definition WithField :: "(nat \<Rightarrow> string) \<Rightarrow> nat \<Rightarrow> string \<Rightarrow> gval \<Rightarrow> Logger \<Rightarrow> Logger" where
  "WithField other mu key value l = \<lparr>lg_mu = mu, lg_prefix = lg_prefix l @ key @ ''='' @ print_val other value @ '' ''\<rparr>"

definition initLogger :: "(nat \<Rightarrow> string) \<Rightarrow> nat \<Rightarrow> nat \<Rightarrow> Logger \<times> slog" where
  "initLogger other mu mu' =
     (let (plog, sl) = NewDefaultLogger mu in (WithFields other mu' [(''source'', GString ''nrpc'')] plog, sl))"

text \<open>
  The variable \<open>logger.Log\<close> holds a logger or, after \<open>nrpc.SetLogger(nil)\<close>, nil. The setter of this package
  ignores nil, that of the root package (\<open>app.go\<close>) does not.
\<close>

definition SetLogger :: "Logger option \<Rightarrow> Logger option \<Rightarrow> Logger option" where
  "SetLogger l Log = (if l \<noteq> None then l else Log)"

definition app_SetLogger :: "Logger option \<Rightarrow> Logger option \<Rightarrow> Logger option" where
  "app_SetLogger l Log = l"

section \<open>Writing\<close>

text \<open>The text is the message after formatting (\<open>Printf\<close>) or after joining the arguments (\<open>Println\<close>).\<close>

definition line_prefix :: "Logger \<Rightarrow> string \<Rightarrow> string" where
  "line_prefix l level = lg_prefix l @ ''['' @ level @ ''] ''"

definition SetPrefix :: "string \<Rightarrow> slog \<Rightarrow> slog" where
  "SetPrefix p sl = sl\<lparr>sl_prefix := p\<rparr>"

definition slog_print :: "string \<Rightarrow> slog \<Rightarrow> slog" where
  "slog_print body sl = sl\<lparr>sl_lines := sl_lines sl @ [(sl_prefix sl, body)]\<rparr>"

definition logf :: "string \<Rightarrow> string \<Rightarrow> Logger \<Rightarrow> slog \<Rightarrow> slog" where
  "logf level body l sl = slog_print body (SetPrefix (line_prefix l level) sl)"

definition log_args :: "string \<Rightarrow> string list \<Rightarrow> Logger \<Rightarrow> slog \<Rightarrow> slog" where
  "log_args level args l sl = slog_print (spaced args) (SetPrefix (line_prefix l level) sl)"

text \<open>What the caller sees of a log call: it returns, the process exits, or the goroutine panics.\<close>

datatype log_end = Returns | Exits int | Panics string

definition Debugf :: "string \<Rightarrow> Logger \<Rightarrow> slog \<Rightarrow> log_end \<times> slog" where
  "Debugf body l sl = (Returns, logf ''DEBUG'' body l sl)"

definition Infof :: "string \<Rightarrow> Logger \<Rightarrow> slog \<Rightarrow> log_end \<times> slog" where
  "Infof body l sl = (Returns, logf ''INFO'' body l sl)"

definition Warnf :: "string \<Rightarrow> Logger \<Rightarrow> slog \<Rightarrow> log_end \<times> slog" where
  "Warnf body l sl = (Returns, logf ''WARN'' body l sl)"

definition Warningf :: "string \<Rightarrow> Logger \<Rightarrow> slog \<Rightarrow> log_end \<times> slog" where
  "Warningf body l sl = Warnf body l sl"

definition Errorf :: "string \<Rightarrow> Logger \<Rightarrow> slog \<Rightarrow> log_end \<times> slog" where
  "Errorf body l sl = (Returns, logf ''ERROR'' body l sl)"

definition Fatalf :: "string \<Rightarrow> Logger \<Rightarrow> slog \<Rightarrow> log_end \<times> slog" where
  "Fatalf body l sl = (Exits 1, logf ''FATAL'' body l sl)"

definition Panicf :: "string \<Rightarrow> Logger \<Rightarrow> slog \<Rightarrow> log_end \<times> slog" where
  "Panicf body l sl = (Panics body, logf ''PANIC'' body l sl)"

definition Debug :: "string list \<Rightarrow> Logger \<Rightarrow> slog \<Rightarrow> log_end \<times> slog" where
  "Debug args l sl = (Returns, log_args ''DEBUG'' args l sl)"

definition Info :: "string list \<Rightarrow> Logger \<Rightarrow> slog \<Rightarrow> log_end \<times> slog" where
  "Info args l sl = (Returns, log_args ''INFO'' args l sl)"

definition Warn :: "string list \<Rightarrow> Logger \<Rightarrow> slog \<Rightarrow> log_end \<times> slog" where
  "Warn args l sl = (Returns, log_args ''WARN'' args l sl)"

definition Warning :: "string list \<Rightarrow> Logger \<Rightarrow> slog \<Rightarrow> log_end \<times> slog" where
  "Warning args l sl = Warn args l sl"

definition log_Error :: "string list \<Rightarrow> Logger \<Rightarrow> slog \<Rightarrow> log_end \<times> slog" where
  "log_Error args l sl = (Returns, log_args ''ERROR'' args l sl)"

definition Fatal :: "string list \<Rightarrow> Logger \<Rightarrow> slog \<Rightarrow> log_end \<times> slog" where
  "Fatal args l sl = (Exits 1, log_args ''FATAL'' args l sl)"

text \<open>The panic value is the slice of the arguments.\<close>

definition log_Panic :: "string list \<Rightarrow> Logger \<Rightarrow> slog \<Rightarrow> log_end \<times> slog" where
  "log_Panic args l sl = (Panics (''['' @ spaced args @ '']''), log_args ''PANIC'' args l sl)"

definition Debugln :: "string list \<Rightarrow> Logger \<Rightarrow> slog \<Rightarrow> log_end \<times> slog" where
  "Debugln args l sl = (Returns, log_args ''DEBUG'' args l sl)"

definition Infoln :: "string list \<Rightarrow> Logger \<Rightarrow> slog \<Rightarrow> log_end \<times> slog" where
  "Infoln args l sl = (Returns, log_args ''INFO'' args l sl)"

definition Warnln :: "string list \<Rightarrow> Logger \<Rightarrow> slog \<Rightarrow> log_end \<times> slog" where
  "Warnln args l sl = (Returns, log_args ''WARN'' args l sl)"

definition Warningln :: "string list \<Rightarrow> Logger \<Rightarrow> slog \<Rightarrow> log_end \<times> slog" where
  "Warningln args l sl = Warn args l sl"

definition Errorln :: "string list \<Rightarrow> Logger \<Rightarrow> slog \<Rightarrow> log_end \<times> slog" where
  "Errorln args l sl = (Returns, log_args ''ERROR'' args l sl)"

definition Fatalln :: "string list \<Rightarrow> Logger \<Rightarrow> slog \<Rightarrow> log_end \<times> slog" where
  "Fatalln args l sl = (Exits 1, log_args ''FATAL'' args l sl)"

definition Panicln :: "string list \<Rightarrow> Logger \<Rightarrow> slog \<Rightarrow> log_end \<times> slog" where
  "Panicln args l sl = (Panics (''['' @ spaced args @ '']''), log_args ''PANIC'' args l sl)"

text \<open>
  \<open>GetDefaultLoggerFromCtx\<close>: the logger that \<open>CtxWithDefaultLogger\<close> put into the context, known by its fields,
  or \<open>logger.Log\<close>; \<open>mu\<close> is the address of the logger in the context.
\<close>

definition GetDefaultLoggerFromCtx :: "(nat \<Rightarrow> string) \<Rightarrow> nat \<Rightarrow> ctx option \<Rightarrow> Logger \<Rightarrow> (goerror, Logger) outcome" where
  "GetDefaultLoggerFromCtx other mu c Log =
     (case c of
        None \<Rightarrow> Panic ''nil pointer dereference''
      | Some c \<Rightarrow>
          (case ctx_Value c LoggerCtxKey of
             None \<Rightarrow> Ok Log
           | Some (CVal GNil) \<Rightarrow> Ok Log
           | Some (CVal (GMap fs)) \<Rightarrow> Ok (WithFields other mu fs Log)
           | Some _ \<Rightarrow> Panic ''interface conversion''))"

text \<open>
  \<open>getLoggerFromArgs\<close> of \<open>util/util.go\<close>: the arguments of a method as reflection values (a nil interface is not valid). The first
  context that holds a logger decides; \<open>Pcall\<close> logs a recovered panic with it.
\<close>

datatype call_arg = InvalidArg | CtxArg ctx | OtherArg

fun getLoggerFromArgs :: "(nat \<Rightarrow> string) \<Rightarrow> nat \<Rightarrow> call_arg list \<Rightarrow> Logger \<Rightarrow> (goerror, Logger) outcome" where
  "getLoggerFromArgs other mu [] Log = Ok Log"
| "getLoggerFromArgs other mu (CtxArg c # args) Log =
     (case ctx_Value c LoggerCtxKey of
        None \<Rightarrow> getLoggerFromArgs other mu args Log
      | Some (CVal GNil) \<Rightarrow> getLoggerFromArgs other mu args Log
      | Some (CVal (GMap fs)) \<Rightarrow> Ok (WithFields other mu fs Log)
      | Some _ \<Rightarrow> Panic ''interface conversion'')"
| "getLoggerFromArgs other mu (_ # args) Log = getLoggerFromArgs other mu args Log"

text \<open>For the arguments of a remote, a receiver, one context and at most one message, it is the logger of this context.\<close>

lemma getLoggerFromArgs_remote:
  "set pre \<subseteq> {InvalidArg, OtherArg} \<Longrightarrow> set post \<subseteq> {InvalidArg, OtherArg} \<Longrightarrow>
     getLoggerFromArgs other mu (pre @ CtxArg c # post) Log = GetDefaultLoggerFromCtx other mu (Some c) Log"
proof (induction pre)
  case Nil
  then have "getLoggerFromArgs other mu post Log = Ok Log" by (induction post) auto
  then show ?case by (auto simp: GetDefaultLoggerFromCtx_def split: option.splits cval.splits gval.splits)
qed auto

section \<open>Several goroutines\<close>

text \<open>
  One call of \<open>log\<close> or \<open>logf\<close>, by the step the goroutine takes next. \<open>ll_held\<close> are the mutexes that are locked;
  \<open>ll_calls\<close> remembers for every line the logger, the level and the text of the call that wrote it.
\<close>

datatype log_pc =
    LLock Logger string string
  | LPrefix Logger string string
  | LPrint Logger string string
  | LUnlock Logger
  | LDone

record loggers =
  ll_slog :: slog
  ll_held :: "nat set"
  ll_pcs :: "log_pc list"
  ll_calls :: "(Logger \<times> string \<times> string) list"

definition start_calls :: "slog \<Rightarrow> (Logger \<times> string \<times> string) list \<Rightarrow> loggers" where
  "start_calls sl cs =
     \<lparr>ll_slog = \<lparr>sl_prefix = sl_prefix sl, sl_lines = []\<rparr>, ll_held = {}, ll_pcs = map (\<lambda>(l, level, body). LLock l level body) cs, ll_calls = []\<rparr>"

inductive log_step :: "loggers \<Rightarrow> loggers \<Rightarrow> bool" where
  lock: "i < length (ll_pcs s) \<Longrightarrow> ll_pcs s ! i = LLock l level body \<Longrightarrow> lg_mu l \<notin> ll_held s \<Longrightarrow>
    log_step s (s\<lparr>ll_held := insert (lg_mu l) (ll_held s), ll_pcs := (ll_pcs s)[i := LPrefix l level body]\<rparr>)"
| set_prefix: "i < length (ll_pcs s) \<Longrightarrow> ll_pcs s ! i = LPrefix l level body \<Longrightarrow>
    log_step s (s\<lparr>ll_slog := SetPrefix (line_prefix l level) (ll_slog s), ll_pcs := (ll_pcs s)[i := LPrint l level body]\<rparr>)"
| print: "i < length (ll_pcs s) \<Longrightarrow> ll_pcs s ! i = LPrint l level body \<Longrightarrow>
    log_step s (s\<lparr>ll_slog := slog_print body (ll_slog s), ll_calls := ll_calls s @ [(l, level, body)],
                  ll_pcs := (ll_pcs s)[i := LUnlock l]\<rparr>)"
| unlock: "i < length (ll_pcs s) \<Longrightarrow> ll_pcs s ! i = LUnlock l \<Longrightarrow>
    log_step s (s\<lparr>ll_held := ll_held s - {lg_mu l}, ll_pcs := (ll_pcs s)[i := LDone]\<rparr>)"

inductive_cases log_stepE: "log_step s s'"

section \<open>Invariant of one logger\<close>

definition pc_mu :: "log_pc \<Rightarrow> nat option" where
  "pc_mu pc = (case pc of LLock l _ _ \<Rightarrow> Some (lg_mu l) | LPrefix l _ _ \<Rightarrow> Some (lg_mu l) | LPrint l _ _ \<Rightarrow> Some (lg_mu l)
     | LUnlock l \<Rightarrow> Some (lg_mu l) | LDone \<Rightarrow> None)"

definition pc_inside :: "log_pc \<Rightarrow> bool" where
  "pc_inside pc = (case pc of LPrefix _ _ _ \<Rightarrow> True | LPrint _ _ _ \<Rightarrow> True | LUnlock _ \<Rightarrow> True | _ \<Rightarrow> False)"

definition pc_pending :: "log_pc \<Rightarrow> (Logger \<times> string \<times> string) multiset" where
  "pc_pending pc = (case pc of LLock l v t \<Rightarrow> {#(l, v, t)#} | LPrefix l v t \<Rightarrow> {#(l, v, t)#} | LPrint l v t \<Rightarrow> {#(l, v, t)#} | _ \<Rightarrow> {#})"

text \<open>
  All calls use the mutex \<open>m\<close>: at most one goroutine is inside, and the one about to print finds
  the prefix it has set.
\<close>

definition log_inv :: "nat \<Rightarrow> loggers \<Rightarrow> bool" where
  "log_inv m s \<longleftrightarrow>
     (\<forall>i < length (ll_pcs s). pc_mu (ll_pcs s ! i) \<in> {None, Some m}) \<and>
     (\<forall>i < length (ll_pcs s). pc_inside (ll_pcs s ! i) \<longrightarrow> m \<in> ll_held s) \<and>
     (\<forall>i < length (ll_pcs s). \<forall>j < length (ll_pcs s). pc_inside (ll_pcs s ! i) \<longrightarrow> pc_inside (ll_pcs s ! j) \<longrightarrow> j = i) \<and>
     (\<forall>i < length (ll_pcs s). \<forall>l level body. ll_pcs s ! i = LPrint l level body \<longrightarrow> sl_prefix (ll_slog s) = line_prefix l level) \<and>
     sl_lines (ll_slog s) = map (\<lambda>(l, level, body). (line_prefix l level, body)) (ll_calls s)"

lemma log_inv_start: "\<forall>c \<in> set cs. lg_mu (fst c) = m \<Longrightarrow> log_inv m (start_calls sl cs)"
  by (auto simp: log_inv_def start_calls_def pc_mu_def pc_inside_def split: prod.splits) (metis fst_conv nth_mem)

lemma pc_simps [simp]:
  "pc_mu (LLock l v t) = Some (lg_mu l)" "pc_mu (LPrefix l v t) = Some (lg_mu l)" "pc_mu (LPrint l v t) = Some (lg_mu l)"
  "pc_mu (LUnlock l) = Some (lg_mu l)" "pc_mu LDone = None"
  "\<not> pc_inside (LLock l v t)" "pc_inside (LPrefix l v t)" "pc_inside (LPrint l v t)" "pc_inside (LUnlock l)" "\<not> pc_inside LDone"
  by (simp_all add: pc_mu_def pc_inside_def)

lemma log_invD:
  assumes "log_inv m s" "i < length (ll_pcs s)"
  shows "pc_mu (ll_pcs s ! i) = Some k \<Longrightarrow> k = m"
    and "pc_inside (ll_pcs s ! i) \<Longrightarrow> m \<in> ll_held s"
    and "pc_inside (ll_pcs s ! i) \<Longrightarrow> j < length (ll_pcs s) \<Longrightarrow> pc_inside (ll_pcs s ! j) \<Longrightarrow> j = i"
    and "ll_pcs s ! i = LPrint l level body \<Longrightarrow> sl_prefix (ll_slog s) = line_prefix l level"
  using assms unfolding log_inv_def by (fastforce, blast, blast, blast)

lemma log_inv_rest:
  assumes "log_inv m s"
  shows "\<forall>i < length (ll_pcs s). pc_mu (ll_pcs s ! i) \<in> {None, Some m}"
    and "sl_lines (ll_slog s) = map (\<lambda>(l, level, body). (line_prefix l level, body)) (ll_calls s)"
  using assms unfolding log_inv_def by blast+

lemma log_inv_step: "log_step s s' \<Longrightarrow> log_inv m s \<Longrightarrow> log_inv m s'"
proof (erule log_stepE, goal_cases)
  case (1 i l level body)
  then have "lg_mu l = m" using log_invD(1) [OF 1(1,3)] by simp
  moreover have "\<not> pc_inside (ll_pcs s ! j)" if "j < length (ll_pcs s)" for j
    using log_invD(2) [OF 1(1) that] 1 calculation by auto
  ultimately show ?case using 1 by (simp add: log_inv_def nth_list_update)
next
  case (2 i l level body)
  then have "\<not> pc_inside (ll_pcs s ! j)" if "j < length (ll_pcs s)" "j \<noteq> i" for j
    using log_invD(3) [OF 2(1,3), of j] that by auto
  moreover from this have "ll_pcs s ! j \<noteq> LPrint l' v t" if "j < length (ll_pcs s)" "j \<noteq> i" for j l' v t
    using that by (metis pc_simps(8))
  ultimately show ?case using 2 log_invD(1) [OF 2(1,3)] log_invD(2) [OF 2(1,3)]
    by (simp add: log_inv_def nth_list_update SetPrefix_def)
next
  case (3 i l level body)
  then have "\<not> pc_inside (ll_pcs s ! j)" if "j < length (ll_pcs s)" "j \<noteq> i" for j
    using log_invD(3) [OF 3(1,3), of j] that by auto
  moreover from this have "ll_pcs s ! j \<noteq> LPrint l' v t" if "j < length (ll_pcs s)" "j \<noteq> i" for j l' v t
    using that by (metis pc_simps(8))
  ultimately show ?case using 3(2-4) log_inv_rest [OF 3(1)] log_invD(1) [OF 3(1,3)] log_invD(2) [OF 3(1,3)] log_invD(4) [OF 3(1,3,4)]
    by (simp add: log_inv_def nth_list_update slog_print_def)
next
  case (4 i l)
  then have "\<not> pc_inside (ll_pcs s ! j)" if "j < length (ll_pcs s)" "j \<noteq> i" for j
    using log_invD(3) [OF 4(1,3), of j] that by auto
  moreover from this have "ll_pcs s ! j \<noteq> LPrint l' v t" if "j < length (ll_pcs s)" "j \<noteq> i" for j l' v t
    using that by (metis pc_simps(8))
  ultimately show ?case using 4(2-4) log_inv_rest [OF 4(1)] by (simp add: log_inv_def nth_list_update)
qed

interpretation logrun: step_invariant log_step "log_inv m" for m
  by unfold_locales (rule log_inv_step)

text \<open>No call is lost or written twice.\<close>

definition log_total :: "loggers \<Rightarrow> (Logger \<times> string \<times> string) multiset" where
  "log_total s = mset (ll_calls s) + sum_list (map pc_pending (ll_pcs s))"

lemma log_total_step: "log_step s s' \<Longrightarrow> log_total s' = log_total s"
proof (erule log_stepE, goal_cases)
  case (1 i l level body)
  then show ?case using sum_list_map_update [of i "ll_pcs s" pc_pending "LPrefix l level body"]
    by (simp add: log_total_def pc_pending_def)
next
  case (2 i l level body)
  then show ?case using sum_list_map_update [of i "ll_pcs s" pc_pending "LPrint l level body"]
    by (simp add: log_total_def pc_pending_def)
next
  case (3 i l level body)
  then show ?case using sum_list_map_update [of i "ll_pcs s" pc_pending "LUnlock l"]
    by (simp add: log_total_def pc_pending_def)
next
  case (4 i l)
  then show ?case using sum_list_map_update [of i "ll_pcs s" pc_pending LDone]
    by (simp add: log_total_def pc_pending_def)
qed

interpretation logtotal: step_invariant log_step "\<lambda>s. log_total s = calls" for calls
  by unfold_locales (simp add: log_total_step)

section \<open>Properties\<close>

text \<open>A derived logger keeps the prefix of the logger it is derived from.\<close>

lemma derived_prefix:
  "prefix (lg_prefix l) (lg_prefix (WithKv mu key value l))" "prefix (lg_prefix l) (lg_prefix (WithKvs mu key vals l))"
  "prefix (lg_prefix l) (lg_prefix (WithJson mu key b l))" "prefix (lg_prefix l) (lg_prefix (WithError mu err l))"
  "prefix (lg_prefix l) (lg_prefix (WithErrors mu key errs l))" "prefix (lg_prefix l) (lg_prefix (WithFields other mu fs l))"
  "prefix (lg_prefix l) (lg_prefix (WithField other mu key v l))"
  by (simp_all add: WithKv_def WithKvs_def WithJson_def WithError_def WithErrors_def WithFields_def WithField_def)

text \<open>
  C40: goroutines that log through one logger object do not disturb each other. For every interleaving of
  any number of calls that use the same mutex, every line is written with the prefix of the
  logger and the level of the call that wrote it, in the order of the calls' prints; and when
  all calls are done, every message has been written exactly once.
\<close>

theorem one_logger_lines:
  assumes "\<forall>c \<in> set cs. lg_mu (fst c) = m" "log_step\<^sup>*\<^sup>* (start_calls sl cs) s"
  shows "sl_lines (ll_slog s) = map (\<lambda>(l, level, body). (line_prefix l level, body)) (ll_calls s) \<and>
    (set (ll_pcs s) \<subseteq> {LDone} \<longrightarrow> mset (ll_calls s) = mset cs)"
proof
  show "sl_lines (ll_slog s) = map (\<lambda>(l, level, body). (line_prefix l level, body)) (ll_calls s)"
    using logrun.steps [OF assms(2) log_inv_start [OF assms(1)]] by (rule log_inv_rest)
next
  have "sum_list (map pc_pending (map (\<lambda>(l, level, body). LLock l level body) ds)) = mset ds" for ds
    by (induction ds) (auto simp: pc_pending_def)
  then have "log_total (start_calls sl cs) = mset cs"
    by (simp add: log_total_def start_calls_def)
  then have t: "log_total s = mset cs" using logtotal.steps [OF assms(2)] by simp
  have "sum_list (map pc_pending pcs) = {#}" if "set pcs \<subseteq> {LDone}" for pcs
    using that by (induction pcs) (auto simp: pc_pending_def)
  then show "set (ll_pcs s) \<subseteq> {LDone} \<longrightarrow> mset (ll_calls s) = mset cs"
    using t by (auto simp: log_total_def)
qed

text \<open>The run of two calls that lock, set the prefix and print in turn.\<close>

lemma interleaved_run:
  assumes "lg_mu l1 \<noteq> lg_mu l2"
  shows "\<exists>s. log_step\<^sup>*\<^sup>* (start_calls sl [(l1, v1, t1), (l2, v2, t2)]) s \<and> ll_calls s = [(l1, v1, t1), (l2, v2, t2)] \<and>
    sl_lines (ll_slog s) = [(line_prefix l2 v2, t1), (line_prefix l2 v2, t2)]"
proof -
  let ?s0 = "start_calls sl [(l1, v1, t1), (l2, v2, t2)]"
  let ?s1 = "?s0\<lparr>ll_held := {lg_mu l1}, ll_pcs := [LPrefix l1 v1 t1, LLock l2 v2 t2]\<rparr>"
  let ?s2 = "?s0\<lparr>ll_held := {lg_mu l2, lg_mu l1}, ll_pcs := [LPrefix l1 v1 t1, LPrefix l2 v2 t2]\<rparr>"
  let ?s3 = "?s2\<lparr>ll_slog := \<lparr>sl_prefix = line_prefix l1 v1, sl_lines = []\<rparr>, ll_pcs := [LPrint l1 v1 t1, LPrefix l2 v2 t2]\<rparr>"
  let ?s4 = "?s2\<lparr>ll_slog := \<lparr>sl_prefix = line_prefix l2 v2, sl_lines = []\<rparr>, ll_pcs := [LPrint l1 v1 t1, LPrint l2 v2 t2]\<rparr>"
  let ?s5 = "?s2\<lparr>ll_slog := \<lparr>sl_prefix = line_prefix l2 v2, sl_lines = [(line_prefix l2 v2, t1)]\<rparr>,
    ll_calls := [(l1, v1, t1)], ll_pcs := [LUnlock l1, LPrint l2 v2 t2]\<rparr>"
  let ?s6 = "?s2\<lparr>ll_slog := \<lparr>sl_prefix = line_prefix l2 v2, sl_lines = [(line_prefix l2 v2, t1), (line_prefix l2 v2, t2)]\<rparr>,
    ll_calls := [(l1, v1, t1), (l2, v2, t2)], ll_pcs := [LUnlock l1, LUnlock l2]\<rparr>"
  have "log_step ?s0 ?s1" using log_step.lock [of 0 ?s0 l1 v1 t1] by (simp add: start_calls_def)
  moreover have "log_step ?s1 ?s2" using log_step.lock [of 1 ?s1 l2 v2 t2] assms by (simp add: start_calls_def)
  moreover have "log_step ?s2 ?s3" using log_step.set_prefix [of 0 ?s2 l1 v1 t1] by (simp add: start_calls_def SetPrefix_def)
  moreover have "log_step ?s3 ?s4" using log_step.set_prefix [of 1 ?s3 l2 v2 t2] by (simp add: start_calls_def SetPrefix_def)
  moreover have "log_step ?s4 ?s5" using log_step.print [of 0 ?s4 l1 v1 t1] by (simp add: start_calls_def slog_print_def)
  moreover have "log_step ?s5 ?s6" using log_step.print [of 1 ?s5 l2 v2 t2] by (simp add: start_calls_def slog_print_def)
  ultimately have "log_step\<^sup>*\<^sup>* ?s0 ?s6" by (meson converse_rtranclp_into_rtranclp r_into_rtranclp)
  then show ?thesis by (intro exI [of _ ?s6]) simp
qed

text \<open>
  A logger and one derived from it do disturb each other. The derived logger, such as the one every
  request gets in its context, has a mutex of its own but sets the prefix of the same \<open>log.Logger\<close>:
  two calls can interleave so that the line of the first is written with the fields and the level of
  the second.
\<close>

lemma derived_loggers_mix:
  assumes "l2 = WithFields other mu fs l1" "mu \<noteq> lg_mu l1"
  shows "\<exists>s. log_step\<^sup>*\<^sup>* (start_calls sl [(l1, v1, t1), (l2, v2, t2)]) s \<and> (l1, v1, t1) \<in> set (ll_calls s) \<and>
    (line_prefix l2 v2, t1) \<in> set (sl_lines (ll_slog s)) \<and> line_prefix l2 v2 \<noteq> line_prefix l1 v1"
proof -
  have "lg_mu l1 \<noteq> lg_mu l2" "line_prefix l2 v2 \<noteq> line_prefix l1 v1"
    using assms by (simp_all add: WithFields_def line_prefix_def)
  then show ?thesis using interleaved_run [of l1 l2 sl v1 t1 v2 t2] by fastforce
qed

theorem one_logger_lines_witness:
  "\<exists>l s. log_step (start_calls \<lparr>sl_prefix = '''', sl_lines = []\<rparr> [(l, ''INFO'', ''up''), (l, ''WARN'', ''down'')]) s \<and>
     sl_lines (ll_slog s) = map (\<lambda>(l, level, body). (line_prefix l level, body)) (ll_calls s)"
proof -
  let ?l = "\<lparr>lg_mu = 0, lg_prefix = ''''\<rparr>" and ?sl = "\<lparr>sl_prefix = '''', sl_lines = []\<rparr>"
  let ?cs = "[(?l, ''INFO'', ''up''), (?l, ''WARN'', ''down'')]"
  have "log_step (start_calls ?sl ?cs) (start_calls ?sl ?cs\<lparr>ll_held := insert (lg_mu ?l) {}, ll_pcs :=
      (ll_pcs (start_calls ?sl ?cs))[0 := LPrefix ?l ''INFO'' ''up'']\<rparr>)" (is "log_step _ ?s")
    using log_step.lock [of 0 "start_calls ?sl ?cs" ?l "''INFO''" "''up''"] by (simp add: start_calls_def)
  moreover from this have "sl_lines (ll_slog ?s) = map (\<lambda>(l, level, body). (line_prefix l level, body)) (ll_calls ?s)"
    using one_logger_lines [of ?cs 0 ?sl ?s] by auto
  ultimately show ?thesis by blast
qed

end
