(* ===== verification/Facade.thy ===== *)
theory Facade
  imports Builder ViperConfig Logger
begin

text \<open>
  \<open>static.go\<close>: the package functions that work on the one application \<open>DefaultApp\<close>, a variable that is nil until
  \<open>Configure\<close> has been called; the constructors of \<open>builder.go\<close> that start from a configuration; and the
  package functions of \<open>app.go\<close> that forward to other packages. Where the app reads the world (the clock, the modules' outcomes,
  the state of the service discovery, the RPC client) the function takes the same argument as the method it calls.
\<close>

section \<open>Constructors\<close>

definition NewBuilderWithConfigs :: "build_env \<Rightarrow> string \<Rightarrow> metadata option \<Rightarrow> 's viperlib \<Rightarrow> (cfgval \<Rightarrow> config \<Rightarrow> goerror + config) \<Rightarrow>
    (string \<Rightarrow> string) \<Rightarrow> 's \<Rightarrow> (goerror, 'v Builder) outcome" where
  "NewBuilderWithConfigs env serverType serverMetadata lib decode toLower conf =
     bind_outcome (NewConfig lib decode toLower conf) (\<lambda>appConfig. NewBuilder env serverType serverMetadata appConfig)"

definition NewDefaultBuilder :: "build_env \<Rightarrow> string \<Rightarrow> metadata option \<Rightarrow> config \<Rightarrow> (goerror, 'v Builder) outcome" where
  "NewDefaultBuilder env serverType serverMetadata appConfig = NewBuilder env serverType serverMetadata appConfig"

definition NewDefaultApp :: "build_env \<Rightarrow> int \<Rightarrow> gmodule \<Rightarrow> gmodule \<Rightarrow> gmodule \<Rightarrow> string \<Rightarrow> metadata option \<Rightarrow> config \<Rightarrow>
    (goerror, 'v App) outcome" where
  "NewDefaultApp env now cl srv sdm serverType serverMetadata cfg =
     bind_outcome (NewDefaultBuilder env serverType serverMetadata cfg) (\<lambda>builder.
     bind_outcome (Build now cl srv sdm builder) (\<lambda>(app, _). Ok app))"

section \<open>The default application\<close>

text \<open>A call on \<open>DefaultApp\<close>: of a method that reads, and of one that changes the app.\<close>

definition on_default :: "('v App \<Rightarrow> (goerror, 'a) outcome) \<Rightarrow> 'v App option \<Rightarrow> (goerror, 'a) outcome" where
  "on_default f DefaultApp = (case DefaultApp of None \<Rightarrow> Panic nil_context | Some app \<Rightarrow> f app)"

definition change_default :: "('v App \<Rightarrow> (goerror, 'a) outcome \<times> 'v App) \<Rightarrow> 'v App option \<Rightarrow> (goerror, 'a) outcome \<times> 'v App option" where
  "change_default f DefaultApp =
     (case DefaultApp of
        None \<Rightarrow> (Panic nil_context, None)
      | Some app \<Rightarrow> (case f app of (r, app) \<Rightarrow> (r, Some app)))"

definition Configure :: "build_env \<Rightarrow> int \<Rightarrow> gmodule \<Rightarrow> gmodule \<Rightarrow> gmodule \<Rightarrow> 's viperlib \<Rightarrow> (cfgval \<Rightarrow> config \<Rightarrow> goerror + config) \<Rightarrow>
    (string \<Rightarrow> string) \<Rightarrow> string \<Rightarrow> metadata option \<Rightarrow> 's list \<Rightarrow> 'v App option \<Rightarrow> (goerror, unit) outcome \<times> 'v App option" where
  "Configure env now cl srv sdm lib decode toLower serverType serverMetadata cfgs DefaultApp =
     (case bind_outcome (NewBuilderWithConfigs env serverType serverMetadata lib decode toLower (NewViperConfig lib cfgs)) (Build now cl srv sdm) of
        Ok (app, _) \<Rightarrow> (Ok (), Some app)
      | Err e \<Rightarrow> (Err e, DefaultApp)
      | Panic p \<Rightarrow> (Panic p, DefaultApp))"

definition static_GetDieChan :: "'v App option \<Rightarrow> (goerror, dieChan) outcome" where
  "static_GetDieChan = on_default (\<lambda>app. Ok (GetDieChan app))"

definition static_SetDebug :: "bool \<Rightarrow> 'v App option \<Rightarrow> (goerror, unit) outcome \<times> 'v App option" where
  "static_SetDebug debug = change_default (\<lambda>app. (Ok (), SetDebug debug app))"

definition static_SetHeartbeatTime :: "int \<Rightarrow> 'v App option \<Rightarrow> (goerror, unit) outcome \<times> 'v App option" where
  "static_SetHeartbeatTime interval = change_default (\<lambda>app. (Ok (), SetHeartbeatTime interval app))"

definition static_GetServerID :: "'v App option \<Rightarrow> (goerror, string) outcome" where
  "static_GetServerID = on_default (\<lambda>app. Ok (GetServerID app))"

definition static_GetMetricsReporters :: "'v App option \<Rightarrow> (goerror, Reporter list) outcome" where
  "static_GetMetricsReporters = on_default (\<lambda>app. Ok (GetMetricsReporters app))"

definition static_GetServer :: "'v App option \<Rightarrow> (goerror, server) outcome" where
  "static_GetServer = on_default (\<lambda>app. Ok (app_GetServer app))"

definition static_GetServerByID :: "sdstate \<Rightarrow> string \<Rightarrow> 'v App option \<Rightarrow> (goerror, server) outcome" where
  "static_GetServerByID sd ident = on_default (app_GetServerByID sd ident)"

definition static_GetServersByType :: "sdstate \<Rightarrow> string \<Rightarrow> 'v App option \<Rightarrow> (goerror, (string, server) gomap) outcome" where
  "static_GetServersByType sd t = on_default (app_GetServersByType sd t)"

definition static_GetServers :: "sdstate \<Rightarrow> 'v App option \<Rightarrow> (goerror, server list) outcome" where
  "static_GetServers sd = on_default (app_GetServers sd)"

definition static_Start :: "(string \<Rightarrow> bool) \<Rightarrow> stop_cause \<Rightarrow> dieChan \<Rightarrow> 'v App option \<Rightarrow>
    (goerror, unit) outcome \<times> 'v App option \<times> app_event list" where
  "static_Start u cause d DefaultApp =
     (case DefaultApp of
        None \<Rightarrow> (Panic nil_context, None, [])
      | Some app \<Rightarrow> (case Start u cause d app of (r, app, tr) \<Rightarrow> (r, Some app, tr)))"

definition static_SetDictionary :: "(string, 16 word) gomap option \<Rightarrow> dictionary \<Rightarrow> 'v App option \<Rightarrow>
    (goerror, (goerror + message_err) option \<times> dictionary) outcome" where
  "static_SetDictionary dict d = on_default (\<lambda>app. Ok (app_SetDictionary dict app d))"

definition static_AddRoute :: "string \<Rightarrow> RoutingFunc \<Rightarrow> 'v App option \<Rightarrow> (goerror, unit) outcome \<times> 'v App option" where
  "static_AddRoute serverType routingFunction = change_default (app_AddRoute serverType routingFunction)"

definition static_Shutdown :: "'v App option \<Rightarrow> (goerror, unit) outcome \<times> 'v App option" where
  "static_Shutdown = change_default (\<lambda>app. case app_Shutdown app of
     Ok app \<Rightarrow> (Ok (), app) | Err e \<Rightarrow> (Err e, app) | Panic p \<Rightarrow> (Panic p, app))"

definition static_IsRunning :: "'v App option \<Rightarrow> (goerror, bool) outcome" where
  "static_IsRunning = on_default (\<lambda>app. Ok (IsRunning app))"

definition static_RPC where
  "static_RPC intn call sd c routeStr reply arg = on_default (\<lambda>app. app_RPC intn call sd app c routeStr reply arg)"

definition static_RPCTo where
  "static_RPCTo intn call sd c serverID routeStr reply arg = on_default (\<lambda>app. app_RPCTo intn call sd app c serverID routeStr reply arg)"

definition static_Notify where
  "static_Notify intn call sd c routeStr arg = on_default (\<lambda>app. app_Notify intn call sd app c routeStr arg)"

definition static_NotifyTo where
  "static_NotifyTo intn call sd c serverID routeStr arg = on_default (\<lambda>app. app_NotifyTo intn call sd app c serverID routeStr arg)"

definition static_Register :: "gcomponent \<Rightarrow> (options \<Rightarrow> options) list \<Rightarrow> 'v App option \<Rightarrow> (goerror, unit) outcome \<times> 'v App option" where
  "static_Register c opts = change_default (\<lambda>app. (Ok (), app_Register c opts app))"

definition static_RegisterModule :: "gmodule option \<Rightarrow> string \<Rightarrow> 'v App option \<Rightarrow> (goerror, unit) outcome \<times> 'v App option" where
  "static_RegisterModule md name = change_default (RegisterModule md name)"

definition static_RegisterModuleAfter :: "gmodule option \<Rightarrow> string \<Rightarrow> 'v App option \<Rightarrow> (goerror, unit) outcome \<times> 'v App option" where
  "static_RegisterModuleAfter md name = change_default (RegisterModuleAfter md name)"

definition static_RegisterModuleBefore :: "gmodule option \<Rightarrow> string \<Rightarrow> 'v App option \<Rightarrow> (goerror, unit) outcome \<times> 'v App option" where
  "static_RegisterModuleBefore md name = change_default (RegisterModuleBefore md name)"

definition static_GetModule :: "string \<Rightarrow> 'v App option \<Rightarrow> (goerror, gmodule option) outcome" where
  "static_GetModule name = on_default (GetModule name)"

section \<open>Package functions\<close>

definition app_Error :: "goerror \<Rightarrow> string \<Rightarrow> metadata option list \<Rightarrow> nerror" where
  "app_Error err code md = NewError err code md"

definition app_AddToPropagateCtx :: "ctx option \<Rightarrow> string \<Rightarrow> gval \<Rightarrow> heap \<Rightarrow> (goerror, ctx \<times> heap) outcome" where
  "app_AddToPropagateCtx c key val h = AddToPropagateCtx c key val h"

definition app_GetFromPropagateCtx :: "ctx option \<Rightarrow> string \<Rightarrow> heap \<Rightarrow> (goerror, gval) outcome" where
  "app_GetFromPropagateCtx c key h = GetFromPropagateCtx c key h"

definition app_ExtractSpan where
  "app_ExtractSpan tr c h = ExtractSpan tr c h"

definition NewShareKeyContext :: "ctx option \<Rightarrow> string \<Rightarrow> heap \<Rightarrow> (goerror, ctx \<times> heap) outcome" where
  "NewShareKeyContext c shareID h =
     (let c = (if c = None then Some Background else c) in AddToPropagateCtx c ShareIDKey (GString shareID) h)"

section \<open>Properties\<close>

lemma NewShareKeyContext_vals:
  assumes "c0 = None \<or> ctx_ok c0"
  shows "\<exists>c h'. NewShareKeyContext c0 share h = Ok (c, h') \<and> ctx_ok (Some c) \<and>
    ctx_vals (Some c) h' = (ctx_vals c0 h)(ShareIDKey \<mapsto> GString share)"
proof -
  have "ctx_vals (Some Background) h = Map.empty" "ctx_ok (Some Background)" "ctx_vals None h = Map.empty"
    by (simp_all add: ctx_vals_def ctx_ok_def)
  then show ?thesis
    using assms AddToPropagateCtx_vals [of "if c0 = None then Some Background else c0" ShareIDKey "GString share" h]
    unfolding NewShareKeyContext_def Let_def by (auto split: if_splits)
qed


definition shared_sent :: "(string, gval) gomap" where
  "shared_sent = (ShareIDKey, GString ''room'') # sample_sent"

definition shared_codec :: mapjson where
  "shared_codec = \<lparr>mj_marshal = \<lambda>_. Inr [1], mj_unmarshal = \<lambda>_. Inr (Some shared_sent)\<rparr>"


lemma built_parts:
  assumes "NewBuilder env ty md cfg = Ok b" "Build now cl srv sdm b = Ok (app, b')"
  shows "app_inv app \<and> ap_modulesArr app = [] \<and> ap_remoteComp app = [] \<and> ap_rpcClient app = Some cl \<and> ap_rpcServer app = Some srv \<and>
    ap_serviceDiscovery app = Some sdm \<and> \<not> dc_closed (ap_dieChan app)"
proof -
  obtain now' d r sv rs reps cfg' where "app = NewApp now' d r sv (Some cl) (Some srv) (Some sdm) rs reps cfg'" "\<not> dc_closed d"
    using assms(2) NewBuilder_parts [OF assms(1)] by (auto simp: Build_def Let_def)
  then show ?thesis by (simp add: app_inv_new, simp add: NewApp_def)
qed

lemma session_run:
  assumes "app_inv app" "ap_modulesArr app = []" "ap_remoteComp app = []" "ap_rpcClient app = Some cl" "ap_rpcServer app = Some srv"
    "ap_serviceDiscovery app = Some sdm" "\<not> dc_closed (ap_dieChan app)" "name \<notin> own_names"
    and "\<forall>x \<in> {cl, srv, sdm, m}. gm_Init x = None \<and> gm_Shutdown x = None"
  shows "\<exists>app1 app2. RegisterModule (Some m) name app = (Ok (), app1) \<and>
    Start u Signal (ap_dieChan app1) app1 = (Ok (), app2, periodicMetrics app @
      map ModInit [''rpcClient'', ''rpcServer'', name, ''serviceDiscovery''] @
      map ModAfterInit [''rpcClient'', ''rpcServer'', name, ''serviceDiscovery''] @
      map ModBeforeShutdown [''serviceDiscovery'', name, ''rpcServer'', ''rpcClient''] @
      map ModShutdown [''serviceDiscovery'', name, ''rpcServer'', ''rpcClient'']) \<and>
    \<not> ap_running app2 \<and> dc_closed (ap_dieChan app2)"
proof -
  define app1 where "app1 = app\<lparr>ap_modulesMap := gm_put name (Some m) (ap_modulesMap app), ap_modulesArr := [\<lparr>mw_module = Some m, mw_name = name\<rparr>]\<rparr>"
  have reg: "RegisterModule (Some m) name app = (Ok (), app1)"
    using assms(2) by (simp add: RegisterModule_def RegisterModule_spec(1) [OF assms(1)] app_names_def app1_def)
  have inv: "app_inv app1" using RegisterModule_inv(1) [OF assms(1), of "Some m" name] reg by (simp add: RegisterModule_def)
  have names: "own_names \<inter> set (app_names app1) = {}" using assms(8) by (auto simp: app1_def app_names_def)
  have order: "start_order app1 = [\<lparr>mw_module = Some cl, mw_name = ''rpcClient''\<rparr>, \<lparr>mw_module = Some srv, mw_name = ''rpcServer''\<rparr>,
      \<lparr>mw_module = Some m, mw_name = name\<rparr>, \<lparr>mw_module = Some sdm, mw_name = ''serviceDiscovery''\<rparr>]"
    using assms(4-6) by (simp add: start_order_def app1_def)
  have ok: "\<forall>w \<in> set (start_order app1). starts_ok w" using assms(9) by (simp add: order starts_ok_def)
  have st: "concat (map stop_module (rev (start_order app1))) = map ModShutdown [''serviceDiscovery'', name, ''rpcServer'', ''rpcClient'']"
    using assms(9) by (simp add: order stop_module_def)
  have c: "Signal = DieChan \<or> \<not> dc_closed (ap_dieChan app1)" "register_components u (ap_remoteComp app1) (ap_remoteService app1) = (ap_remoteService app1, [])"
    using assms(3,7) by (simp_all add: app1_def)
  have a: "ap_remoteComp app1 = []" "ap_config app1 = ap_config app" using assms(3) by (simp_all add: app1_def)
  obtain app2 where "Start u Signal (ap_dieChan app1) app1 = (Ok (), app2, periodicMetrics app @
      map ModInit (map mw_name (start_order app1)) @ map ModAfterInit (map mw_name (start_order app1)) @
      map ModBeforeShutdown (rev (map mw_name (start_order app1))) @ map ModShutdown [''serviceDiscovery'', name, ''rpcServer'', ''rpcClient''])"
    "\<not> ap_running app2" "dc_closed (ap_dieChan app2)"
    using Start_ok [OF inv names ok c] unfolding st a by auto
  then show ?thesis unfolding order using reg by (intro exI [of _ app1] exI [of _ app2]) simp
qed

text \<open>
  A session through the package functions. After a successful \<open>Configure\<close> the default application is the built one, and
  registering a user module under a name of its own and starting, until a signal comes, initialises the RPC client, the RPC server, the user's module and the
  service discovery in this order, and stops them in the reverse one; afterwards the app is not running and its die channel is
  closed. Without \<open>Configure\<close> the same calls panic on the nil variable.
\<close>

lemma facade_session:
  fixes app :: "'v App"
  assumes "Configure env now cl srv sdm lib decode toLower ty md cfgs (None :: 'v App option) = (Ok (), Some app)" "name \<notin> own_names"
    and "\<forall>x \<in> {cl, srv, sdm, m}. gm_Init x = None \<and> gm_Shutdown x = None"
  shows "(\<exists>app1 app2. static_RegisterModule (Some m) name (Some app) = (Ok (), Some app1) \<and>
      static_Start u Signal (ap_dieChan app1) (Some app1) = (Ok (), Some app2, periodicMetrics app @
        map ModInit [''rpcClient'', ''rpcServer'', name, ''serviceDiscovery''] @
        map ModAfterInit [''rpcClient'', ''rpcServer'', name, ''serviceDiscovery''] @
        map ModBeforeShutdown [''serviceDiscovery'', name, ''rpcServer'', ''rpcClient''] @
        map ModShutdown [''serviceDiscovery'', name, ''rpcServer'', ''rpcClient'']) \<and>
      static_IsRunning (Some app2) = Ok False \<and> dc_closed (ap_dieChan app2)) \<and>
    is_panic (fst (static_RegisterModule (Some m) name (None :: 'v App option))) \<and>
    is_panic (fst (static_Start u Signal d (None :: 'v App option)))"
proof -
  obtain cfg b b' where "NewBuilder env ty md cfg = Ok (b :: 'v Builder)" "Build now cl srv sdm b = Ok (app, b')"
    using assms(1) by (auto simp: Configure_def NewBuilderWithConfigs_def bind_outcome_Ok split: outcome.splits)
  then show ?thesis
    using session_run [OF _ _ _ _ _ _ _ assms(2,3), of app u] built_parts [of env ty md cfg b now cl srv sdm app b']
    by (auto simp: static_RegisterModule_def change_default_def static_Start_def static_IsRunning_def on_default_def IsRunning_def)
qed

text \<open>Configured with the defaults: a decoder that leaves the default configuration as it is.\<close>

lemma NewConfig_defaults: "NewConfig lib (\<lambda>_ c. Inr c) toLower s = Ok NewDefaultConfig"
  by (simp add: NewConfig_def UnmarshalKey_def Let_def split: option.splits)

lemma default_builder: "\<exists>b :: nat Builder. NewBuilder sample_build ''game'' None NewDefaultConfig = Ok b"
  by (simp add: NewBuilder_def Let_def NewDefaultConfig_def newDefaultMetricsConfig_def newDefaultPrometheusConfig_def
      newDefaultStatsdConfig_def newDefaultClusterConfig_def newDefaultClusterRPCConfig_def newDefaultNatsRPCServerConfig_def
      newDefaultNatsRPCClientConfig_def NewNatsRPCServer_def configure_server_def NewNatsRPCClient_def configure_client_def
      NewSerializer_def JSON_def PROTOBUF_def Second_def Millisecond_def)

end
