(* ===== verification/PoolRun.thy ===== *)
theory PoolRun
  imports WorkerPool
begin

text \<open>
  The worker pool at work: \<open>Submit\<close> of the pool as the goroutines of the RPC server call it. \<open>getQueue\<close>
  (two accesses to the shared map), then the three parts of the queue's \<open>Submit\<close> (note the time, count
  up, send) are steps of the calling goroutine; the workers of all queues and the
  cleanup take their steps in between. The state refers to the queues by their index in the order of creation.
\<close>

section \<open>Submitting\<close>

text \<open>The parts of a queue's \<open>Submit\<close>.\<close>

definition wq_touch :: "nat \<Rightarrow> WorkerQueue \<Rightarrow> WorkerQueue" where
  "wq_touch t q = q\<lparr>wq_lastActive := wq_now q, wq_adding := add_mset t (wq_adding q)\<rparr>"

definition wq_Add :: "nat \<Rightarrow> WorkerQueue \<Rightarrow> WorkerQueue" where
  "wq_Add t q = q\<lparr>wq_adding := wq_adding q - {#t#}, wq_sending := add_mset t (wq_sending q), wq_wg := wq_wg q + 1\<rparr>"

definition wq_send :: "nat \<Rightarrow> WorkerQueue \<Rightarrow> WorkerQueue" where
  "wq_send t q = q\<lparr>wq_sending := wq_sending q - {#t#}, wq_buf := wq_buf q @ [t], wq_sent := wq_sent q @ [t]\<rparr>"

text \<open>Where a goroutine is: outside, in \<open>getQueue\<close>, or in the \<open>Submit\<close> of queue number \<open>q\<close>.\<close>

datatype submit_pc =
    PIdle
  | PLoad string nat
  | PMissed string nat
  | PTouch string nat nat
  | PAdd string nat nat
  | PSend string nat nat

text \<open>
  \<open>pl_calls\<close> and \<open>pl_sent\<close> record, for the statements, every call of \<open>Submit\<close> (goroutine, share id, task) and every
  completed one (goroutine, share id, queue, task), in the order they happen.
\<close>

record pool_state =
  pl_pool :: WorkerPool
  pl_qs :: "WorkerQueue list"
  pl_pcs :: "submit_pc list"
  pl_now :: int
  pl_calls :: "(nat \<times> string \<times> nat) list"
  pl_sent :: "(nat \<times> string \<times> nat \<times> nat) list"
  pl_panicked :: bool

definition new_pool :: "nat \<Rightarrow> WorkerPool \<Rightarrow> int \<Rightarrow> pool_state" where
  "new_pool n m now =
     \<lparr>pl_pool = wp_Start m, pl_qs = [], pl_pcs = replicate n PIdle, pl_now = now, pl_calls = [], pl_sent = [],
      pl_panicked = False\<rparr>"

inductive pool_step :: "pool_state \<Rightarrow> pool_state \<Rightarrow> bool" where
  call: "i < length (pl_pcs s) \<Longrightarrow> pl_pcs s ! i = PIdle \<Longrightarrow>
    pool_step s (s\<lparr>pl_pcs := (pl_pcs s)[i := PLoad uid t], pl_calls := pl_calls s @ [(i, uid, t)]\<rparr>)"
| hit: "i < length (pl_pcs s) \<Longrightarrow> pl_pcs s ! i = PLoad uid t \<Longrightarrow>
    gm_get (wp_queues (pl_pool s)) (queue_key (pl_pool s) uid) = Some q \<Longrightarrow>
    pool_step s (s\<lparr>pl_pcs := (pl_pcs s)[i := PTouch uid q t]\<rparr>)"
| miss: "i < length (pl_pcs s) \<Longrightarrow> pl_pcs s ! i = PLoad uid t \<Longrightarrow>
    gm_get (wp_queues (pl_pool s)) (queue_key (pl_pool s) uid) = None \<Longrightarrow>
    pool_step s (s\<lparr>pl_pcs := (pl_pcs s)[i := PMissed uid t]\<rparr>)"
| create: "i < length (pl_pcs s) \<Longrightarrow> pl_pcs s ! i = PMissed uid t \<Longrightarrow>
    store_queue (queue_key (pl_pool s) uid) (pl_pool s) = Ok (q, m) \<Longrightarrow>
    pool_step s (s\<lparr>pl_pool := m, pl_qs := pl_qs s @ [NewWorkerQueue (nat (wp_queueSize m)) (pl_now s)],
                   pl_pcs := (pl_pcs s)[i := PTouch uid q t]\<rparr>)"
| touch: "i < length (pl_pcs s) \<Longrightarrow> pl_pcs s ! i = PTouch uid q t \<Longrightarrow> q < length (pl_qs s) \<Longrightarrow>
    wq_cleaner (pl_qs s ! q) \<noteq> CStopping \<Longrightarrow>
    pool_step s (s\<lparr>pl_qs := (pl_qs s)[q := wq_touch t (pl_qs s ! q)], pl_pcs := (pl_pcs s)[i := PAdd uid q t]\<rparr>)"
| add: "i < length (pl_pcs s) \<Longrightarrow> pl_pcs s ! i = PAdd uid q t \<Longrightarrow> q < length (pl_qs s) \<Longrightarrow>
    pool_step s (s\<lparr>pl_qs := (pl_qs s)[q := wq_Add t (pl_qs s ! q)], pl_pcs := (pl_pcs s)[i := PSend uid q t]\<rparr>)"
| send: "i < length (pl_pcs s) \<Longrightarrow> pl_pcs s ! i = PSend uid q t \<Longrightarrow> q < length (pl_qs s) \<Longrightarrow>
    \<not> wq_closed (pl_qs s ! q) \<Longrightarrow>
    length (wq_buf (pl_qs s ! q)) < wq_cap (pl_qs s ! q) \<or> (wq_buf (pl_qs s ! q) = [] \<and> wq_worker (pl_qs s ! q) = WIdle) \<Longrightarrow>
    pool_step s (s\<lparr>pl_qs := (pl_qs s)[q := wq_send t (pl_qs s ! q)], pl_pcs := (pl_pcs s)[i := PIdle],
                   pl_sent := pl_sent s @ [(i, uid, q, t)]\<rparr>)"
| send_closed: "i < length (pl_pcs s) \<Longrightarrow> pl_pcs s ! i = PSend uid q t \<Longrightarrow> q < length (pl_qs s) \<Longrightarrow> wq_closed (pl_qs s ! q) \<Longrightarrow>
    pool_step s (s\<lparr>pl_panicked := True\<rparr>)"
| work: "q < length (pl_qs s) \<Longrightarrow> wq_step (wp_clearTimePass (pl_pool s)) (pl_qs s ! q) Q \<Longrightarrow>
    wq_adding Q = wq_adding (pl_qs s ! q) \<Longrightarrow> wq_sending Q = wq_sending (pl_qs s ! q) \<Longrightarrow>
    wq_cleaner Q = wq_cleaner (pl_qs s ! q) \<Longrightarrow> wq_now Q = wq_now (pl_qs s ! q) \<Longrightarrow>
    pool_step s (s\<lparr>pl_qs := (pl_qs s)[q := Q]\<rparr>)"
| clean: "wp_cleanup (pl_pool s) \<Longrightarrow> gm_get (wp_queues (pl_pool s)) key = Some q \<Longrightarrow> q < length (pl_qs s) \<Longrightarrow>
    wq_step (wp_clearTimePass (pl_pool s)) (pl_qs s ! q) Q \<Longrightarrow> wq_cleaner Q \<noteq> wq_cleaner (pl_qs s ! q) \<Longrightarrow>
    pool_step s (s\<lparr>pl_qs := (pl_qs s)[q := Q]\<rparr>)"
| forget: "wp_cleanup (pl_pool s) \<Longrightarrow> gm_get (wp_queues (pl_pool s)) key = Some q \<Longrightarrow> q < length (pl_qs s) \<Longrightarrow>
    wq_cleaner (pl_qs s ! q) = CFinished \<Longrightarrow>
    pool_step s (s\<lparr>pl_pool := (pl_pool s)\<lparr>wp_queues := gm_del key (wp_queues (pl_pool s))\<rparr>\<rparr>)"
| tick: "0 \<le> d \<Longrightarrow>
    pool_step s (s\<lparr>pl_now := pl_now s + d, pl_qs := map (\<lambda>q. q\<lparr>wq_now := wq_now q + d\<rparr>) (pl_qs s)\<rparr>)"

inductive_cases pool_stepE: "pool_step s s'"

section \<open>What the steps keep\<close>

text \<open>What goroutine \<open>i\<close> has been asked to submit, what it has sent and what it is submitting, under the keys in \<open>K\<close>.\<close>

definition called_by :: "nat \<Rightarrow> (string \<Rightarrow> bool) \<Rightarrow> pool_state \<Rightarrow> nat list" where
  "called_by i K s = map (\<lambda>(j, u, t). t) (filter (\<lambda>(j, u, t). j = i \<and> K u) (pl_calls s))"

definition sent_by :: "nat \<Rightarrow> (string \<Rightarrow> bool) \<Rightarrow> pool_state \<Rightarrow> nat list" where
  "sent_by i K s = map (\<lambda>(j, u, q, t). t) (filter (\<lambda>(j, u, q, t). j = i \<and> K u) (pl_sent s))"

definition sent_to :: "nat \<Rightarrow> pool_state \<Rightarrow> nat list" where
  "sent_to q s = map (\<lambda>(j, u, p, t). t) (filter (\<lambda>(j, u, p, t). p = q) (pl_sent s))"

fun submitting :: "(string \<Rightarrow> bool) \<Rightarrow> submit_pc \<Rightarrow> nat list" where
  "submitting K PIdle = []"
| "submitting K (PLoad u t) = (if K u then [t] else [])"
| "submitting K (PMissed u t) = (if K u then [t] else [])"
| "submitting K (PTouch u q t) = (if K u then [t] else [])"
| "submitting K (PAdd u q t) = (if K u then [t] else [])"
| "submitting K (PSend u q t) = (if K u then [t] else [])"

fun pc_queue :: "submit_pc \<Rightarrow> nat option" where
  "pc_queue (PTouch u q t) = Some q"
| "pc_queue (PAdd u q t) = Some q"
| "pc_queue (PSend u q t) = Some q"
| "pc_queue _ = None"

fun sending_at :: "nat \<Rightarrow> submit_pc \<Rightarrow> nat multiset" where
  "sending_at q (PSend u p t) = (if p = q then {#t#} else {#})"
| "sending_at q _ = {#}"

text \<open>
  Queue numbers are those of created queues; every queue keeps its invariant, has been sent what the record
  says, and counts as senders the goroutines that are about to send to it.
\<close>

definition refs_inv :: "pool_state \<Rightarrow> bool" where
  "refs_inv s \<longleftrightarrow>
     length (pl_qs s) = wp_next (pl_pool s) \<and>
     (\<forall>k q. gm_get (wp_queues (pl_pool s)) k = Some q \<longrightarrow> q < length (pl_qs s)) \<and>
     (\<forall>i < length (pl_pcs s). \<forall>q. pc_queue (pl_pcs s ! i) = Some q \<longrightarrow> q < length (pl_qs s)) \<and>
     (\<forall>(j, u, q, t) \<in> set (pl_sent s). q < length (pl_qs s))"

definition queue_ok :: "pool_state \<Rightarrow> nat \<Rightarrow> bool" where
  "queue_ok s q \<longleftrightarrow> wq_inv (pl_qs s ! q) \<and> wq_sent (pl_qs s ! q) = sent_to q s \<and>
     wq_sending (pl_qs s ! q) = sum_list (map (sending_at q) (pl_pcs s))"

definition pool_inv :: "pool_state \<Rightarrow> bool" where
  "pool_inv s \<longleftrightarrow> refs_inv s \<and> (\<forall>q < length (pl_qs s). queue_ok s q)"

lemma store_queue_Ok:
  "store_queue key m = Ok (q, m') \<Longrightarrow> q = wp_next m \<and> wp_next m' = Suc (wp_next m) \<and>
     wp_queues m' = gm_put key q (wp_queues m) \<and> wp_cleanup m' = wp_cleanup m \<and> wp_queueNum m' = wp_queueNum m"
  by (auto simp: store_queue_def split: if_splits)

lemma refs_inv_step: "pool_step s s' \<Longrightarrow> refs_inv s \<Longrightarrow> refs_inv s'"
  by (erule pool_stepE)
    (fastforce simp: refs_inv_def nth_list_update less_Suc_eq dest!: store_queue_Ok split: if_splits)+

lemma sending_update:
  "i < length pcs \<Longrightarrow> sending_at q (pcs ! i) = {#} \<Longrightarrow>
     sum_list (map (sending_at q) (pcs[i := pc])) = sum_list (map (sending_at q) pcs) + sending_at q pc"
  using sum_list_map_update [of i pcs "sending_at q" pc] by simp

lemma sending_remove:
  "i < length pcs \<Longrightarrow> pcs ! i = PSend u p t \<Longrightarrow>
     sum_list (map (sending_at q) pcs) = sum_list (map (sending_at q) (pcs[i := PIdle])) + (if p = q then {#t#} else {#})"
  using sum_list_map_update [of i pcs "sending_at q" PIdle] by simp

lemma wq_step_sent: "wq_step pass q q' \<Longrightarrow> wq_sending q' = wq_sending q \<Longrightarrow> wq_sent q' = wq_sent q"
  by (erule wq_stepE) auto

lemma wq_step_cleaner: "wq_step pass q q' \<Longrightarrow> wq_cleaner q' \<noteq> wq_cleaner q \<Longrightarrow> wq_sending q' = wq_sending q"
  by (erule wq_stepE) auto

lemma wq_inv_touch: "wq_inv q \<Longrightarrow> wq_inv (wq_touch t q)"
  by (auto simp: wq_touch_def wq_defs split: if_splits)

lemma wq_inv_Add: "wq_inv q \<Longrightarrow> wq_inv (wq_Add t q)"
  by (auto simp: wq_Add_def wq_defs split: if_splits)

lemma wq_inv_send:
  assumes "wq_inv q" "t \<in># wq_sending q" "\<not> wq_closed q"
    and "length (wq_buf q) < wq_cap q \<or> (wq_buf q = [] \<and> wq_worker q = WIdle)"
  shows "wq_inv (wq_send t q)"
proof -
  have "wq_step 0 q (wq_send t q)"
    unfolding wq_send_def using assms by (intro wq_step.submit_send) simp_all
  then show ?thesis using assms(1) by (rule wq_inv_step)
qed

lemma wq_inv_now: "wq_inv (q\<lparr>wq_now := n\<rparr>) = wq_inv q"
  by (simp add: wq_defs)

lemma sending_none: "refs_inv s \<Longrightarrow> sum_list (map (sending_at (length (pl_qs s))) (pl_pcs s)) = {#}"
proof -
  assume r: "refs_inv s"
  have "sending_at (length (pl_qs s)) pc = {#}" if "pc \<in> set (pl_pcs s)" for pc
    using r that by (cases pc) (fastforce simp: refs_inv_def in_set_conv_nth)+
  then have "map (sending_at (length (pl_qs s))) (pl_pcs s) = map (\<lambda>_. {#}) (pl_pcs s)" by simp
  moreover have "sum_list (map (\<lambda>_. {#}) xs) = {#}" for xs :: "submit_pc list" by (induction xs) simp_all
  ultimately show ?thesis by metis
qed

lemma queue_ok_queue:
  assumes "pool_inv s" "p < length (pl_qs s)" "q < length (pl_qs s)" "wq_inv Q"
    and "wq_sent Q = wq_sent (pl_qs s ! p)" "wq_sending Q = wq_sending (pl_qs s ! p)"
  shows "queue_ok (s\<lparr>pl_qs := (pl_qs s)[p := Q]\<rparr>) q"
  using assms by (auto simp: pool_inv_def queue_ok_def nth_list_update sent_to_def)

lemma queue_ok_step: "pool_step s s' \<Longrightarrow> pool_inv s \<Longrightarrow> q < length (pl_qs s') \<Longrightarrow> queue_ok s' q"
proof (erule pool_stepE, goal_cases)
  case (4 i uid t p m)
  then have n: "refs_inv s" "p = length (pl_qs s)" "sent_to (length (pl_qs s)) s = []"
    by (auto simp: pool_inv_def refs_inv_def sent_to_def filter_empty_conv dest!: store_queue_Ok)
  show ?case
  proof (cases "q = length (pl_qs s)")
    case True
    then show ?thesis using 4 n sending_none [OF n(1)]
      by (simp add: queue_ok_def wq_inv_new nth_append sending_update sent_to_def) (simp add: NewWorkerQueue_def)
  next
    case False
    then show ?thesis using 4 by (auto simp: pool_inv_def queue_ok_def nth_append sending_update sent_to_def)
  qed
next
  case (5 i uid p t)
  then show ?case by (auto simp: pool_inv_def queue_ok_def nth_list_update sending_update sent_to_def wq_inv_touch)
      (simp_all add: wq_touch_def)
next
  case (6 i uid p t)
  then show ?case by (auto simp: pool_inv_def queue_ok_def nth_list_update sending_update sent_to_def wq_inv_Add)
      (simp_all add: wq_Add_def)
next
  case (7 i uid p t)
  then have r: "sum_list (map (sending_at q) (pl_pcs s)) =
      sum_list (map (sending_at q) ((pl_pcs s)[i := PIdle])) + (if p = q then {#t#} else {#})" for q
    by (intro sending_remove)
  then have "t \<in># wq_sending (pl_qs s ! p)" using 7 by (simp add: pool_inv_def queue_ok_def)
  then have "wq_inv (wq_send t (pl_qs s ! p))" using 7 by (intro wq_inv_send) (auto simp: pool_inv_def queue_ok_def)
  then show ?case using 7 r [of q]
    by (auto simp: pool_inv_def queue_ok_def nth_list_update sent_to_def) (simp_all add: wq_send_def)
next
  case (9 p Q)
  then have "wq_inv (pl_qs s ! p)" by (simp add: pool_inv_def queue_ok_def)
  with 9 show ?case by (simp add: queue_ok_queue wq_inv_step wq_step_sent)
next
  case (10 key p Q)
  then have "wq_inv (pl_qs s ! p)" by (simp add: pool_inv_def queue_ok_def)
  with 10 show ?case by (simp add: queue_ok_queue wq_inv_step wq_step_sent wq_step_cleaner)
qed (auto simp: pool_inv_def queue_ok_def sending_update sent_to_def wq_inv_now)

lemma pool_inv_step: "pool_step s s' \<Longrightarrow> pool_inv s \<Longrightarrow> pool_inv s'"
  using refs_inv_step queue_ok_step by (auto simp: pool_inv_def)

interpretation poolrun: step_invariant pool_step pool_inv
  by unfold_locales (rule pool_inv_step)

lemmas pool_inv_steps = poolrun.steps

lemma pool_inv_new: "wp_queues m = gm_empty \<Longrightarrow> wp_next m = 0 \<Longrightarrow> pool_inv (new_pool n m now)"
  by (auto simp: pool_inv_def refs_inv_def new_pool_def wp_Start_def)

section \<open>Order of one goroutine\<close>

lemma submit_order_step:
  "pool_step s s' \<Longrightarrow> i < length (pl_pcs s) \<Longrightarrow> called_by i K s = sent_by i K s @ submitting K (pl_pcs s ! i) \<Longrightarrow>
     called_by i K s' = sent_by i K s' @ submitting K (pl_pcs s' ! i)"
  by (erule pool_stepE) (auto simp: called_by_def sent_by_def nth_list_update)

lemma pcs_length_step: "pool_step s s' \<Longrightarrow> length (pl_pcs s') = length (pl_pcs s)"
  by (erule pool_stepE) simp_all

interpretation poolpcs: step_invariant pool_step "\<lambda>s. length (pl_pcs s) = n" for n
  by unfold_locales (simp add: pcs_length_step)

lemma pcs_length_steps: "pool_step\<^sup>*\<^sup>* s s' \<Longrightarrow> length (pl_pcs s') = length (pl_pcs s)"
  using poolpcs.steps by blast

lemma submit_order:
  assumes "pool_step\<^sup>*\<^sup>* s s'" "i < length (pl_pcs s)" "called_by i K s = sent_by i K s @ submitting K (pl_pcs s ! i)"
  shows "called_by i K s' = sent_by i K s' @ submitting K (pl_pcs s' ! i)"
  using assms
proof (induction rule: rtranclp_induct)
  case (step y z)
  then show ?case using submit_order_step [of y z i K] pcs_length_steps [of s y] by simp
qed

section \<open>No task is lost\<close>

text \<open>What the pool still has to do, and what it has done.\<close>

definition pool_open :: "pool_state \<Rightarrow> nat multiset" where
  "pool_open s = sum_list (map (\<lambda>pc. mset (submitting (\<lambda>_. True) pc)) (pl_pcs s)) +
     sum_list (map (\<lambda>q. mset (wq_current q @ wq_buf q)) (pl_qs s))"

definition pool_done :: "pool_state \<Rightarrow> nat multiset" where
  "pool_done s = sum_list (map (\<lambda>q. mset (wq_done q)) (pl_qs s))"

definition pool_calls :: "pool_state \<Rightarrow> nat multiset" where
  "pool_calls s = mset (map (\<lambda>(i, u, t). t) (pl_calls s))"

definition pool_kept :: "pool_state \<Rightarrow> bool" where
  "pool_kept s \<longleftrightarrow>
     pool_calls s = sum_list (map (\<lambda>pc. mset (submitting (\<lambda>_. True) pc)) (pl_pcs s)) + sum_list (map (\<lambda>q. mset (wq_sent q)) (pl_qs s))"

lemma submitting_update:
  assumes "i < length pcs" "submitting (\<lambda>_. True) pc = submitting (\<lambda>_. True) (pcs ! i)"
  shows "sum_list (map (\<lambda>pc. mset (submitting (\<lambda>_. True) pc)) (pcs[i := pc])) =
    sum_list (map (\<lambda>pc. mset (submitting (\<lambda>_. True) pc)) pcs)"
  using sum_list_map_update [OF assms(1), of "\<lambda>pc. mset (submitting (\<lambda>_. True) pc)" pc] assms(2) by simp

lemma queue_sent_update:
  assumes "q < length qs" "wq_sent Q = wq_sent (qs ! q)"
  shows "sum_list (map (\<lambda>q. mset (wq_sent q)) (qs[q := Q])) = sum_list (map (\<lambda>q. mset (wq_sent q)) qs)"
  using sum_list_map_update [OF assms(1), of "\<lambda>q. mset (wq_sent q)" Q] assms(2) by simp

lemma pool_kept_step: "pool_step s s' \<Longrightarrow> pool_kept s \<Longrightarrow> pool_kept s'"
proof (erule pool_stepE, goal_cases)
  case (1 i uid t)
  then show ?case using sum_list_map_update [OF 1(3), of "\<lambda>pc. mset (submitting (\<lambda>_. True) pc)" "PLoad uid t"]
    by (simp add: pool_kept_def pool_calls_def)
next
  case (4 i uid t p m)
  then show ?case by (simp add: pool_kept_def pool_calls_def submitting_update) (simp add: NewWorkerQueue_def)
next
  case (5 i uid p t)
  then show ?case by (simp add: pool_kept_def pool_calls_def submitting_update queue_sent_update wq_touch_def)
next
  case (6 i uid p t)
  then show ?case by (simp add: pool_kept_def pool_calls_def submitting_update queue_sent_update wq_Add_def)
next
  case (7 i uid p t)
  then show ?case
    using sum_list_map_update [OF 7(3), of "\<lambda>pc. mset (submitting (\<lambda>_. True) pc)" PIdle]
      sum_list_map_update [OF 7(5), of "\<lambda>q. mset (wq_sent q)" "wq_send t (pl_qs s ! p)"]
    by (simp add: pool_kept_def pool_calls_def) (simp add: wq_send_def)
next
  case (9 p Q)
  then show ?case by (simp add: pool_kept_def pool_calls_def queue_sent_update wq_step_sent)
next
  case (10 key p Q)
  then show ?case by (simp add: pool_kept_def pool_calls_def queue_sent_update wq_step_sent wq_step_cleaner)
next
  case (12 d)
  then show ?case by (simp add: pool_kept_def pool_calls_def comp_def)
qed (auto simp: pool_kept_def pool_calls_def submitting_update)

lemma pool_conserves:
  assumes "pool_inv s" "pool_kept s"
  shows "pool_calls s = pool_open s + pool_done s"
proof -
  have "wq_sent q = wq_done q @ wq_current q @ wq_buf q" if "q \<in> set (pl_qs s)" for q
    using assms(1) that by (auto simp: pool_inv_def queue_ok_def wq_inv_def in_set_conv_nth)
  then have "sum_list (map (\<lambda>q. mset (wq_sent q)) qs) =
      sum_list (map (\<lambda>q. mset (wq_current q @ wq_buf q)) qs) + sum_list (map (\<lambda>q. mset (wq_done q)) qs)"
    if "set qs \<subseteq> set (pl_qs s)" for qs
    using that by (induction qs) auto
  then show ?thesis using assms(2) by (simp add: pool_kept_def pool_open_def pool_done_def)
qed

section \<open>A key with a queue\<close>

definition key_of :: "pool_state \<Rightarrow> string \<Rightarrow> string" where
  "key_of s = queue_key (pl_pool s)"

text \<open>
  Key \<open>k\<close> has queue \<open>q\<close>, the cleanup is not running, no goroutine has missed the key before, and those that
  submit under it submit to \<open>q\<close>.
\<close>

fun pc_settled :: "(string \<Rightarrow> bool) \<Rightarrow> nat \<Rightarrow> submit_pc \<Rightarrow> bool" where
  "pc_settled K q (PMissed u t) \<longleftrightarrow> \<not> K u"
| "pc_settled K q (PTouch u p t) \<longleftrightarrow> (K u \<longrightarrow> p = q)"
| "pc_settled K q (PAdd u p t) \<longleftrightarrow> (K u \<longrightarrow> p = q)"
| "pc_settled K q (PSend u p t) \<longleftrightarrow> (K u \<longrightarrow> p = q)"
| "pc_settled K q _ \<longleftrightarrow> True"

definition settled :: "string \<Rightarrow> nat \<Rightarrow> pool_state \<Rightarrow> bool" where
  "settled k q s \<longleftrightarrow>
     \<not> wp_cleanup (pl_pool s) \<and> gm_get (wp_queues (pl_pool s)) k = Some q \<and>
     (\<forall>i < length (pl_pcs s). pc_settled (\<lambda>u. key_of s u = k) q (pl_pcs s ! i))"

lemma key_of_step: "pool_step s s' \<Longrightarrow> key_of s' = key_of s"
  by (erule pool_stepE) (auto simp: key_of_def queue_key_def fun_eq_iff dest!: store_queue_Ok)

lemma settled_step: "pool_step s s' \<Longrightarrow> settled k q s \<Longrightarrow> settled k q s'"
proof -
  assume st: "pool_step s s'" and s: "settled k q s"
  note key = key_of_step [OF st]
  have "\<not> wp_cleanup (pl_pool s') \<and> gm_get (wp_queues (pl_pool s')) k = Some q"
    using st
  proof (rule pool_stepE, goal_cases)
    case (4 i uid t p m)
    then have "key_of s uid \<noteq> k" using s by (force simp: settled_def)
    then show ?case using 4 s by (auto simp: settled_def key_of_def dest!: store_queue_Ok)
  qed (use s in \<open>auto simp: settled_def\<close>)
  moreover have "pc_settled (\<lambda>u. key_of s u = k) q (pl_pcs s' ! i)" if "i < length (pl_pcs s)" for i
    using st
  proof (rule pool_stepE, goal_cases)
    case (4 j uid t p m)
    then have "key_of s uid \<noteq> k" using s by (force simp: settled_def)
    then show ?case using 4 s that by (auto simp: settled_def nth_list_update)
  qed (use s that in \<open>auto simp: settled_def nth_list_update key_of_def\<close>)
  ultimately show ?thesis using key pcs_length_step [OF st] by (simp add: settled_def)
qed

lemma settled_sent:
  "pool_step s s' \<Longrightarrow> settled k q s \<Longrightarrow>
     \<exists>new. pl_sent s' = pl_sent s @ new \<and> (\<forall>(j, u, p, t) \<in> set new. key_of s u = k \<longrightarrow> p = q)"
  by (erule pool_stepE) (fastforce simp: settled_def)+

lemma settled_steps:
  "pool_step\<^sup>*\<^sup>* s s' \<Longrightarrow> settled k q s \<Longrightarrow> settled k q s' \<and> key_of s' = key_of s \<and>
     (\<exists>new. pl_sent s' = pl_sent s @ new \<and> (\<forall>(j, u, p, t) \<in> set new. key_of s u = k \<longrightarrow> p = q))"
proof (induction rule: rtranclp_induct)
  case (step y z)
  then obtain new where n: "pl_sent y = pl_sent s @ new" "\<forall>(j, u, p, t) \<in> set new. key_of s u = k \<longrightarrow> p = q"
    and y: "settled k q y" "key_of y = key_of s" by blast
  from settled_sent [OF step(2) y(1)] obtain more where
    "pl_sent z = pl_sent y @ more" "\<forall>(j, u, p, t) \<in> set more. key_of s u = k \<longrightarrow> p = q"
    unfolding y(2) by blast
  then have "pl_sent z = pl_sent s @ (new @ more)" "\<forall>(j, u, p, t) \<in> set (new @ more). key_of s u = k \<longrightarrow> p = q"
    using n by auto
  then show ?case using settled_step [OF step(2) y(1)] key_of_step [OF step(2)] y(2) by metis
qed simp

lemma cleanup_steps: "pool_step\<^sup>*\<^sup>* s s' \<Longrightarrow> wp_cleanup (pl_pool s') = wp_cleanup (pl_pool s)"
proof (induction rule: rtranclp_induct)
  case (step y z)
  moreover from step(2) have "wp_cleanup (pl_pool z) = wp_cleanup (pl_pool y)"
    by (rule pool_stepE) (auto dest!: store_queue_Ok)
  ultimately show ?case by simp
qed simp

lemma new_pool_order:
  assumes "pool_step\<^sup>*\<^sup>* (new_pool n m now) s" "i < n"
  shows "called_by i K s = sent_by i K s @ submitting K (pl_pcs s ! i)"
  using submit_order [OF assms(1), of i K] assms(2) by (simp add: new_pool_def called_by_def sent_by_def)

lemma settled_idle:
  assumes "pool_step\<^sup>*\<^sup>* (new_pool n (NewWorkerPool num qsz ci cp) now) s" "set (pl_pcs s) \<subseteq> {PIdle}" "ci \<le> 0 \<or> cp \<le> 0"
    and "gm_get (wp_queues (pl_pool s)) k = Some q"
  shows "settled k q s"
proof -
  have "\<not> wp_cleanup (pl_pool s)"
    using cleanup_steps [OF assms(1)] assms(3) by (auto simp: new_pool_def wp_Start_def NewWorkerPool_def)
  moreover have "pl_pcs s ! i = PIdle" if "i < length (pl_pcs s)" for i using assms(2) that nth_mem by blast
  ultimately show ?thesis using assms(4) by (simp add: settled_def)
qed

text \<open>The record of a queue, split at an earlier state.\<close>

lemma queue_record:
  assumes "pool_inv s" "pool_inv s'" "q < length (pl_qs s)" "q < length (pl_qs s')" "pl_sent s' = pl_sent s @ new"
  shows "wq_done (pl_qs s' ! q) @ wq_current (pl_qs s' ! q) @ wq_buf (pl_qs s' ! q) =
    wq_sent (pl_qs s ! q) @ map (\<lambda>(j, u, p, t). t) (filter (\<lambda>(j, u, p, t). p = q) new)"
proof -
  have "wq_sent (pl_qs s' ! q) = sent_to q s'" "wq_sent (pl_qs s ! q) = sent_to q s"
    "wq_sent (pl_qs s' ! q) = wq_done (pl_qs s' ! q) @ wq_current (pl_qs s' ! q) @ wq_buf (pl_qs s' ! q)"
    using assms by (auto simp: pool_inv_def queue_ok_def wq_inv_def)
  then show ?thesis using assms(5) by (simp add: sent_to_def)
qed

lemma filter_subseq:
  assumes "\<And>x. x \<in> set xs \<Longrightarrow> P x \<Longrightarrow> Q x"
  shows "subseq (map f (filter P xs)) (map f (filter Q xs))"
proof -
  have "filter P xs = filter P (filter Q xs)" using assms by (auto intro: filter_cong)
  then show ?thesis by (metis subseq_map subseq_filter_left)
qed

section \<open>Progress\<close>

text \<open>Without the cleanup a pool that has something to do can always go on: a weight that every such step lowers.\<close>

fun pc_weight :: "submit_pc \<Rightarrow> nat" where
  "pc_weight PIdle = 0"
| "pc_weight (PLoad u t) = 16"
| "pc_weight (PMissed u t) = 15"
| "pc_weight (PTouch u q t) = 14"
| "pc_weight (PAdd u q t) = 13"
| "pc_weight (PSend u q t) = 12"

fun worker_weight :: "worker_state \<Rightarrow> nat" where
  "worker_weight (WRunning t) = 4"
| "worker_weight (WLocking t) = 3"
| "worker_weight _ = 0"

definition queue_weight :: "WorkerQueue \<Rightarrow> nat" where
  "queue_weight q = 5 * length (wq_buf q) + worker_weight (wq_worker q)"

definition pool_weight :: "pool_state \<Rightarrow> nat" where
  "pool_weight s = sum_list (map pc_weight (pl_pcs s)) + sum_list (map queue_weight (pl_qs s))"

definition no_cleanup :: "pool_state \<Rightarrow> bool" where
  "no_cleanup s \<longleftrightarrow> \<not> wp_cleanup (pl_pool s) \<and> 0 \<le> wp_queueSize (pl_pool s) \<and> (\<forall>q < length (pl_qs s). wq_cleaner (pl_qs s ! q) = CElsewhere)"

lemma no_cleanup_step: "pool_step s s' \<Longrightarrow> no_cleanup s \<Longrightarrow> no_cleanup s'"
  by (erule pool_stepE)
    (auto simp: no_cleanup_def nth_list_update nth_append NewWorkerQueue_def wq_touch_def wq_Add_def wq_send_def less_Suc_eq
      store_queue_def split: if_splits)

lemma queue_open:
  assumes "pool_inv s" "no_cleanup s" "q < length (pl_qs s)"
  shows "\<not> wq_closed (pl_qs s ! q)" "wq_worker (pl_qs s ! q) \<noteq> WExited"
  using assms by (auto simp: pool_inv_def queue_ok_def wq_inv_def no_cleanup_def)

lemma queue_progress:
  assumes "queue_weight Q > 0" "wq_cleaner Q = CElsewhere" "wq_worker Q \<noteq> WExited"
  shows "\<exists>Q'. wq_step pass Q Q' \<and> wq_adding Q' = wq_adding Q \<and> wq_sending Q' = wq_sending Q \<and>
    wq_cleaner Q' = wq_cleaner Q \<and> wq_now Q' = wq_now Q \<and> queue_weight Q' < queue_weight Q"
proof (cases "wq_worker Q")
  case WIdle
  then obtain t b where "wq_buf Q = t # b" using assms(1) by (cases "wq_buf Q") (auto simp: queue_weight_def)
  then show ?thesis using wq_step.worker_take [OF WIdle, of t b pass] WIdle
    by (intro exI [of _ "Q\<lparr>wq_worker := WRunning t, wq_buf := b\<rparr>"]) (simp add: queue_weight_def)
next
  case (WRunning t)
  then show ?thesis using wq_step.worker_ran [OF WRunning, of pass]
    by (intro exI [of _ "Q\<lparr>wq_worker := WLocking t, wq_done := wq_done Q @ [t]\<rparr>"]) (simp add: queue_weight_def)
next
  case (WLocking t)
  then show ?thesis using wq_step.worker_done [OF WLocking, of pass] assms(2)
    by (intro exI [of _ "Q\<lparr>wq_worker := WIdle, wq_lastActive := wq_now Q, wq_wg := wq_wg Q - 1\<rparr>"]) (simp add: queue_weight_def)
qed (use assms(3) in simp)

text \<open>Replacing a queue or a goroutine's position by one of less weight.\<close>

lemma weight_update: "i < length xs \<Longrightarrow> (w y :: nat) < w (xs ! i) \<Longrightarrow> sum_list (map w (xs[i := y])) < sum_list (map w xs)"
  using sum_list_map_update [of i xs w y] by simp

lemma pool_weight_pc:
  "i < length (pl_pcs s) \<Longrightarrow> pc_weight pc < pc_weight (pl_pcs s ! i) \<Longrightarrow> pool_weight (s\<lparr>pl_pcs := (pl_pcs s)[i := pc]\<rparr>) < pool_weight s"
  using weight_update [of i "pl_pcs s" pc_weight pc] by (simp add: pool_weight_def)

lemma pool_weight_queue_pc:
  assumes "i < length (pl_pcs s)" "q < length (pl_qs s)" "pc_weight pc + queue_weight Q < pc_weight (pl_pcs s ! i) + queue_weight (pl_qs s ! q)"
  shows "sum_list (map pc_weight ((pl_pcs s)[i := pc])) + sum_list (map queue_weight ((pl_qs s)[q := Q])) < pool_weight s"
  using assms(3) sum_list_map_update [OF assms(1), of pc_weight pc] sum_list_map_update [OF assms(2), of queue_weight Q]
  unfolding pool_weight_def by linarith

lemma progressI:
  "pool_step s s' \<Longrightarrow> pl_calls s' = pl_calls s \<Longrightarrow> pool_weight s' < pool_weight s \<Longrightarrow>
     \<exists>s'. pool_step s s' \<and> pl_calls s' = pl_calls s \<and> pool_weight s' < pool_weight s"
  by blast

lemma pc_progress:
  assumes "pool_inv s" "no_cleanup s" "\<And>q. q < length (pl_qs s) \<Longrightarrow> queue_weight (pl_qs s ! q) = 0"
    and i: "i < length (pl_pcs s)" and w: "pc_weight (pl_pcs s ! i) > 0"
  shows "\<exists>s'. pool_step s s' \<and> pl_calls s' = pl_calls s \<and> pool_weight s' < pool_weight s"
proof (cases "pl_pcs s ! i")
  case (PLoad uid t)
  then show ?thesis
  proof (cases "gm_get (wp_queues (pl_pool s)) (queue_key (pl_pool s) uid)")
    case None
    then show ?thesis using pool_step.miss [OF i PLoad None] pool_weight_pc [OF i, of "PMissed uid t"] PLoad by fastforce
  next
    case (Some q)
    then show ?thesis using pool_step.hit [OF i PLoad Some] pool_weight_pc [OF i, of "PTouch uid q t"] PLoad by fastforce
  qed
next
  case (PMissed uid t)
  then obtain q m where m: "store_queue (queue_key (pl_pool s) uid) (pl_pool s) = Ok (q, m)"
    using assms(2) by (auto simp: store_queue_def no_cleanup_def)
  have "pool_weight (s\<lparr>pl_pool := m, pl_qs := pl_qs s @ [NewWorkerQueue (nat (wp_queueSize m)) (pl_now s)],
      pl_pcs := (pl_pcs s)[i := PTouch uid q t]\<rparr>) < pool_weight s"
    using weight_update [OF i, of pc_weight "PTouch uid q t"] PMissed by (simp add: pool_weight_def queue_weight_def NewWorkerQueue_def)
  then show ?thesis using pool_step.create [OF i PMissed m] by fastforce
next
  case (PTouch uid q t)
  then have q: "q < length (pl_qs s)" using assms(1) i by (force simp: pool_inv_def refs_inv_def)
  then have c: "wq_cleaner (pl_qs s ! q) \<noteq> CStopping" using assms(2) by (simp add: no_cleanup_def)
  show ?thesis
    using pool_weight_queue_pc [OF i q, of "PAdd uid q t" "wq_touch t (pl_qs s ! q)"] PTouch
    by (intro progressI [OF pool_step.touch [OF i PTouch q c]]) (simp_all add: pool_weight_def queue_weight_def wq_touch_def)
next
  case (PAdd uid q t)
  then have q: "q < length (pl_qs s)" using assms(1) i by (force simp: pool_inv_def refs_inv_def)
  show ?thesis
    using pool_weight_queue_pc [OF i q, of "PSend uid q t" "wq_Add t (pl_qs s ! q)"] PAdd
    by (intro progressI [OF pool_step.add [OF i PAdd q]]) (simp_all add: pool_weight_def queue_weight_def wq_Add_def)
next
  case (PSend uid q t)
  then have q: "q < length (pl_qs s)" using assms(1) i by (force simp: pool_inv_def refs_inv_def)
  note op = queue_open [OF assms(1,2) q]
  have "wq_buf (pl_qs s ! q) = [] \<and> wq_worker (pl_qs s ! q) = WIdle"
    using assms(3) [OF q] op(2) by (cases "wq_worker (pl_qs s ! q)") (auto simp: queue_weight_def)
  then have r: "length (wq_buf (pl_qs s ! q)) < wq_cap (pl_qs s ! q) \<or> (wq_buf (pl_qs s ! q) = [] \<and> wq_worker (pl_qs s ! q) = WIdle)"
    by blast
  show ?thesis
    using pool_weight_queue_pc [OF i q, of PIdle "wq_send t (pl_qs s ! q)"] PSend
    by (intro progressI [OF pool_step.send [OF i PSend q op(1) r]]) (simp_all add: pool_weight_def queue_weight_def wq_send_def)
qed (use w in simp)

lemma pool_progress:
  assumes "pool_inv s" "no_cleanup s" "pool_weight s > 0"
  shows "\<exists>s'. pool_step s s' \<and> pl_calls s' = pl_calls s \<and> pool_weight s' < pool_weight s"
proof (cases "\<exists>q < length (pl_qs s). queue_weight (pl_qs s ! q) > 0")
  case True
  then obtain q where q: "q < length (pl_qs s)" "queue_weight (pl_qs s ! q) > 0" by blast
  then obtain Q where Q: "wq_step (wp_clearTimePass (pl_pool s)) (pl_qs s ! q) Q" "wq_adding Q = wq_adding (pl_qs s ! q)"
    "wq_sending Q = wq_sending (pl_qs s ! q)" "wq_cleaner Q = wq_cleaner (pl_qs s ! q)" "wq_now Q = wq_now (pl_qs s ! q)"
    "queue_weight Q < queue_weight (pl_qs s ! q)"
    using queue_progress [OF q(2) _ queue_open(2) [OF assms(1,2) q(1)]] assms(2) q(1) unfolding no_cleanup_def by metis
  show ?thesis
    using weight_update [of q "pl_qs s" queue_weight Q] q Q(6)
    by (intro progressI [OF pool_step.work [OF q(1) Q(1-5)]]) (simp_all add: pool_weight_def)
next
  case False
  then have z: "\<And>q. q < length (pl_qs s) \<Longrightarrow> queue_weight (pl_qs s ! q) = 0" by simp
  then have "\<forall>q \<in> set (pl_qs s). queue_weight q = 0" by (simp add: all_set_conv_all_nth)
  then have "sum_list (map queue_weight (pl_qs s)) = 0" by simp
  then have "0 < sum_list (map pc_weight (pl_pcs s))" using assms(3) unfolding pool_weight_def by linarith
  then obtain i where "i < length (pl_pcs s)" "pc_weight (pl_pcs s ! i) > 0" using sum_list_pos by blast
  then show ?thesis using pc_progress [OF assms(1,2) z] by blast
qed

section \<open>Properties\<close>

text \<open>
  C15: tasks of one share id are run one after the other, in order. From any state in which no
  goroutine is inside \<open>Submit\<close> and the key of the share id has its queue, without the cleanup: for every
  interleaving of any number of goroutines and workers, everything submitted under the key
  afterwards goes to that queue and to no other; what the queue has run, is running and has waiting is
  what it had been sent before, followed by the later tasks; and these contain the tasks of every
  goroutine in the order in which it called \<open>Submit\<close>, but for the one it is still submitting.
\<close>

theorem share_id_order:
  assumes "pool_step\<^sup>*\<^sup>* (new_pool n (NewWorkerPool num qsz ci cp) now) s0" "set (pl_pcs s0) \<subseteq> {PIdle}" "ci \<le> 0 \<or> cp \<le> 0"
    and "gm_get (wp_queues (pl_pool s0)) (key_of s0 uid) = Some q" "pool_step\<^sup>*\<^sup>* s0 s"
    and "K = (\<lambda>u. key_of s0 u = key_of s0 uid)"
  shows "(\<forall>(j, u, p, t) \<in> set (drop (length (pl_sent s0)) (pl_sent s)). K u \<longrightarrow> p = q) \<and>
    (\<exists>later. wq_done (pl_qs s ! q) @ wq_current (pl_qs s ! q) @ wq_buf (pl_qs s ! q) = wq_sent (pl_qs s0 ! q) @ later \<and>
      (\<forall>i < n. \<exists>ts. called_by i K s = called_by i K s0 @ ts @ submitting K (pl_pcs s ! i) \<and> subseq ts later))"
proof -
  have i0: "pool_inv s0" using pool_inv_steps [OF assms(1)] by (simp add: pool_inv_new NewWorkerPool_def)
  have i1: "pool_inv s" using pool_inv_steps [OF assms(5) i0] .
  obtain new where new: "pl_sent s = pl_sent s0 @ new" "\<And>j u p t. (j, u, p, t) \<in> set new \<Longrightarrow> K u \<Longrightarrow> p = q"
    and st: "settled (key_of s0 uid) q s"
    using settled_steps [OF assms(5) settled_idle [OF assms(1-4)]] unfolding assms(6) by fast
  have q: "q < length (pl_qs s0)" "q < length (pl_qs s)"
    using i0 i1 assms(4) st by (auto simp: pool_inv_def refs_inv_def settled_def)
  define later where "later = map (\<lambda>(j, u, p, t). t) (filter (\<lambda>(j, u, p, t). p = q) new)"
  have "\<exists>ts. called_by i K s = called_by i K s0 @ ts @ submitting K (pl_pcs s ! i) \<and> subseq ts later" if "i < n" for i
  proof -
    let ?ts = "map (\<lambda>(j, u, p, t). t) (filter (\<lambda>(j, u, p, t). j = i \<and> K u) new)"
    have "length (pl_pcs s0) = n" using pcs_length_steps [OF assms(1)] by (simp add: new_pool_def)
    then have "pl_pcs s0 ! i = PIdle" using assms(2) that nth_mem by blast
    then have "called_by i K s0 = sent_by i K s0" using new_pool_order [OF assms(1) that, of K] by simp
    moreover have "called_by i K s = sent_by i K s @ submitting K (pl_pcs s ! i)"
      using new_pool_order [OF rtranclp_trans [OF assms(1,5)] that] .
    moreover have "sent_by i K s = sent_by i K s0 @ ?ts" by (simp add: sent_by_def new(1))
    moreover have "subseq ?ts later"
      unfolding later_def using new(2) by (intro filter_subseq) auto
    ultimately show ?thesis by (intro exI [of _ ?ts]) simp
  qed
  moreover have "\<forall>(j, u, p, t) \<in> set (drop (length (pl_sent s0)) (pl_sent s)). K u \<longrightarrow> p = q"
    using new by auto
  ultimately show ?thesis using queue_record [OF i0 i1 q new(1)] later_def by blast
qed

text \<open>A first task submitted by the only goroutine.\<close>

lemma first_submit:
  assumes "0 \<le> qsz"
  shows "\<exists>s. pool_step\<^sup>*\<^sup>* (new_pool 1 (NewWorkerPool num qsz 0 0) now) s \<and> set (pl_pcs s) \<subseteq> {PIdle} \<and>
    gm_get (wp_queues (pl_pool s)) (key_of s uid) = Some 0"
proof -
  let ?s0 = "new_pool 1 (NewWorkerPool num qsz 0 0) now"
  let ?s1 = "?s0\<lparr>pl_pcs := [PLoad uid t], pl_calls := [(0, uid, t)]\<rparr>"
  let ?s2 = "?s1\<lparr>pl_pcs := [PMissed uid t]\<rparr>"
  let ?key = "queue_key (pl_pool ?s0) uid"
  let ?m = "(pl_pool ?s0)\<lparr>wp_next := 1, wp_queues := gm_put ?key 0 (wp_queues (pl_pool ?s0))\<rparr>"
  let ?q = "NewWorkerQueue (nat qsz) now"
  let ?s3 = "?s2\<lparr>pl_pool := ?m, pl_qs := [?q], pl_pcs := [PTouch uid 0 t]\<rparr>"
  let ?s4 = "?s3\<lparr>pl_qs := [wq_touch t ?q], pl_pcs := [PAdd uid 0 t]\<rparr>"
  let ?s5 = "?s3\<lparr>pl_qs := [wq_Add t (wq_touch t ?q)], pl_pcs := [PSend uid 0 t]\<rparr>"
  let ?s6 = "?s3\<lparr>pl_qs := [wq_send t (wq_Add t (wq_touch t ?q))], pl_pcs := [PIdle], pl_sent := [(0, uid, 0, t)]\<rparr>"
  note ds = new_pool_def NewWorkerPool_def wp_Start_def
  have m: "store_queue ?key (pl_pool ?s2) = Ok (0, ?m)" "wp_queueSize ?m = qsz"
    using assms by (simp_all add: store_queue_def ds)
  have q: "wq_cleaner ?q = CElsewhere" "\<not> wq_closed (wq_Add t (wq_touch t ?q))" "wq_buf (wq_Add t (wq_touch t ?q)) = []"
    "wq_worker (wq_Add t (wq_touch t ?q)) = WIdle"
    by (simp_all add: NewWorkerQueue_def wq_touch_def wq_Add_def)
  have "pool_step ?s0 ?s1" using pool_step.call [of 0 ?s0 uid t] by (simp add: ds)
  moreover have "pool_step ?s1 ?s2" using pool_step.miss [of 0 ?s1 uid t] by (simp add: ds)
  moreover have "pool_step ?s2 ?s3" using pool_step.create [of 0 ?s2 uid t 0 ?m] m by (simp add: ds)
  moreover have "pool_step ?s3 ?s4" using pool_step.touch [of 0 ?s3 uid 0 t] q(1) by simp
  moreover have "pool_step ?s4 ?s5" using pool_step.add [of 0 ?s4 uid 0 t] by simp
  moreover have "pool_step ?s5 ?s6" using pool_step.send [of 0 ?s5 uid 0 t] q by (simp add: ds)
  ultimately have "pool_step\<^sup>*\<^sup>* ?s0 ?s6" by (meson converse_rtranclp_into_rtranclp r_into_rtranclp)
  then show ?thesis by (intro exI [of _ ?s6]) (simp add: key_of_def queue_key_def)
qed

theorem share_id_order_witness:
  "\<exists>s0 s. pool_step s0 s \<and> pl_pcs s = [PLoad ''room'' 5] \<and> called_by 0 (\<lambda>u. key_of s0 u = key_of s0 ''room'') s =
     called_by 0 (\<lambda>u. key_of s0 u = key_of s0 ''room'') s0 @ [5]"
proof -
  obtain s0 where s0: "pool_step\<^sup>*\<^sup>* (new_pool 1 (NewWorkerPool 4 16 0 0) 0) s0" "set (pl_pcs s0) \<subseteq> {PIdle}"
    "gm_get (wp_queues (pl_pool s0)) (key_of s0 ''room'') = Some 0"
    using first_submit [of 16 4 0 "''room''"] by auto
  have "length (pl_pcs s0) = 1" using pcs_length_steps [OF s0(1)] by (simp add: new_pool_def)
  then have p: "pl_pcs s0 = [PIdle]" using s0(2) by (cases "pl_pcs s0") auto
  let ?s = "s0\<lparr>pl_pcs := [PLoad ''room'' 5], pl_calls := pl_calls s0 @ [(0, ''room'', 5)]\<rparr>"
  have st: "pool_step s0 ?s" using pool_step.call [of 0 s0 "''room''" 5] p by simp
  then have r: "pool_step\<^sup>*\<^sup>* s0 ?s" by auto
  obtain ts where ts: "called_by 0 (\<lambda>u. key_of s0 u = key_of s0 ''room'') ?s =
      called_by 0 (\<lambda>u. key_of s0 u = key_of s0 ''room'') s0 @ ts @ [5]"
    using share_id_order [OF s0(1,2) _ s0(3) r refl] by auto
  then have "ts = []" by (simp add: called_by_def)
  with ts st show ?thesis by (intro exI [of _ s0] exI [of _ ?s]) auto
qed

text \<open>The only source of a panic is the send on a channel that the cleanup has closed.\<close>

lemma no_cleanup_no_panic:
  assumes "pool_step s s'" "pool_inv s \<and> no_cleanup s \<and> \<not> pl_panicked s"
  shows "pool_inv s' \<and> no_cleanup s' \<and> \<not> pl_panicked s'"
proof -
  have "pl_panicked s' = pl_panicked s"
    using assms queue_open(1) [of s] by (auto elim!: pool_stepE)
  then show ?thesis using assms pool_inv_step no_cleanup_step by blast
qed

interpretation poolcalm: step_invariant pool_step "\<lambda>s. pool_inv s \<and> no_cleanup s \<and> \<not> pl_panicked s"
  by unfold_locales (rule no_cleanup_no_panic)

lemma cleanup_crash:
  assumes "i < length (pl_pcs s)" "pl_pcs s ! i = PTouch uid q t" "q < length (pl_qs s)" "wp_cleanup (pl_pool s)"
    and "gm_get (wp_queues (pl_pool s)) key = Some q" "wq_cleaner (pl_qs s ! q) = CElsewhere" "wq_wg (pl_qs s ! q) = 0"
  shows "\<exists>s'. pool_step\<^sup>*\<^sup>* s s' \<and> pl_panicked s'"
proof -
  let ?Q = "pl_qs s ! q" and ?pass = "wp_clearTimePass (pl_pool s)"
  define d where "d = max 0 (?pass + 1 - (wq_now ?Q - wq_lastActive ?Q))"
  let ?qs = "map (\<lambda>q. q\<lparr>wq_now := wq_now q + d\<rparr>) (pl_qs s)"
  let ?s1 = "s\<lparr>pl_now := pl_now s + d, pl_qs := ?qs\<rparr>"
  let ?Q1 = "?Q\<lparr>wq_now := wq_now ?Q + d\<rparr>"
  let ?Q2 = "?Q1\<lparr>wq_cleaner := CStopping\<rparr>" and ?Q3 = "?Q1\<lparr>wq_cleaner := CFinished, wq_closed := True\<rparr>"
  let ?s3 = "?s1\<lparr>pl_qs := ?qs[q := ?Q3]\<rparr>"
  let ?s4 = "?s3\<lparr>pl_pool := (pl_pool s)\<lparr>wp_queues := gm_del key (wp_queues (pl_pool s))\<rparr>\<rparr>"
  let ?s5 = "?s4\<lparr>pl_qs := ?qs[q := wq_touch t ?Q3], pl_pcs := (pl_pcs s)[i := PAdd uid q t]\<rparr>"
  let ?s6 = "?s4\<lparr>pl_qs := ?qs[q := wq_Add t (wq_touch t ?Q3)], pl_pcs := (pl_pcs s)[i := PSend uid q t]\<rparr>"
  have stop: "wq_step ?pass ?Q1 ?Q2" using wq_step.clean_stop [of ?Q1 ?pass] assms(6) by (simp add: d_def max_def)
  have close: "wq_step ?pass ?Q2 ?Q3" using wq_step.clean_close [of ?Q2 ?pass] assms(7) by simp
  have "pool_step s ?s1" by (rule pool_step.tick) (simp add: d_def)
  moreover have "pool_step ?s1 (?s1\<lparr>pl_qs := ?qs[q := ?Q2]\<rparr>)"
    using pool_step.clean [of ?s1 key q ?Q2] assms(3-6) stop by simp
  moreover have "pool_step (?s1\<lparr>pl_qs := ?qs[q := ?Q2]\<rparr>) ?s3"
    using pool_step.clean [of "?s1\<lparr>pl_qs := ?qs[q := ?Q2]\<rparr>" key q ?Q3] assms(3-5) close by simp
  moreover have "pool_step ?s3 ?s4" using pool_step.forget [of ?s3 key q] assms(3-5) by simp
  moreover have "pool_step ?s4 ?s5" using pool_step.touch [of i ?s4 uid q t] assms(1-3) by simp
  moreover have "pool_step ?s5 ?s6" using pool_step.add [of i ?s5 uid q t] assms(1,3) by simp
  moreover have "pool_step ?s6 (?s6\<lparr>pl_panicked := True\<rparr>)"
    using pool_step.send_closed [of i ?s6 uid q t] assms(1,3) by (simp add: wq_Add_def wq_touch_def)
  ultimately have "pool_step\<^sup>*\<^sup>* s (?s6\<lparr>pl_panicked := True\<rparr>)" by (meson converse_rtranclp_into_rtranclp r_into_rtranclp)
  then show ?thesis by (intro exI) auto
qed

lemma first_getQueue:
  assumes "0 < n" "0 \<le> qsz"
  shows "\<exists>s. pool_step\<^sup>*\<^sup>* (new_pool n (NewWorkerPool num qsz ci cp) now) s \<and> 0 < length (pl_pcs s) \<and> pl_pcs s ! 0 = PTouch uid 0 t \<and>
    pl_qs s = [NewWorkerQueue (nat qsz) now] \<and> wp_cleanup (pl_pool s) = (0 < ci \<and> 0 < cp) \<and>
    gm_get (wp_queues (pl_pool s)) (key_of s uid) = Some 0"
proof -
  let ?s0 = "new_pool n (NewWorkerPool num qsz ci cp) now"
  let ?s1 = "?s0\<lparr>pl_pcs := (pl_pcs ?s0)[0 := PLoad uid t], pl_calls := [(0, uid, t)]\<rparr>"
  let ?s2 = "?s1\<lparr>pl_pcs := (pl_pcs ?s0)[0 := PMissed uid t]\<rparr>"
  let ?key = "queue_key (pl_pool ?s0) uid"
  let ?m = "(pl_pool ?s0)\<lparr>wp_next := 1, wp_queues := gm_put ?key 0 (wp_queues (pl_pool ?s0))\<rparr>"
  let ?s3 = "?s2\<lparr>pl_pool := ?m, pl_qs := [NewWorkerQueue (nat qsz) now], pl_pcs := (pl_pcs ?s0)[0 := PTouch uid 0 t]\<rparr>"
  note ds = new_pool_def NewWorkerPool_def wp_Start_def
  have m: "store_queue ?key (pl_pool ?s2) = Ok (0, ?m)" "wp_queueSize ?m = qsz"
    using assms by (auto simp: store_queue_def ds)
  have "pool_step ?s0 ?s1" using pool_step.call [of 0 ?s0 uid t] assms(1) by (simp add: new_pool_def)
  moreover have "pool_step ?s1 ?s2" using pool_step.miss [of 0 ?s1 uid t] assms(1) by (auto simp: ds)
  moreover have "pool_step ?s2 ?s3" using pool_step.create [of 0 ?s2 uid t 0 ?m] m assms(1) by (simp add: new_pool_def)
  ultimately have "pool_step\<^sup>*\<^sup>* ?s0 ?s3" by (meson converse_rtranclp_into_rtranclp r_into_rtranclp)
  then show ?thesis using assms(1) by (intro exI [of _ ?s3]) (auto simp: key_of_def queue_key_def ds)
qed

text \<open>
  C16: submitting can panic exactly when the cleanup of idle queues runs. With the cleanup, a
  goroutine that has got its queue but not yet noted the time can find the channel closed and brings the process
  down; without it, no interleaving of any number of goroutines and workers ever sends on a closed channel.
\<close>

theorem submit_panics_iff:
  assumes "0 < n" "0 \<le> qsz"
  shows "(\<exists>s. pool_step\<^sup>*\<^sup>* (new_pool n (NewWorkerPool num qsz ci cp) now) s \<and> pl_panicked s) \<longleftrightarrow> 0 < ci \<and> 0 < cp"
proof
  assume c: "0 < ci \<and> 0 < cp"
  obtain s where s: "pool_step\<^sup>*\<^sup>* (new_pool n (NewWorkerPool num qsz ci cp) now) s" "0 < length (pl_pcs s)" "pl_pcs s ! 0 = PTouch [] 0 0"
    "pl_qs s = [NewWorkerQueue (nat qsz) now]" "wp_cleanup (pl_pool s)" "gm_get (wp_queues (pl_pool s)) (key_of s []) = Some 0"
    using first_getQueue [OF assms, of num ci cp now "[]" 0] c by blast
  obtain s' where "pool_step\<^sup>*\<^sup>* s s'" "pl_panicked s'"
    using cleanup_crash [OF s(2,3) _ s(5,6)] s(4) by (auto simp: NewWorkerQueue_def)
  then show "\<exists>s. pool_step\<^sup>*\<^sup>* (new_pool n (NewWorkerPool num qsz ci cp) now) s \<and> pl_panicked s"
    using s(1) by (meson rtranclp_trans)
next
  let ?s0 = "new_pool n (NewWorkerPool num qsz ci cp) now"
  assume "\<exists>s. pool_step\<^sup>*\<^sup>* ?s0 s \<and> pl_panicked s"
  then have "\<not> (pool_inv ?s0 \<and> no_cleanup ?s0 \<and> \<not> pl_panicked ?s0)" using poolcalm.steps by blast
  moreover have "pool_inv ?s0" by (simp add: pool_inv_new NewWorkerPool_def)
  ultimately show "0 < ci \<and> 0 < cp" using assms(2) by (auto simp: no_cleanup_def new_pool_def wp_Start_def NewWorkerPool_def split: if_splits)
qed

theorem submit_panics_iff_witness:
  "\<exists>s. pool_step\<^sup>*\<^sup>* (new_pool 30 (NewWorkerPool 128 256 30000000000 300000000000) 0) s \<and> pl_panicked s"
  using submit_panics_iff [of 30 256 128 30000000000 300000000000 0] by simp

end
