(* ===== verification/ServerRun.thy ===== *)
theory ServerRun
  imports RpcServer PoolRun
begin

text \<open>
  The RPC server at work: the goroutines of \<open>cluster/nats_rpc_server.go\<close> around one state. NATS puts messages into
  \<open>subChan\<close>; the goroutine of \<open>handleMessages\<close> takes them out, reads them and hands them over the unbuffered
  \<open>unhandledReqCh\<close> to one of the goroutines of \<open>processMessages\<close>; these answer what they cannot accept, submit
  requests with a share id to the worker pool and start a goroutine for every other one, which
  waits for the semaphore. What a request is, is decided by the functions of theory \<open>RpcServer\<close>.
\<close>

section \<open>Requests\<close>

datatype request_class = Malformed | Rejected | Shared string | Single | Crashing

text \<open>How one message is treated by \<open>handleMessages\<close> and \<open>processMessages\<close>.\<close>

definition classify :: "mapjson \<Rightarrow> protolib \<Rightarrow> timelib \<Rightarrow> string \<Rightarrow> NatsRPCServer \<Rightarrow> heap \<Rightarrow> bytes \<times> string \<Rightarrow> request_class" where
  "classify mj pl tim nuid ns h msg =
     (case fst (handle_message pl (ns_dropped ns) (fst msg) (snd msg) ns) of
        Ok None \<Rightarrow> Malformed
      | Ok (Some req) \<Rightarrow>
          (case process_message mj pl tim nuid ns req h of
             Ok (Replied _) \<Rightarrow> Rejected
           | Ok (Submitted shareID _ _ _) \<Rightarrow> Shared shareID
           | Ok (Spawned _ _ _) \<Rightarrow> Single
           | _ \<Rightarrow> Crashing)
      | _ \<Rightarrow> Crashing)"

section \<open>Goroutines\<close>

datatype receiver_pc = RSelect | RForward nat | RStopped
datatype thread_pc = TWait | TGot nat | TPooled | TEnd

text \<open>
  Requests are numbered. \<open>sr_free\<close>: permits of the semaphore; \<open>sr_waiting\<close>, \<open>sr_running\<close>: requests whose goroutine
  waits for a permit, or holds one and works; \<open>sr_releasing\<close>: goroutines that have answered and are about to
  release; \<open>sr_replied\<close>: answered outside the pool. What the pool has run is in its queues.
\<close>

record server_state =
  sr_pool :: pool_state
  sr_subChan :: "nat list"
  sr_receiver :: receiver_pc
  sr_threads :: "thread_pc list"
  sr_free :: nat
  sr_waiting :: "nat multiset"
  sr_running :: "nat multiset"
  sr_releasing :: nat
  sr_received :: "nat list"
  sr_skipped :: "nat list"
  sr_replied :: "nat list"
  sr_stopChan :: bool
  sr_crashed :: bool

definition new_server :: "nat \<Rightarrow> nat \<Rightarrow> WorkerPool \<Rightarrow> int \<Rightarrow> server_state" where
  "new_server services permits m now =
     \<lparr>sr_pool = new_pool services m now, sr_subChan = [], sr_receiver = RSelect, sr_threads = replicate services TWait,
      sr_free = permits, sr_waiting = {#}, sr_running = {#}, sr_releasing = 0, sr_received = [], sr_skipped = [],
      sr_replied = [], sr_stopChan = False, sr_crashed = False\<rparr>"

text \<open>
  \<open>cap\<close> is the size of \<open>subChan\<close>: NATS drops a message when it is full. After \<open>Shutdown\<close> the select of the receiver may
  still take a message; once it has taken the stop, the channels are closed.
\<close>

inductive server_step :: "(nat \<Rightarrow> request_class) \<Rightarrow> nat \<Rightarrow> server_state \<Rightarrow> server_state \<Rightarrow> bool" for cls cap where
  deliver: "length (sr_subChan s) < cap \<Longrightarrow> sr_receiver s \<noteq> RStopped \<Longrightarrow>
    server_step cls cap s (s\<lparr>sr_subChan := sr_subChan s @ [r], sr_received := sr_received s @ [r]\<rparr>)"
| skip: "sr_receiver s = RSelect \<Longrightarrow> sr_subChan s = r # rs \<Longrightarrow> cls r = Malformed \<Longrightarrow>
    server_step cls cap s (s\<lparr>sr_subChan := rs, sr_skipped := sr_skipped s @ [r]\<rparr>)"
| receive: "sr_receiver s = RSelect \<Longrightarrow> sr_subChan s = r # rs \<Longrightarrow> cls r \<noteq> Malformed \<Longrightarrow>
    server_step cls cap s (s\<lparr>sr_subChan := rs, sr_receiver := RForward r\<rparr>)"
| hand_over: "sr_receiver s = RForward r \<Longrightarrow> i < length (sr_threads s) \<Longrightarrow> sr_threads s ! i = TWait \<Longrightarrow>
    server_step cls cap s (s\<lparr>sr_receiver := RSelect, sr_threads := (sr_threads s)[i := TGot r]\<rparr>)"
| crash: "sr_receiver s = RForward r \<or> TGot r \<in> set (sr_threads s) \<Longrightarrow> cls r = Crashing \<Longrightarrow>
    server_step cls cap s (s\<lparr>sr_crashed := True\<rparr>)"
| reject: "i < length (sr_threads s) \<Longrightarrow> sr_threads s ! i = TGot r \<Longrightarrow> cls r = Rejected \<Longrightarrow>
    server_step cls cap s (s\<lparr>sr_threads := (sr_threads s)[i := TWait], sr_replied := sr_replied s @ [r]\<rparr>)"
| submit: "i < length (sr_threads s) \<Longrightarrow> sr_threads s ! i = TGot r \<Longrightarrow> cls r = Shared uid \<Longrightarrow>
    i < length (pl_pcs (sr_pool s)) \<Longrightarrow> pl_pcs (sr_pool s) ! i = PIdle \<Longrightarrow>
    server_step cls cap s (s\<lparr>sr_threads := (sr_threads s)[i := TPooled],
      sr_pool := (sr_pool s)\<lparr>pl_pcs := (pl_pcs (sr_pool s))[i := PLoad uid r], pl_calls := pl_calls (sr_pool s) @ [(i, uid, r)]\<rparr>\<rparr>)"
| submitted: "i < length (sr_threads s) \<Longrightarrow> sr_threads s ! i = TPooled \<Longrightarrow> pl_pcs (sr_pool s) ! i = PIdle \<Longrightarrow>
    server_step cls cap s (s\<lparr>sr_threads := (sr_threads s)[i := TWait]\<rparr>)"
| pool: "pool_step (sr_pool s) p \<Longrightarrow> pl_calls p = pl_calls (sr_pool s) \<Longrightarrow>
    server_step cls cap s (s\<lparr>sr_pool := p\<rparr>)"
| spawn: "i < length (sr_threads s) \<Longrightarrow> sr_threads s ! i = TGot r \<Longrightarrow> cls r = Single \<Longrightarrow>
    server_step cls cap s (s\<lparr>sr_threads := (sr_threads s)[i := TWait], sr_waiting := add_mset r (sr_waiting s)\<rparr>)"
| acquire: "sr_waiting s = add_mset r w \<Longrightarrow> sr_free s = Suc f \<Longrightarrow>
    server_step cls cap s (s\<lparr>sr_waiting := w, sr_running := add_mset r (sr_running s), sr_free := f\<rparr>)"
| too_many: "sr_waiting s = add_mset r w \<Longrightarrow>
    server_step cls cap s (s\<lparr>sr_waiting := w, sr_replied := sr_replied s @ [r]\<rparr>)"
| answer: "sr_running s = add_mset r w \<Longrightarrow>
    server_step cls cap s (s\<lparr>sr_running := w, sr_replied := sr_replied s @ [r], sr_releasing := Suc (sr_releasing s)\<rparr>)"
| release: "sr_releasing s = Suc k \<Longrightarrow>
    server_step cls cap s (s\<lparr>sr_releasing := k, sr_free := Suc (sr_free s)\<rparr>)"
| shutdown: "\<not> sr_stopChan s \<Longrightarrow> server_step cls cap s (s\<lparr>sr_stopChan := True\<rparr>)"
| stop: "sr_stopChan s \<Longrightarrow> sr_receiver s = RSelect \<Longrightarrow> server_step cls cap s (s\<lparr>sr_receiver := RStopped\<rparr>)"
| thread_end: "sr_receiver s = RStopped \<Longrightarrow> i < length (sr_threads s) \<Longrightarrow> sr_threads s ! i = TWait \<Longrightarrow>
    server_step cls cap s (s\<lparr>sr_threads := (sr_threads s)[i := TEnd]\<rparr>)"

inductive_cases server_stepE: "server_step cls cap s s'"

section \<open>Invariant\<close>

fun thread_req :: "thread_pc \<Rightarrow> nat multiset" where
  "thread_req (TGot r) = {#r#}"
| "thread_req _ = {#}"

fun receiver_req :: "receiver_pc \<Rightarrow> nat multiset" where
  "receiver_req (RForward r) = {#r#}"
| "receiver_req _ = {#}"

text \<open>The requests outside the pool that are neither answered nor skipped.\<close>

definition front_open :: "server_state \<Rightarrow> nat multiset" where
  "front_open s = mset (sr_subChan s) + receiver_req (sr_receiver s) + sum_list (map thread_req (sr_threads s)) +
     sr_waiting s + sr_running s"

definition server_open :: "server_state \<Rightarrow> nat multiset" where
  "server_open s = front_open s + pool_open (sr_pool s)"

definition server_answered :: "server_state \<Rightarrow> nat multiset" where
  "server_answered s = mset (sr_skipped s) + mset (sr_replied s) + pool_done (sr_pool s)"

definition server_inv :: "nat \<Rightarrow> server_state \<Rightarrow> bool" where
  "server_inv permits s \<longleftrightarrow>
     length (sr_threads s) = length (pl_pcs (sr_pool s)) \<and>
     pool_inv (sr_pool s) \<and> pool_kept (sr_pool s) \<and>
     (\<forall>i < length (sr_threads s). sr_threads s ! i \<noteq> TPooled \<longrightarrow> pl_pcs (sr_pool s) ! i = PIdle) \<and>
     sr_free s + size (sr_running s) + sr_releasing s = permits \<and>
     mset (sr_received s) = front_open s + pool_calls (sr_pool s) + mset (sr_skipped s) + mset (sr_replied s)"

lemma pool_step_idle:
  "pool_step p p' \<Longrightarrow> pl_calls p' = pl_calls p \<Longrightarrow> i < length (pl_pcs p) \<Longrightarrow> pl_pcs p ! i = PIdle \<Longrightarrow> pl_pcs p' ! i = PIdle"
  by (erule pool_stepE) (auto simp: nth_list_update)

lemma server_inv_pool:
  assumes "server_inv n s" "pool_step (sr_pool s) p" "pl_calls p = pl_calls (sr_pool s)"
  shows "server_inv n (s\<lparr>sr_pool := p\<rparr>)"
  using assms pool_inv_step [OF assms(2)] pool_kept_step [OF assms(2)] pcs_length_step [OF assms(2)] pool_step_idle [OF assms(2,3)]
  by (simp add: server_inv_def front_open_def pool_calls_def)

lemma thread_update:
  "i < length ts \<Longrightarrow> sum_list (map thread_req (ts[i := pc])) + thread_req (ts ! i) = sum_list (map thread_req ts) + thread_req pc"
  by (rule sum_list_map_update)

lemma server_inv_threads:
  assumes "server_inv n s" "i < length (sr_threads s)" "sr_threads s ! i \<noteq> TPooled \<or> pl_pcs (sr_pool s) ! i = PIdle" "pc \<noteq> TPooled"
    and "j < length (sr_threads s)" "(sr_threads s)[i := pc] ! j \<noteq> TPooled"
  shows "pl_pcs (sr_pool s) ! j = PIdle"
  using assms by (auto simp: server_inv_def nth_list_update split: if_splits)

text \<open>A thread that moves between states outside the pool.\<close>

lemma server_inv_move:
  assumes "server_inv n s" "i < length (sr_threads s)" "sr_threads s ! i \<noteq> TPooled \<or> pl_pcs (sr_pool s) ! i = PIdle" "pc \<noteq> TPooled"
    and "sr_threads s' = (sr_threads s)[i := pc]" "sr_pool s' = sr_pool s" "sr_free s' = sr_free s" "sr_running s' = sr_running s"
    and "sr_releasing s' = sr_releasing s" "sr_received s' = sr_received s" "sr_subChan s' = sr_subChan s" "sr_skipped s' = sr_skipped s"
    and "thread_req pc + receiver_req (sr_receiver s') + sr_waiting s' + mset (sr_replied s') =
      thread_req (sr_threads s ! i) + receiver_req (sr_receiver s) + sr_waiting s + mset (sr_replied s)"
  shows "server_inv n s'"
proof -
  have "front_open s' + mset (sr_replied s') + thread_req (sr_threads s ! i) =
      mset (sr_subChan s) + sr_running s + (sum_list (map thread_req ((sr_threads s)[i := pc])) + thread_req (sr_threads s ! i)) +
        (receiver_req (sr_receiver s') + sr_waiting s' + mset (sr_replied s'))"
    using assms by (simp add: front_open_def ac_simps)
  also have "\<dots> = mset (sr_subChan s) + sr_running s + sum_list (map thread_req (sr_threads s)) +
      (thread_req pc + receiver_req (sr_receiver s') + sr_waiting s' + mset (sr_replied s'))"
    unfolding thread_update [OF assms(2)] by (simp only: ac_simps)
  also have "\<dots> = front_open s + mset (sr_replied s) + thread_req (sr_threads s ! i)"
    unfolding assms(13) by (simp add: front_open_def ac_simps)
  finally have "front_open s' + mset (sr_replied s') = front_open s + mset (sr_replied s)" by simp
  then have "front_open s' + pool_calls (sr_pool s) + mset (sr_skipped s) + mset (sr_replied s') =
      front_open s + pool_calls (sr_pool s) + mset (sr_skipped s) + mset (sr_replied s)"
    by (metis (no_types, lifting) add.assoc add.commute)
  then show ?thesis
    using assms server_inv_threads [OF assms(1-4)] by (simp add: server_inv_def)
qed

lemma server_inv_step: "server_step cls cap s s' \<Longrightarrow> server_inv n s \<Longrightarrow> server_inv n s'"
proof (erule server_stepE, goal_cases)
  case (4 r i)
  then show ?case by - (rule server_inv_move [of n s i "TGot r"], simp_all)
next
  case (6 i r)
  then show ?case by - (rule server_inv_move [of n s i TWait], simp_all)
next
  case (7 i r uid)
  then have p: "pool_step (sr_pool s) ((sr_pool s)\<lparr>pl_pcs := (pl_pcs (sr_pool s))[i := PLoad uid r],
      pl_calls := pl_calls (sr_pool s) @ [(i, uid, r)]\<rparr>)" (is "pool_step _ ?p") by (intro pool_step.call)
  have "pool_inv ?p" "pool_kept ?p"
    using 7(1) pool_inv_step [OF p] pool_kept_step [OF p] by (simp_all add: server_inv_def)
  then show ?case using 7 thread_update [OF 7(3), of TPooled]
    by (simp add: server_inv_def front_open_def pool_calls_def nth_list_update)
next
  case (8 i)
  then show ?case by - (rule server_inv_move [of n s i TWait], simp_all)
next
  case (9 p)
  then show ?case by (simp add: server_inv_pool)
next
  case (10 i r)
  then show ?case by - (rule server_inv_move [of n s i TWait], simp_all)
next
  case (17 i)
  then show ?case by - (rule server_inv_move [of n s i TEnd], simp_all)
qed (auto simp: server_inv_def front_open_def)

interpretation srvrun: step_invariant "server_step cls cap" "server_inv n" for cls cap n
  by unfold_locales (rule server_inv_step)

lemmas server_inv_steps = srvrun.steps

lemma server_inv_new: "wp_queues m = gm_empty \<Longrightarrow> wp_next m = 0 \<Longrightarrow> server_inv permits (new_server services permits m now)"
proof -
  assume a: "wp_queues m = gm_empty" "wp_next m = 0"
  have "sum_list (map thread_req (replicate k TWait)) = {#}" "sum_list (map (\<lambda>pc. mset (submitting K pc)) (replicate k PIdle)) = {#}"
    for k K by (induction k) simp_all
  then show ?thesis using pool_inv_new [OF a, of services now]
    by (simp add: server_inv_def new_server_def front_open_def pool_calls_def pool_kept_def) (simp add: new_pool_def)
qed

section \<open>Progress\<close>

text \<open>
  A server that has not been stopped: what is in flight is no malformed message, and the receiver and all
  threads are there. A weight that drops with every step towards the answers.
\<close>

definition server_up :: "(nat \<Rightarrow> request_class) \<Rightarrow> server_state \<Rightarrow> bool" where
  "server_up cls s \<longleftrightarrow>
     no_cleanup (sr_pool s) \<and> (\<not> sr_stopChan s \<longrightarrow> sr_receiver s \<noteq> RStopped) \<and>
     (sr_receiver s \<noteq> RStopped \<longrightarrow> TEnd \<notin> set (sr_threads s)) \<and>
     (\<forall>r. sr_receiver s = RForward r \<or> TGot r \<in> set (sr_threads s) \<longrightarrow> cls r \<noteq> Malformed)"

lemma server_up_step: "server_step cls cap s s' \<Longrightarrow> server_up cls s \<Longrightarrow> server_up cls s'"
proof (erule server_stepE, goal_cases)
  case (9 p)
  then show ?case by (simp add: server_up_def no_cleanup_step)
qed (auto simp: server_up_def no_cleanup_def dest!: subsetD [OF set_update_subset_insert])

interpretation srvup: step_invariant "server_step cls cap" "server_up cls" for cls cap
  by unfold_locales (rule server_up_step)

lemmas server_up_steps = srvup.steps

fun thread_weight :: "thread_pc \<Rightarrow> nat" where
  "thread_weight (TGot r) = 18"
| "thread_weight TPooled = 1"
| "thread_weight _ = 0"

fun receiver_weight :: "receiver_pc \<Rightarrow> nat" where
  "receiver_weight (RForward r) = 19"
| "receiver_weight _ = 0"

definition server_weight :: "server_state \<Rightarrow> nat" where
  "server_weight s = 20 * length (sr_subChan s) + receiver_weight (sr_receiver s) + sum_list (map thread_weight (sr_threads s)) +
     pool_weight (sr_pool s) + 3 * size (sr_waiting s) + 2 * size (sr_running s) + sr_releasing s"

lemma thread_weight_update:
  "i < length ts \<Longrightarrow> sum_list (map thread_weight (ts[i := pc])) + thread_weight (ts ! i) = sum_list (map thread_weight ts) + thread_weight pc"
  by (rule sum_list_map_update)

lemma server_progressI:
  "server_step cls cap s s' \<Longrightarrow> server_weight s' < server_weight s \<Longrightarrow> sr_received s' = sr_received s \<Longrightarrow>
     sr_stopChan s' = sr_stopChan s \<Longrightarrow>
     \<exists>s'. server_step cls cap s s' \<and> server_weight s' < server_weight s \<and> sr_received s' = sr_received s \<and> sr_stopChan s' = sr_stopChan s"
  by blast

text \<open>A step of one of the threads, when the pool rests.\<close>

lemma thread_progress:
  assumes "server_inv n s" "server_up cls s" "\<And>r. cls r \<noteq> Crashing" "pool_weight (sr_pool s) = 0"
    and i: "i < length (sr_threads s)" and w: "thread_weight (sr_threads s ! i) > 0"
  shows "\<exists>s'. server_step cls cap s s' \<and> server_weight s' < server_weight s \<and> sr_received s' = sr_received s \<and> sr_stopChan s' = sr_stopChan s"
proof -
  have pl: "i < length (pl_pcs (sr_pool s))" using assms(1) i by (simp add: server_inv_def)
  have "\<not> 0 < pc_weight (pl_pcs (sr_pool s) ! i)"
    using assms(4) nth_mem [OF pl] by (simp add: pool_weight_def)
  then have idle: "pl_pcs (sr_pool s) ! i = PIdle" by (cases "pl_pcs (sr_pool s) ! i") auto
  show ?thesis
  proof (cases "sr_threads s ! i")
    case (TGot r)
    then have "cls r \<noteq> Malformed" using assms(2) i nth_mem [OF i] by (auto simp: server_up_def)
    then consider (rej) "cls r = Rejected" | (shared) uid where "cls r = Shared uid" | (single) "cls r = Single"
      using assms(3) [of r] by (cases "cls r") auto
    then show ?thesis
    proof cases
      case rej
      show ?thesis using thread_weight_update [OF i, of TWait] TGot
        by (intro server_progressI [OF server_step.reject [where cls = cls and cap = cap, OF i TGot rej]]) (simp_all add: server_weight_def)
    next
      case shared
      show ?thesis
        using thread_weight_update [OF i, of TPooled] TGot idle sum_list_map_update [OF pl, of pc_weight "PLoad uid r"]
        by (intro server_progressI [OF server_step.submit [where cls = cls and cap = cap, OF i TGot shared pl idle]]) (simp_all add: server_weight_def pool_weight_def)
    next
      case single
      show ?thesis using thread_weight_update [OF i, of TWait] TGot
        by (intro server_progressI [OF server_step.spawn [where cls = cls and cap = cap, OF i TGot single]]) (simp_all add: server_weight_def)
    qed
  next
    case TPooled
    show ?thesis using thread_weight_update [OF i, of TWait] TPooled
      by (intro server_progressI [OF server_step.submitted [where cls = cls and cap = cap, OF i TPooled idle]]) (simp_all add: server_weight_def)
  qed (use w in simp_all)
qed

lemma pool_weight_zero: "pool_weight p = 0 \<Longrightarrow> pool_open p = {#}"
proof -
  assume "pool_weight p = 0"
  then have a: "\<forall>pc \<in> set (pl_pcs p). pc_weight pc = 0" "\<forall>q \<in> set (pl_qs p). queue_weight q = 0"
    by (simp_all add: pool_weight_def)
  have "submitting (\<lambda>_. True) pc = []" if "pc_weight pc = 0" for pc using that by (cases pc) simp_all
  then have "sum_list (map (\<lambda>pc. mset (submitting (\<lambda>_. True) pc)) pcs) = {#}" if "set pcs \<subseteq> set (pl_pcs p)" for pcs
    using a(1) that by (induction pcs) auto
  moreover have "wq_current q @ wq_buf q = []" if "queue_weight q = 0" for q
    using that by (cases "wq_worker q") (auto simp: queue_weight_def wq_current_def)
  then have "sum_list (map (\<lambda>q. mset (wq_current q @ wq_buf q)) qs) = {#}" if "set qs \<subseteq> set (pl_qs p)" for qs
    using a(2) that by (induction qs) fastforce+
  ultimately show ?thesis by (simp add: pool_open_def)
qed

lemma server_weight_zero: "server_weight s = 0 \<Longrightarrow> server_open s = {#}"
proof -
  assume "server_weight s = 0"
  then have w: "sr_subChan s = []" "receiver_weight (sr_receiver s) = 0" "sum_list (map thread_weight (sr_threads s)) = 0"
    "pool_open (sr_pool s) = {#}" "sr_waiting s = {#}" "sr_running s = {#}"
    using pool_weight_zero [of "sr_pool s"] unfolding server_weight_def by (simp_all del: sum_list_eq_0_iff)
  have "thread_req pc = {#}" if "thread_weight pc = 0" for pc using that by (cases pc) simp_all
  then have "sum_list (map thread_req ts) = {#}" if "sum_list (map thread_weight ts) = 0" for ts
    using that by (induction ts) simp_all
  moreover have "receiver_req (sr_receiver s) = {#}" using w(2) by (cases "sr_receiver s") simp_all
  ultimately show ?thesis using w by (simp add: server_open_def front_open_def)
qed

text \<open>What a server with work to do can go on with.\<close>

lemma server_work:
  assumes inv: "server_inv n s" and up: "server_up cls s" and w: "server_weight s > 0" and "n > 0" "\<not> sr_stopChan s"
  obtains (releasing) k where "sr_releasing s = Suc k"
    | (running) r x where "sr_running s = add_mset r x"
    | (waiting) r x f where "sr_waiting s = add_mset r x" "sr_free s = Suc f"
    | (pool) "pool_weight (sr_pool s) > 0"
    | (thread) i where "pool_weight (sr_pool s) = 0" "i < length (sr_threads s)" "thread_weight (sr_threads s ! i) > 0"
    | (receiver) r where "sum_list (map thread_weight (sr_threads s)) = 0" "sr_receiver s = RForward r"
    | (queue) r rs where "sr_receiver s = RSelect" "sr_subChan s = r # rs"
proof (rule ccontr)
  assume not: "\<not> thesis"
  have a: "sr_releasing s = 0" "sr_running s = {#}" "pool_weight (sr_pool s) = 0"
    using not releasing running pool by (metis not0_implies_Suc, metis multiset_cases, metis neq0_conv)
  then have "sr_free s = n" using inv by (simp add: server_inv_def)
  then have b: "sr_waiting s = {#}" using not waiting \<open>n > 0\<close> by (metis gr0_implies_Suc multiset_cases)
  have t: "sum_list (map thread_weight (sr_threads s)) = 0" using not thread a(3) sum_list_pos by (metis neq0_conv)
  then have "sr_receiver s = RSelect"
    using not receiver up \<open>\<not> sr_stopChan s\<close> by (cases "sr_receiver s") (auto simp: server_up_def simp del: sum_list_eq_0_iff)
  moreover from this have "sr_subChan s = []" using not queue by (metis neq_Nil_conv)
  ultimately show False using w a b t by (simp add: server_weight_def)
qed

lemma server_progress:
  assumes inv: "server_inv n s" and up: "server_up cls s" and cls: "\<And>r. cls r \<noteq> Crashing" and w: "server_weight s > 0"
    and "n > 0" "sr_threads s \<noteq> []" "\<not> sr_stopChan s"
  shows "\<exists>s'. server_step cls cap s s' \<and> server_weight s' < server_weight s \<and> sr_received s' = sr_received s \<and> sr_stopChan s' = sr_stopChan s"
  using inv up w \<open>n > 0\<close> \<open>\<not> sr_stopChan s\<close>
proof (cases rule: server_work)
  case releasing
  show ?thesis by (intro server_progressI [OF server_step.release [where cls = cls and cap = cap, OF releasing]]) (simp_all add: server_weight_def releasing)
next
  case running
  show ?thesis by (intro server_progressI [OF server_step.answer [where cls = cls and cap = cap, OF running]]) (simp_all add: server_weight_def running)
next
  case waiting
  show ?thesis by (intro server_progressI [OF server_step.acquire [where cls = cls and cap = cap, OF waiting]]) (simp_all add: server_weight_def waiting)
next
  case pool
  moreover have "pool_inv (sr_pool s)" "no_cleanup (sr_pool s)" using inv up by (simp_all add: server_inv_def server_up_def)
  ultimately obtain p where "pool_step (sr_pool s) p" "pl_calls p = pl_calls (sr_pool s)" "pool_weight p < pool_weight (sr_pool s)"
    using pool_progress by blast
  then show ?thesis by (intro server_progressI [OF server_step.pool]) (simp_all add: server_weight_def)
next
  case thread
  then show ?thesis using thread_progress [OF inv up cls] by blast
next
  case (receiver r)
  then have z: "thread_weight (sr_threads s ! 0) = 0" and i: "0 < length (sr_threads s)" using assms(6) by auto
  moreover have "TEnd \<notin> set (sr_threads s)" using up receiver(2) by (simp add: server_up_def)
  ultimately have t: "sr_threads s ! 0 = TWait" using nth_mem [OF i] by (cases "sr_threads s ! 0") simp_all
  show ?thesis using thread_weight_update [OF i, of "TGot r"] t receiver
    by (intro server_progressI [OF server_step.hand_over [where cls = cls and cap = cap, OF receiver(2) i t]]) (simp_all add: server_weight_def)
next
  case (queue r rs)
  show ?thesis
  proof (cases "cls r = Malformed")
    case True
    show ?thesis by (intro server_progressI [OF server_step.skip [where cls = cls and cap = cap, OF queue True]]) (simp_all add: server_weight_def queue)
  next
    case False
    show ?thesis by (intro server_progressI [OF server_step.receive [where cls = cls and cap = cap, OF queue False]]) (simp_all add: server_weight_def queue)
  qed
qed

section \<open>Properties\<close>

interpretation srvbuf: step_invariant "server_step cls cap" "\<lambda>s. length (sr_subChan s) \<le> cap" for cls cap
  by unfold_locales (auto elim!: server_stepE)

interpretation srvthreads: step_invariant "server_step cls cap" "\<lambda>s. length (sr_threads s) = n" for cls cap n
  by unfold_locales (auto elim!: server_stepE)

lemma server_inv_total: "server_inv n s \<Longrightarrow> mset (sr_received s) = server_open s + server_answered s"
  by (simp add: server_inv_def pool_conserves server_open_def server_answered_def ac_simps)

text \<open>
  C14: the server loses no request and answers none twice. In every reachable state, for every interleaving
  of the receiving goroutine, the processing goroutines, the worker pool and the goroutines behind the
  semaphore, with or without cleanup and shutdown, the requests that were received are exactly those still on their way and
  those skipped, answered or run by the pool, each as often as it was received. At most as many requests are
  handled at the same time outside the pool as the semaphore allows, and at most as many wait in
  the channel as it has room for.
\<close>

theorem server_conserves:
  assumes "(server_step cls cap)\<^sup>*\<^sup>* (new_server services permits (NewWorkerPool num qsz ci cp) now) s"
  shows "mset (sr_received s) = server_open s + server_answered s \<and> size (sr_running s) \<le> permits \<and> length (sr_subChan s) \<le> cap"
proof -
  have i: "server_inv permits s" using server_inv_steps [OF assms server_inv_new] by (simp add: NewWorkerPool_def)
  then have "size (sr_running s) \<le> permits" by (auto simp: server_inv_def)
  then show ?thesis using server_inv_total [OF i] srvbuf.steps [OF assms] by (simp add: new_server_def)
qed

text \<open>A state from which the server goes on by itself, without receiving anything more than \<open>rs\<close>.\<close>

definition server_ready :: "(nat \<Rightarrow> request_class) \<Rightarrow> nat \<Rightarrow> nat list \<Rightarrow> server_state \<Rightarrow> bool" where
  "server_ready cls permits rs s \<longleftrightarrow>
     server_inv permits s \<and> server_up cls s \<and> (\<forall>r. cls r \<noteq> Crashing) \<and> 0 < permits \<and> sr_threads s \<noteq> [] \<and>
     \<not> sr_stopChan s \<and> sr_received s = rs"

lemma server_lighter:
  assumes "server_ready cls n rs s" "server_open s \<noteq> {#}"
  shows "\<exists>y. server_step cls cap s y \<and> server_ready cls n rs y \<and> server_weight y < server_weight s"
proof -
  have s: "server_inv n s" "server_up cls s" "\<And>r. cls r \<noteq> Crashing" "0 < n" "sr_threads s \<noteq> []" "\<not> sr_stopChan s" "sr_received s = rs"
    using assms(1) by (auto simp: server_ready_def)
  have "server_weight s \<noteq> 0" using server_weight_zero s(1) assms(2) by blast
  then obtain y where y: "server_step cls cap s y" "server_weight y < server_weight s" "sr_received y = sr_received s" "\<not> sr_stopChan y"
    using server_progress [OF s(1,2,3) _ s(4,5,6), of cap] s(6) by auto
  have "sr_threads y \<noteq> []" using srvthreads.kept [OF y(1) refl] s(5) by auto
  then show ?thesis
    using y s server_inv_step [OF y(1) s(1)] server_up_step [OF y(1) s(2)] by (auto simp: server_ready_def)
qed

interpretation srvgo: step_progress "server_step cls cap" "server_ready cls n rs" server_weight "\<lambda>s. server_open s = {#}"
  for cls cap n rs
  by unfold_locales (rule server_lighter)


text \<open>One message of each kind that the sample server of theory \<open>RpcServer\<close> can receive, here by their numbers.\<close>

definition sample_class :: "nat \<Rightarrow> request_class" where
  "sample_class r = (if r = 0 then Malformed else if r = 1 then Rejected else if r = 2 then Shared ''room'' else Single)"

lemma two_delivered:
  "(server_step sample_class 8)\<^sup>*\<^sup>* (new_server 2 4 (NewWorkerPool 4 16 0 0) 0)
     ((new_server 2 4 (NewWorkerPool 4 16 0 0) 0)\<lparr>sr_subChan := [2, 3], sr_received := [2, 3]\<rparr>)"
proof -
  let ?s0 = "new_server 2 4 (NewWorkerPool 4 16 0 0) 0"
  let ?s1 = "?s0\<lparr>sr_subChan := [2], sr_received := [2]\<rparr>"
  have "server_step sample_class 8 ?s0 ?s1"
    using server_step.deliver [of ?s0 8 sample_class 2] by (simp add: new_server_def)
  moreover have "server_step sample_class 8 ?s1 (?s1\<lparr>sr_subChan := [2, 3], sr_received := [2, 3]\<rparr>)"
    using server_step.deliver [of ?s1 8 sample_class 3] by (simp add: new_server_def)
  ultimately show ?thesis by (simp add: new_server_def converse_rtranclp_into_rtranclp)
qed

theorem server_conserves_witness:
  "server_open ((new_server 2 4 (NewWorkerPool 4 16 0 0) 0)\<lparr>sr_subChan := [2, 3], sr_received := [2, 3]\<rparr>) = {#2, 3#}"
  using server_conserves [OF two_delivered]
  by (simp add: server_answered_def new_server_def pool_done_def) (simp add: new_pool_def)


text \<open>What the sample request of theory \<open>RpcServer\<close> is: without metadata it has no context and is rejected.\<close>

lemma classify_no_context:
  assumes "pl_unmarshal_req pl bs = Inr req" "pr_Msg req = Some m" "pr_Metadata req = []"
  shows "classify mj pl tim nuid ns h (bs, reply) = Rejected"
  using assms
  by (simp add: classify_def handle_message_def Let_def process_message_def GetContextFromRequest_def ctx_Decode_def processResponse_def)

end
