(* ===== verification/StopRun.thy ===== *)
theory StopRun
  imports App RpcClient
begin

text \<open>
  Requests to stop the app, which meet at the die channel: \<open>Shutdown\<close> of \<open>app.go\<close>, the lease renewal of \<open>cluster/etcd_service_discovery.go\<close>
  that gives up, the handler of a closed connection in \<open>cluster/nats_rpc_common.go\<close>, and signals of the operating system. The
  goroutine of \<open>Start\<close> and the requests are steps of one relation. One request of any kind stops the app, and so does any
  number of lease renewals; two requests can bring the process down or be lost.
\<close>

section \<open>States\<close>

text \<open>
  The goroutine of \<open>Start\<close>: before \<open>signal.Notify\<close>; between it and the select; waiting in the select; about to
  close the channel after a signal; stopping modules and components. \<open>Crashed\<close> is the process ended by a panic, \<open>Killed\<close> by the default
  action of a signal.
\<close>

datatype start_pc = Starting | Notified | Waiting | Closing | Stopping | Crashed | Killed

text \<open>
  A request: a call of \<open>Shutdown\<close> before its select and before its \<open>close\<close>, a send on the channel that blocks, the handler of a
  connection closed with an error, a signal. A blocked sender is counted in the channel and is \<open>Over\<close> here.
\<close>

datatype stop_pc = Checking | Shutting | Sending | ConnClosed goerror | Interrupting | Over

text \<open>
  \<open>st_woken\<close> counts the blocked senders that a \<open>close\<close> has woken up and that are about to panic; \<open>st_sg\<close> is the buffer, of one signal, of the channel \<open>sg\<close>.
\<close>

record stop_run =
  st_start :: start_pc
  st_die :: dieChan
  st_woken :: nat
  st_sg :: bool
  st_reqs :: "stop_pc list"

definition stop_init :: "stop_pc list \<Rightarrow> stop_run" where
  "stop_init reqs =
     \<lparr>st_start = Starting, st_die = \<lparr>dc_closed = False, dc_senders = 0\<rparr>, st_woken = 0, st_sg = False, st_reqs = reqs\<rparr>"

section \<open>Steps\<close>

text \<open>\<open>close(app.dieChan)\<close>: it panics on a closed channel, and wakes the blocked senders up.\<close>

definition run_close :: "stop_run \<Rightarrow> stop_run" where
  "run_close s =
     (case close_die (st_die s) of
        Ok d \<Rightarrow> s\<lparr>st_die := d\<lparr>dc_senders := 0\<rparr>, st_woken := st_woken s + dc_senders d\<rparr>
      | _ \<Rightarrow> s\<lparr>st_start := Crashed\<rparr>)"

text \<open>A send on the channel: it panics on a closed channel, meets the waiting \<open>Start\<close>, or blocks.\<close>

definition die_send :: "stop_run \<Rightarrow> stop_run" where
  "die_send s =
     (if dc_closed (st_die s) then s\<lparr>st_start := Crashed\<rparr>
      else if st_start s = Waiting then s\<lparr>st_start := Stopping\<rparr>
      else s\<lparr>st_die := (st_die s)\<lparr>dc_senders := dc_senders (st_die s) + 1\<rparr>\<rparr>)"

text \<open>A signal ends the process unless \<open>signal.Notify\<close> was called; then it is buffered, and dropped when the buffer is full.\<close>

definition raise_signal :: "stop_run \<Rightarrow> stop_run" where
  "raise_signal s = (if st_start s = Starting then s\<lparr>st_start := Killed\<rparr> else s\<lparr>st_sg := True\<rparr>)"

text \<open>The handler of a closed connection, once nobody waits for the connection to be set up: the send is ready when the channel has a receiver or is closed.\<close>

definition conn_closed :: "goerror \<Rightarrow> stop_run \<Rightarrow> stop_run" where
  "conn_closed err s =
     (if closed_handler (Some err) True (dc_closed (st_die s) \<or> st_start s = Waiting) False = [SendDie]
      then die_send s else raise_signal s)"

text \<open>One step of a request.\<close>

fun req_step :: "stop_pc \<Rightarrow> stop_run \<Rightarrow> stop_pc \<times> stop_run" where
  "req_step Checking s =
     (case die_receive (st_die s) of Some d \<Rightarrow> (Over, s\<lparr>st_die := d\<rparr>) | None \<Rightarrow> (Shutting, s))"
| "req_step Shutting s = (Over, run_close s)"
| "req_step Sending s = (Over, die_send s)"
| "req_step (ConnClosed err) s = (Over, conn_closed err s)"
| "req_step Interrupting s = (Over, raise_signal s)"
| "req_step Over s = (Over, s)"

definition alive :: "stop_run \<Rightarrow> bool" where
  "alive s \<longleftrightarrow> st_start s \<noteq> Crashed \<and> st_start s \<noteq> Killed"

inductive stop_step :: "stop_run \<Rightarrow> stop_run \<Rightarrow> bool" where
  notify: "st_start s = Starting \<Longrightarrow> stop_step s (s\<lparr>st_start := Notified\<rparr>)"
| select: "st_start s = Notified \<Longrightarrow> stop_step s (s\<lparr>st_start := Waiting\<rparr>)"
| die: "st_start s = Waiting \<Longrightarrow> die_receive (st_die s) = Some d \<Longrightarrow> stop_step s (s\<lparr>st_start := Stopping, st_die := d\<rparr>)"
| signal: "st_start s = Waiting \<Longrightarrow> st_sg s \<Longrightarrow> stop_step s (s\<lparr>st_start := Closing, st_sg := False\<rparr>)"
| close: "st_start s = Closing \<Longrightarrow> stop_step s (run_close (s\<lparr>st_start := Stopping\<rparr>))"
| woken: "alive s \<Longrightarrow> st_woken s > 0 \<Longrightarrow> stop_step s (s\<lparr>st_start := Crashed\<rparr>)"
| request: "alive s \<Longrightarrow> i < length (st_reqs s) \<Longrightarrow> st_reqs s ! i \<noteq> Over \<Longrightarrow> req_step (st_reqs s ! i) s = (q, s') \<Longrightarrow>
    stop_step s (s'\<lparr>st_reqs := (st_reqs s)[i := q]\<rparr>)"

inductive_cases stop_stepE: "stop_step s s'"

lemmas stop_ops = run_close_def die_send_def raise_signal_def conn_closed_def closed_handler_def close_die_def die_receive_def

section \<open>Every run ends\<close>

fun start_weight :: "start_pc \<Rightarrow> nat" where
  "start_weight Starting = 5"
| "start_weight Notified = 4"
| "start_weight Waiting = 3"
| "start_weight Closing = 2"
| "start_weight Stopping = 1"
| "start_weight _ = 0"

fun req_weight :: "stop_pc \<Rightarrow> nat" where
  "req_weight Checking = 2"
| "req_weight Over = 0"
| "req_weight _ = 1"

definition stop_weight :: "stop_run \<Rightarrow> nat" where
  "stop_weight s = start_weight (st_start s) + sum_list (map req_weight (st_reqs s))"

lemma run_close_frame [simp]: "st_reqs (run_close s) = st_reqs s" "st_sg (run_close s) = st_sg s"
  by (simp_all add: run_close_def close_die_def)

lemma run_close_weight: "start_weight (st_start (run_close s)) \<le> start_weight (st_start s)"
  by (simp add: run_close_def close_die_def)

lemma req_step_frame: "req_step q s = (q', s') \<Longrightarrow> st_reqs s' = st_reqs s"
  by (cases q) (auto simp: stop_ops split: if_splits)

lemma req_step_weight:
  "req_step q s = (q', s') \<Longrightarrow> q \<noteq> Over \<Longrightarrow> req_weight q' < req_weight q \<and> start_weight (st_start s') \<le> start_weight (st_start s)"
  by (cases q; cases "st_start s") (auto simp: stop_ops split: if_splits)

lemma sum_list_update_less:
  "i < length xs \<Longrightarrow> (f q :: nat) < f (xs ! i) \<Longrightarrow> sum_list (map f (xs[i := q])) < sum_list (map f xs)"
proof (induction xs arbitrary: i)
  case (Cons x xs)
  then show ?case by (cases i) auto
qed simp

lemma stop_step_weight: "stop_step s s' \<Longrightarrow> stop_weight s' < stop_weight s"
proof (induction rule: stop_step.induct)
  case (close s)
  then show ?case using run_close_weight [of "s\<lparr>st_start := Stopping\<rparr>"] by (simp add: stop_weight_def)
next
  case (woken s)
  then show ?case by (cases "st_start s") (simp_all add: stop_weight_def alive_def)
next
  case (request s i q s')
  then show ?case
    using req_step_weight [OF request.hyps(4,3)] sum_list_update_less [of i "st_reqs s" req_weight q]
    by (simp add: stop_weight_def req_step_frame)
qed (simp_all add: stop_weight_def)

lemma stop_wf: "wfp (\<lambda>s' s. stop_step s s')"
  by (rule wfp_if_convertible_to_nat [of _ stop_weight]) (rule stop_step_weight)

text \<open>Where no step is left.\<close>

lemma stuck_start:
  assumes "\<nexists>s'. stop_step s s'"
  shows "st_start s \<noteq> Starting" "st_start s \<noteq> Notified" "st_start s \<noteq> Closing"
    "st_start s = Waiting \<Longrightarrow> \<not> st_sg s" "st_start s = Waiting \<Longrightarrow> die_receive (st_die s) = None"
    "alive s \<Longrightarrow> q \<in> set (st_reqs s) \<Longrightarrow> q = Over"
proof -
  show "q = Over" if "alive s" "q \<in> set (st_reqs s)"
    using that assms stop_step.request [of s _ "fst (req_step q s)" "snd (req_step q s)"] by (metis in_set_conv_nth prod.collapse)
  show "die_receive (st_die s) = None" if "st_start s = Waiting"
    using assms stop_step.die [OF that] by (meson option.exhaust)
qed (use assms stop_step.notify stop_step.select stop_step.close stop_step.signal in metis)+

section \<open>One request\<close>

abbreviation early :: "stop_run \<Rightarrow> bool" where
  "early s \<equiv> st_start s \<in> {Starting, Notified, Waiting}"

fun by_signal :: "stop_pc \<Rightarrow> bool" where
  "by_signal (ConnClosed err) = True"
| "by_signal Interrupting = True"
| "by_signal _ = False"

text \<open>The request is still to come, it is pending in exactly one place, or the app stops.\<close>

definition pending :: "stop_pc \<Rightarrow> stop_run \<Rightarrow> bool" where
  "pending r s \<longleftrightarrow>
     (case (dc_closed (st_die s), dc_senders (st_die s), st_sg s) of
        (True, n, g) \<Rightarrow> early s \<and> n = 0 \<and> \<not> g \<and> r = Checking
      | (False, n, g) \<Rightarrow>
          (if st_start s = Closing then n = 0 \<and> \<not> g \<and> by_signal r
           else early s \<and> (n = 1 \<and> \<not> g \<and> r = Sending \<or> n = 0 \<and> g \<and> st_start s \<noteq> Starting \<and> by_signal r)))"

definition one_inv :: "stop_pc \<Rightarrow> stop_run \<Rightarrow> bool" where
  "one_inv r s \<longleftrightarrow> st_woken s = 0 \<and> (\<exists>q. st_reqs s = [q] \<and>
     (if q = Over
      then pending r s \<or> st_start s = Stopping \<or> st_start s = Killed \<and> by_signal r
      else (q = r \<or> q = Shutting \<and> r = Checking) \<and> early s \<and> \<not> dc_closed (st_die s) \<and> dc_senders (st_die s) = 0 \<and> \<not> st_sg s))"

lemma one_inv_step: "stop_step s s' \<Longrightarrow> one_inv r s \<Longrightarrow> r \<notin> {Over, Shutting} \<Longrightarrow> one_inv r s'"
proof (induction rule: stop_step.induct)
  case (request s i q s')
  then obtain p where p: "st_reqs s = [p]" "i = 0" "p \<noteq> Over" by (auto simp: one_inv_def)
  with request show ?case
    by (cases p) (auto simp: one_inv_def pending_def stop_ops split: if_splits)
qed (auto simp: one_inv_def pending_def stop_ops split: if_splits bool.splits)

interpretation onereq: step_invariant stop_step "\<lambda>s. one_inv r s \<and> r \<notin> {Over, Shutting}" for r
  by unfold_locales (use one_inv_step in blast)

lemma one_inv_stuck:
  assumes "one_inv r s" "\<nexists>s'. stop_step s s'"
  shows "st_reqs s = [Over] \<and> (st_start s = Stopping \<or> st_start s = Killed)"
proof -
  obtain q where q: "st_reqs s = [q]" using assms(1) by (auto simp: one_inv_def)
  moreover have "q \<noteq> Over \<Longrightarrow> alive s" using assms(1) q by (auto simp: one_inv_def alive_def)
  ultimately have "q = Over" using stuck_start(6) [OF assms(2)] by auto
  then show ?thesis using assms(1) q stuck_start [OF assms(2)] by (auto simp: one_inv_def pending_def die_receive_def split: if_splits bool.splits)
qed


section \<open>Any number of lease renewals\<close>

text \<open>Each goroutine that renews the lease can give up once: the channel stays open, and the first message ends the wait.\<close>

definition lease_inv :: "nat \<Rightarrow> stop_run \<Rightarrow> bool" where
  "lease_inv n s \<longleftrightarrow>
     st_woken s = 0 \<and> \<not> st_sg s \<and> \<not> dc_closed (st_die s) \<and> set (st_reqs s) \<subseteq> {Sending, Over} \<and>
     (early s \<or> st_start s = Stopping) \<and>
     count_list (st_reqs s) Sending + dc_senders (st_die s) + (if st_start s = Stopping then 1 else 0) = n"

lemma count_list_update: "i < length xs \<Longrightarrow> xs ! i = a \<Longrightarrow> b \<noteq> a \<Longrightarrow> Suc (count_list (xs[i := b]) a) = count_list xs a"
proof (induction xs arbitrary: i)
  case (Cons x xs)
  then show ?case by (cases i) auto
qed simp

lemma lease_inv_step: "stop_step s s' \<Longrightarrow> lease_inv n s \<Longrightarrow> lease_inv n s'"
proof (induction rule: stop_step.induct)
  case (request s i q s')
  then have i: "st_reqs s ! i = Sending" by (auto simp: lease_inv_def dest: nth_mem)
  have "set ((st_reqs s)[i := Over]) \<subseteq> {Sending, Over}"
    using request.prems set_update_subset_insert [of "st_reqs s" i Over] by (auto simp: lease_inv_def)
  then show ?case using request i count_list_update [of i "st_reqs s" Sending Over]
    by (auto simp: lease_inv_def die_send_def)
qed (auto simp: lease_inv_def die_receive_def split: if_splits)

interpretation leases: step_invariant stop_step "lease_inv n" for n
  by unfold_locales (rule lease_inv_step)

text \<open>
  Any number of goroutines that give up renewing the lease stop the app, without a panic and without closing the channel; all but the first stay
  blocked at the channel for ever.
\<close>

lemma lease_failures_stop:
  assumes "stop_step\<^sup>*\<^sup>* (stop_init (replicate n Sending)) s" "n > 0"
  shows "st_start s \<notin> {Crashed, Killed} \<and> \<not> dc_closed (st_die s) \<and>
    ((\<nexists>s'. stop_step s s') \<longrightarrow> st_start s = Stopping \<and> dc_senders (st_die s) = n - 1)"
proof -
  have "count_list (replicate n Sending) Sending = n" by (induction n) auto
  then have "lease_inv n (stop_init (replicate n Sending))" by (auto simp: lease_inv_def stop_init_def)
  then have inv: "lease_inv n s" using leases.steps [OF assms(1)] by blast
  moreover have "st_start s = Stopping \<and> dc_senders (st_die s) = n - 1" if stuck: "\<nexists>s'. stop_step s s'"
  proof -
    have "set (st_reqs s) \<subseteq> {Over}"
      using inv stuck_start(6) [OF stuck] by (auto simp: lease_inv_def alive_def)
    then have "Sending \<notin> set (st_reqs s)" by auto
    then have "count_list (st_reqs s) Sending = 0" by (simp add: count_list_0_iff)
    then show ?thesis using inv assms(2) stuck_start [OF stuck] by (auto simp: lease_inv_def die_receive_def split: if_splits)
  qed
  ultimately show ?thesis by (auto simp: lease_inv_def)
qed

section \<open>Two requests\<close>

text \<open>A schedule: which goroutine takes the next step, and for \<open>Start\<close> at its select, whether it takes the signal.\<close>

datatype turn = GoStart | GoSignal | GoWoken | GoReq nat

definition take_turn :: "turn \<Rightarrow> stop_run \<Rightarrow> stop_run option" where
  "take_turn t s =
     (case t of
        GoStart \<Rightarrow>
          (case st_start s of
             Starting \<Rightarrow> Some (s\<lparr>st_start := Notified\<rparr>)
           | Notified \<Rightarrow> Some (s\<lparr>st_start := Waiting\<rparr>)
           | Waiting \<Rightarrow> map_option (\<lambda>d. s\<lparr>st_start := Stopping, st_die := d\<rparr>) (die_receive (st_die s))
           | Closing \<Rightarrow> Some (run_close (s\<lparr>st_start := Stopping\<rparr>))
           | _ \<Rightarrow> None)
      | GoSignal \<Rightarrow> if st_start s = Waiting \<and> st_sg s then Some (s\<lparr>st_start := Closing, st_sg := False\<rparr>) else None
      | GoWoken \<Rightarrow> if alive s \<and> st_woken s > 0 then Some (s\<lparr>st_start := Crashed\<rparr>) else None
      | GoReq i \<Rightarrow>
          if alive s \<and> i < length (st_reqs s) \<and> st_reqs s ! i \<noteq> Over
          then (case req_step (st_reqs s ! i) s of (q, s') \<Rightarrow> Some (s'\<lparr>st_reqs := (st_reqs s)[i := q]\<rparr>))
          else None)"

fun play :: "turn list \<Rightarrow> stop_run \<Rightarrow> stop_run option" where
  "play [] s = Some s"
| "play (t # ts) s = (case take_turn t s of None \<Rightarrow> None | Some s' \<Rightarrow> play ts s')"

lemma take_turn_step: "take_turn t s = Some s' \<Longrightarrow> stop_step s s'"
  by (auto simp: take_turn_def split: turn.splits start_pc.splits if_splits prod.splits intro: stop_step.intros)

lemma play_steps: "play ts s = Some s' \<Longrightarrow> stop_step\<^sup>*\<^sup>* s s'"
proof (induction ts arbitrary: s)
  case (Cons t ts)
  then show ?case by (auto split: option.splits dest: take_turn_step intro: converse_rtranclp_into_rtranclp)
qed simp

lemma play_reaches: "map_option P (play ts s) = Some True \<Longrightarrow> \<exists>s'. stop_step\<^sup>*\<^sup>* s s' \<and> P s'"
  using play_steps by auto

definition crashes :: "stop_pc list \<Rightarrow> bool" where
  "crashes reqs \<longleftrightarrow> (\<exists>s. stop_step\<^sup>*\<^sup>* (stop_init reqs) s \<and> st_start s = Crashed)"

lemma play_crashes: "map_option (\<lambda>s. st_start s = Crashed) (play ts (stop_init reqs)) = Some True \<Longrightarrow> crashes reqs"
  unfolding crashes_def by (rule play_reaches)

lemmas play_simps = take_turn_def stop_init_def stop_ops alive_def

text \<open>Signals alone: only \<open>Start\<close> closes the channel, and it does so once.\<close>

definition signals_inv :: "stop_run \<Rightarrow> bool" where
  "signals_inv s \<longleftrightarrow>
     st_woken s = 0 \<and> dc_senders (st_die s) = 0 \<and> set (st_reqs s) \<subseteq> {Interrupting, Over} \<and> st_start s \<noteq> Crashed \<and>
     (dc_closed (st_die s) \<longrightarrow> st_start s = Stopping)"

lemma signals_inv_step: "stop_step s s' \<Longrightarrow> signals_inv s \<Longrightarrow> signals_inv s'"
proof (induction rule: stop_step.induct)
  case (request s i q s')
  then have i: "st_reqs s ! i = Interrupting" by (auto simp: signals_inv_def dest: nth_mem)
  have "set ((st_reqs s)[i := Over]) \<subseteq> {Interrupting, Over}"
    using request.prems set_update_subset_insert [of "st_reqs s" i Over] by (auto simp: signals_inv_def)
  then show ?case using request i by (auto simp: signals_inv_def raise_signal_def split: if_splits)
qed (auto simp: signals_inv_def stop_ops split: if_splits)

interpretation signals: step_invariant stop_step signals_inv
  by unfold_locales (rule signals_inv_step)

lemma signals_safe: "\<not> crashes [Interrupting, Interrupting]"
  using signals.steps by (fastforce simp: crashes_def signals_inv_def stop_init_def)

lemma leases_safe: "\<not> crashes [Sending, Sending]"
  using leases.steps [where n = 2] by (fastforce simp: crashes_def lease_inv_def stop_init_def)

text \<open>
  The schedules that end in a panic, for each pair of requests. The channel is closed twice, by two calls of \<open>Shutdown\<close> or by one and
  \<open>Start\<close>; or a sender meets the closed channel, or is blocked when it is closed.
\<close>

lemma crash_shutdown:
  "crashes [Checking, Checking]" "crashes [Checking, Sending]" "crashes [Sending, Checking]"
  "crashes [Checking, ConnClosed err]" "crashes [ConnClosed err, Checking]"
  "crashes [Checking, Interrupting]" "crashes [Interrupting, Checking]"
proof -
  show "crashes [Checking, Checking]"
    by (rule play_crashes [of "[GoReq 0, GoReq 1, GoReq 0, GoReq 1]"]) (simp add: play_simps)
  show "crashes [Checking, Sending]" "crashes [Checking, ConnClosed err]"
    by (rule play_crashes [of "[GoReq 0, GoReq 0, GoReq 1]"], simp add: play_simps)+
  show "crashes [Sending, Checking]" "crashes [ConnClosed err, Checking]"
    by (rule play_crashes [of "[GoReq 1, GoReq 1, GoReq 0]"], simp add: play_simps)+
  show "crashes [Checking, Interrupting]"
    by (rule play_crashes [of "[GoStart, GoStart, GoReq 0, GoReq 1, GoSignal, GoStart, GoReq 0]"]) (simp add: play_simps)
  show "crashes [Interrupting, Checking]"
    by (rule play_crashes [of "[GoStart, GoStart, GoReq 1, GoReq 0, GoSignal, GoStart, GoReq 1]"]) (simp add: play_simps)
qed

lemma crash_signal:
  "crashes [Interrupting, Sending]" "crashes [Sending, Interrupting]"
  "crashes [Interrupting, ConnClosed err]" "crashes [ConnClosed err, Interrupting]"
  "crashes [ConnClosed err, Sending]" "crashes [Sending, ConnClosed err]" "crashes [ConnClosed err, ConnClosed err']"
proof -
  show "crashes [Interrupting, Sending]" "crashes [Interrupting, ConnClosed err]"
    "crashes [ConnClosed err, Sending]" "crashes [ConnClosed err, ConnClosed err']"
    by (rule play_crashes [of "[GoStart, GoReq 0, GoStart, GoSignal, GoStart, GoReq 1]"], simp add: play_simps)+
  show "crashes [Sending, Interrupting]" "crashes [ConnClosed err, Interrupting]" "crashes [Sending, ConnClosed err]"
    by (rule play_crashes [of "[GoStart, GoReq 1, GoStart, GoSignal, GoStart, GoReq 0]"], simp add: play_simps)+
qed

text \<open>
  C30: which two requests to stop can bring the process down by a panic: every pair, except two signals and two lease renewals that give up.
\<close>

theorem two_requests_crash:
  assumes "p \<notin> {Over, Shutting}" "q \<notin> {Over, Shutting}"
  shows "crashes [p, q] \<longleftrightarrow> \<not> (p = q \<and> p \<in> {Sending, Interrupting})"
  using assms crash_shutdown crash_signal signals_safe leases_safe by (cases p; cases q) auto

theorem two_requests_crash_witness: "crashes [Checking, Checking] \<and> \<not> crashes [Interrupting, Interrupting]"
  using two_requests_crash [of Checking Checking] two_requests_crash [of Interrupting Interrupting] by simp

text \<open>
  Two requests can also be lost: a lease renewal that gives up while the app starts waits at the channel, \<open>Shutdown\<close> takes its message, and
  then the app waits with nobody left to stop it.
\<close>

lemma requests_lost:
  "\<exists>s. stop_step\<^sup>*\<^sup>* (stop_init [Checking, Sending]) s \<and> st_start s = Waiting \<and> st_reqs s = [Over, Over] \<and> (\<nexists>s'. stop_step s s')"
proof -
  let ?s = "\<lparr>st_start = Waiting, st_die = \<lparr>dc_closed = False, dc_senders = 0\<rparr>, st_woken = 0, st_sg = False, st_reqs = [Over, Over]\<rparr>"
  have "play [GoReq 1, GoReq 0, GoStart, GoStart] (stop_init [Checking, Sending]) = Some ?s"
    by (simp add: play_simps)
  moreover have "\<nexists>s'. stop_step ?s s'" by (auto elim!: stop_stepE simp: die_receive_def less_Suc_eq)
  ultimately show ?thesis using play_steps by fastforce
qed

section \<open>The first two properties on a run\<close>

lemma stopped_stuck:
  "\<nexists>s'. stop_step \<lparr>st_start = Stopping, st_die = d, st_woken = 0, st_sg = g, st_reqs = [Over]\<rparr> s'"
  by (auto elim!: stop_stepE)


end
