(* ===== verification/Spec2Isabelle.thy ===== *)
theory Spec2Isabelle
  imports Packet Discovery RegistryRun CallReport Facade ServerRun StopRun
begin

text \<open>
  A verification development for nrpc, an RPC framework in Go: servers find each other through etcd, call each other
  over NATS, and run the methods of user components. The theories follow the packages of the source.

  \<^bold>\<open>The program and its parts.\<close> A user builds an app (\<open>builder.go\<close>), registers components and modules, and starts it. Starting brings up
  an RPC client, an RPC server (both NATS) and the service discovery (etcd). A call (\<open>rpc.go\<close>) goes through the remote service, which asks the
  router for a server of the wanted type, which asks the service discovery; the RPC client propagates the
  context, sends a request and reads the answer. On the other side the RPC server checks the request, dispatches it to the worker pool or a
  goroutine, and the remote service finds the method by its route and calls it between hooks.

  \<^bold>\<open>Theories and sources.\<close>
  \<^item> \<open>Prelude\<close>: Go values: outcomes of a call (value, error, panic), maps as association lists whose order is one
    possible iteration order, bytes, strings, decimal printing. The locales \<open>codec\<close> (printer and parser; interpreted on packets, routes, etcd keys and
    the JSON of servers), \<open>step_invariant\<close> and \<open>step_progress\<close> (interpreted on every step relation of the development).
  \<^item> \<open>Packet\<close>: \<open>conn/codec\<close>, \<open>conn/packet\<close>. A stream of encoded packets with an incomplete tail decodes to those packets;
    every accepted stream is such a stream; the one length the encoder gets wrong.
  \<^item> \<open>Compression\<close>, \<open>Message\<close>: \<open>util/compression\<close>, \<open>conn/message\<close>. The message codec is a round trip over a consistent dictionary;
    setting the dictionary keeps it consistent; the exact inputs on which decoding panics; encoding changes the message it is given.
  \<^item> \<open>Errors\<close>, \<open>Route\<close>, \<open>Server\<close>: \<open>errors\<close>, \<open>constants/errors.go\<close>, \<open>route\<close>, \<open>cluster/server.go\<close> and the key and JSON functions of the service discovery.
  \<^item> \<open>Config\<close>, \<open>ViperConfig\<close>: \<open>config\<close>, \<open>metrics/models\<close>. The defaults, how they are filled in, and the two keys that nothing reads.
  \<^item> \<open>Registry\<close>, \<open>ParallelGetter\<close>, \<open>Discovery\<close>, \<open>SyncGate\<close>: \<open>cluster/etcd_service_discovery.go\<close>. The two maps of known servers implement one
    abstract map (locales \<open>discovery\<close>, \<open>discovery_updates\<close>, interpreted as \<open>sdreg\<close>); the workers of the first synchronisation collect
    exactly the successful loads in every interleaving; invariants of all reachable states of the service discovery, what a
    synchronisation leaves behind, what listeners are told, how the lease renewal loop ends; the channel that keeps watcher and synchronisation apart.
  \<^item> \<open>RegistryRun\<close>: the same registry at the grain of its locks, with the watcher and the goroutines that synchronise as one step relation. With one synchronising
    goroutine it is linearizable; with two, a deleted server can stay in one of the maps for ever.
  \<^item> \<open>Context\<close>, \<open>Tracing\<close>, \<open>RpcUtil\<close>: \<open>context\<close>, \<open>tracing\<close>, \<open>util/util.go\<close>, the messages of \<open>protos/request.pb.go\<close>. Contexts
    hold addresses of maps in a heap, so that sharing between contexts is visible.
  \<^item> \<open>RpcClient\<close>, \<open>RpcServer\<close>: \<open>cluster/nats_rpc_client.go\<close>, \<open>nats_rpc_common.go\<close>, \<open>nats_rpc_server.go\<close>, \<open>buildRequest\<close>. The outcome of a call for
    every answer; the server accepts what the client sends; every request is answered exactly once; what brings the server down.
  \<^item> \<open>WorkerPool\<close>, \<open>PoolRun\<close>: \<open>cluster/worker_pool.go\<close>. One queue as a step relation: tasks run in order and none is lost; the
    deadlock with the cleanup; the race in choosing a queue. The whole pool with any number of submitting goroutines: the tasks of
    a share id go to one queue and run in the order of submission; a submit can panic exactly when the cleanup runs.
  \<^item> \<open>ServerRun\<close>: the goroutines of \<open>cluster/nats_rpc_server.go\<close> around one state, with the pool and the semaphore. No request is lost or
    answered twice, the semaphore bounds what runs, and everything received can be answered.
  \<^item> \<open>Logger\<close>: \<open>logger\<close>. The default logger and the loggers derived from it; a log call as four steps: calls of one logger do not
    mix, calls of derived loggers do.
  \<^item> \<open>Component\<close>, \<open>RemoteService\<close>, \<open>Pipeline\<close>, \<open>Router\<close>: \<open>component\<close>, \<open>service\<close>, \<open>pipeline\<close>, \<open>router\<close>. Which methods can be called; a registered
    method is served; which requests panic; the rate limiter is a sliding window; the default routing is a client of the locale \<open>discovery\<close>.
  \<^item> \<open>Metrics\<close>, \<open>CallReport\<close>: \<open>metrics\<close>, and \<open>Call\<close> of the RPC client with its deferred report. When reports panic, that metric tags do not
    survive a call, and that every call that was sent is reported once with its outcome.
  \<^item> \<open>App\<close>, \<open>Builder\<close>, \<open>Facade\<close>: \<open>app.go\<close>, \<open>module.go\<close>, \<open>component.go\<close>, \<open>rpc.go\<close>, \<open>builder.go\<close>, \<open>reporters.go\<close>, \<open>serialize\<close>, \<open>static.go\<close>. The order of
    starting and stopping; a server is announced last; an app never calls itself; the parts of a built app fit together; a session through the package
    functions from \<open>Configure\<close> to the stop; a share key reaches the worker pool of the server.
  \<^item> \<open>StopRun\<close>: the die channel of \<open>app.go\<close> with everything that asks the app to stop: \<open>Shutdown\<close>, a lease renewal that gives up, a closed connection, signals. One
    request stops the app in every interleaving; which two can panic, and how two can be lost.
  \<^item> This theory: a call from end to end, over registration, the RPC server and the RPC client.

  \<^bold>\<open>State and effects.\<close> Objects are records, operations functions that return the new object; goroutines that share an object are steps of
  an inductive relation (\<open>pg_step\<close>, \<open>gate_step\<close>, \<open>get_step\<close>, \<open>wq_step\<close>, \<open>pool_step\<close>, \<open>server_step\<close>, \<open>log_step\<close>, \<open>run_step\<close>, \<open>stop_step\<close>) or inputs of a reachability relation (\<open>sd_step\<close>). What an operation does to the
  outside (requests to etcd, events of modules, published replies) is recorded in the order it happens. \<open>logger.Fatal\<close> ends the process.

  \<^bold>\<open>Parameters.\<close> Code that is not part of the repository is an argument: zlib (\<open>zlib\<close>), the JSON codecs (\<open>json_codec\<close>, \<open>mapjson\<close>), protocol buffers
  (\<open>protolib\<close>, \<open>valuelib\<close>), durations (\<open>timelib\<close>), NATS (\<open>nats_env\<close>), etcd (\<open>etcd_env\<close>), the tracer, viper, the Prometheus and statsd clients, the validator, random numbers, the
  clock, and the user's methods, modules and hooks. What a theorem needs of them (lossless encoding, the range of a random number, \<open>With\<close> of Prometheus, the
  layers of viper) is a hypothesis of the theorem, and its witness gives an instance.

  \<^bold>\<open>Bounds.\<close> Loops are structural recursions over what they range over or terminate by a measure. The wait of
  \<open>drainAndClose\<close> is at most 50 ticks, as in the code (5 s by 100 ms); the lease renewal loop ends by \<open>MaxRetries\<close>; the
  watcher counts at most ten failures before it makes a new client. Endless loops (receiving, processing, watching, reporting) are modelled by the step they repeat.

  \<^bold>\<open>Not modelled.\<close> The reflection code and getters of generated messages, mocks, test helpers and the demo; what the other
  parts log. Floating point rounding, memory and scheduling costs are outside the model. \<open>Stop\<close> of the
  worker pool, which no part of the program calls, is not interleaved with the steps of a queue.
\<close>

section \<open>A call from end to end\<close>

text \<open>
  What the caller of a remote method sees, given what the method returned: its value; an nrpc error
  with its code (unknown when empty), text and metadata (empty metadata is none); any other error as an nrpc error of unknown code.
\<close>

definition caller_sees :: "'v valuelib \<Rightarrow> 'v option \<times> goerror option \<Rightarrow> (goerror, p_response) outcome" where
  "caller_sees va res =
     (let unknown = (\<lambda>text. Err (NrpcError \<lparr>ne_Code = ErrUnknownCode, ne_Message = text, ne_Metadata = None\<rparr>)) in
      case res of
        (_, Some (NrpcError n)) \<Rightarrow>
          Err (NrpcError (n\<lparr>ne_Code := if ne_Code n = '''' then ErrUnknownCode else ne_Code n,
            ne_Metadata := md_ptr (md_list (ne_Metadata n))\<rparr>))
      | (_, Some e) \<Rightarrow> unknown (err_Error e)
      | (None, None) \<Rightarrow> Ok \<lparr>ps_Data = [], ps_Error = None\<rparr>
      | (Some v, None) \<Rightarrow>
          (case va_print va v of
             Some (Inr b) \<Rightarrow> Ok \<lparr>ps_Data = b, ps_Error = None\<rparr>
           | Some (Inl e) \<Rightarrow> unknown (err_Error e)
           | None \<Rightarrow> unknown (err_Error ErrWrongValueType)))"

text \<open>The remote service as the handler of the RPC server, for a request on which it does not panic.\<close>

definition rpc_handler :: "tracer \<Rightarrow> mapjson \<Rightarrow> string \<Rightarrow> 'v valuelib \<Rightarrow> (Remote \<Rightarrow> ctx \<Rightarrow> 'v option \<Rightarrow> 'v call_result) \<Rightarrow>
    'v RemoteService \<Rightarrow> heap \<Rightarrow> p_request \<Rightarrow> p_response \<times> goerror option" where
  "rpc_handler tr mj nuid va invoke r h req =
     (case rs_Call tr mj nuid va invoke r req h of
        Ok out \<Rightarrow> out
      | _ \<Rightarrow> (error_response ErrInternalCode '''' [], None))"

lemma read_response:
  assumes "msg_Type msg = Request" "pl_marshal_req pl req = Inr data"
    and "nv_Request nv (getChannel (sv_Type sv) (sv_ID sv)) data (case tl_Parse tim t of Inl _ \<Rightarrow> 0 | Inr d \<Rightarrow> d) = Inr bs"
    and "pl_unmarshal_resp pl bs = Inr (response_of va res)"
  shows "send_call pl tim nv nc rt msg sv req (GString t) = caller_sees va res"
proof -
  obtain ret err where res: "res = (ret, err)" by (cases res)
  show ?thesis
  proof (cases err)
    case (Some e)
    then show ?thesis
      using assms res
      by (cases e; cases ret) (simp_all add: send_call_def is_string_def caller_sees_def response_of_def error_response_def
          is_nrpc_def md_ptr_def ErrUnknownCode_def)
  next
    case None
    then show ?thesis
      using assms res
      by (auto simp: send_call_def is_string_def caller_sees_def response_of_def error_response_def md_ptr_def ErrUnknownCode_def
          split: option.splits sum.splits)
  qed
qed

text \<open>
  C1: a call from end to end. A component is registered at a server. A request that names one of its methods arrives there in
  time, is handled in a goroutine, and the bytes the server answers with are what the caller's NATS request returns. Then the server answers once, on the reply
  subject, and the caller gets exactly what the method returned or panicked with: the value, or the error with code, text and metadata. The
  hypotheses on the libraries: the response survives protocol buffer encoding; the request could be marshalled.
\<close>

theorem call_end_to_end:
  fixes r :: "'v RemoteService" and va :: "'v valuelib"
  assumes "Register u cmp opts r = (Ok (), r')" "rs_hooks r = NewRemoteHooks"
    and "gm_get (suitableRemoteMethods (co_methods cmp) (op_nameFunc (se_Options (NewService cmp opts)))) mn = Some remote"
    and "pr_Msg req = Some m" "pm_Type m \<noteq> MsgType_MsgNotify"
    and "route_Decode (pm_Route m) = Ok rt" "Service rt = se_Name (NewService cmp opts)" "Method rt = mn"
    and "(if rm_HasArgs remote then unmarshalRemoteArg va remote (pm_Data m) else Ok None) = Ok arg"
    and "GetContextFromRequest mj nuid req h = Ok (c0, h0)"
    and "StartSpanFromRequest tr (Some c0) (sv_ID (rs_server r')) (pm_Route m) h0 = Ok (Some c)"
    and "ns_sempWeighted ns \<noteq> None" "since \<le> go_half timeout"
    and "res = Pcall (me_Name (rm_Method remote)) (invoke (remote\<lparr>rm_Receiver := Some cmp\<rparr>) c (if rm_HasArgs remote then arg else None))"
    and "pl_marshal_resp pl (response_of va res) = Inr bs" "pl_unmarshal_resp pl bs = Inr (response_of va res)"
    and "msg_Type msg = Request" "pl_marshal_req pl req = Inr data"
    and "nv_Request nv (getChannel (sv_Type sv) (sv_ID sv)) data (case tl_Parse tim t of Inl _ \<Rightarrow> 0 | Inr d \<Rightarrow> d) =
      (case spawned_task pl (rpc_handler tr mj nuid va invoke r' h) ns None since False req timeout of
         Ok [(_, out)] \<Rightarrow> Inr out | _ \<Rightarrow> Inl (True, ErrRPCRequestTimeout))"
  shows "spawned_task pl (rpc_handler tr mj nuid va invoke r' h) ns None since False req timeout = Ok [(pm_Reply m, bs)] \<and>
    send_call pl tim nv nc rt' msg sv req (GString t) = caller_sees va res"
proof -
  have m: "GetMsg req = m" using assms(4) by (simp add: GetMsg_def)
  have "processRemoteMessage va invoke r' c req = Ok (response_of va res)"
    unfolding assms(14) by (rule processRemoteMessage_registered [where rt = rt, OF assms(1-3)]) (simp_all only: m assms(6-9))
  then have "rpc_handler tr mj nuid va invoke r' h req = (response_of va res, None)"
    using assms(10,11) m by (simp add: rpc_handler_def rs_Call_def)
  then have s: "spawned_task pl (rpc_handler tr mj nuid va invoke r' h) ns None since False req timeout = Ok [(pm_Reply m, bs)]"
    using assms(4,5,12,13,15) by (auto simp: spawned_task_def processRequest_def processResponse_def marshalResponse_def Let_def)
  then show ?thesis
    using read_response [OF assms(17,18) _ assms(16)] assms(19) by simp
qed

definition full_error :: nerror where
  "full_error = \<lparr>ne_Code = ''GAME-1'', ne_Message = ''room is full'', ne_Metadata = Some [(''room'', ''7'')]\<rparr>"

text \<open>A method that fails with this error; a protocol buffer library that knows the one response needed.\<close>

definition sample_invoke :: "Remote \<Rightarrow> ctx \<Rightarrow> nat option \<Rightarrow> nat call_result" where
  "sample_invoke = (\<lambda>_ _ _. TwoResults None (Some (NrpcError full_error)))"

definition sample_values :: "nat valuelib" where
  "sample_values = \<lparr>va_parse = \<lambda>_ _. None, va_print = \<lambda>_. None\<rparr>"

definition sample_wire :: protolib where
  "sample_wire = sample_proto\<lparr>pl_unmarshal_resp := \<lambda>_. Inr (error_response ''GAME-1'' ''room is full'' [(''room'', ''7'')])\<rparr>"

definition sample_request :: p_request where
  "sample_request = \<lparr>pr_Msg = Some (zero_msg\<lparr>pm_Route := ''game.Room.Join'', pm_Reply := ''inbox'', pm_Type := 1\<rparr>), pr_Metadata = [1]\<rparr>"

lemma sample_request_context:
  "\<exists>c0 h0 c. GetContextFromRequest sample_codec ''n1'' sample_request \<lparr>hp_next = 0, hp_map = \<lambda>_. []\<rparr> = Ok (c0, h0) \<and>
     StartSpanFromRequest sample_tracer (Some c0) ident ''game.Room.Join'' h0 = Ok (Some c)"
  by (simp add: GetContextFromRequest_def ctx_Decode_def sample_codec_def sample_request_def new_map_def
      GetFromPropagateCtx_def ToMap_def FromMap_def read_map_def sample_sent_def gm_get_def gm_put_def ctx_keys is_string_def
      AddToPropagateCtx_def map_assign_def ctx_WithValue_def CtxWithDefaultLogger_def GetMsg_def zero_msg_def Let_def
      StartSpanFromRequest_def ExtractSpan_def SpanFromContext_def castValueToCarrier_def sample_tracer_def tr_StartSpanCtx_def)

theorem call_end_to_end_witness:
  "\<exists>nv. send_call sample_wire sample_time nv sample_client (NewRoute ''game'' ''Room'' ''Join'') sample_msg sample_server sample_request
     (GString ''5s'') = Err (NrpcError full_error)"
proof -
  let ?h = "\<lparr>hp_next = 0, hp_map = \<lambda>_. []\<rparr>" and ?m = "zero_msg\<lparr>pm_Route := ''game.Room.Join'', pm_Reply := ''inbox'', pm_Type := 1\<rparr>"
  obtain r' where r: "Register (\<lambda>_. False) sample_component [] sample_remotes = (Ok (), r')"
    using sample_registered(4) ..
  obtain c0 h0 c where c: "GetContextFromRequest sample_codec ''n1'' sample_request ?h = Ok (c0, h0)"
    "StartSpanFromRequest sample_tracer (Some c0) (sv_ID (rs_server r')) (pm_Route ?m) h0 = Ok (Some c)"
    using sample_request_context [of "sv_ID (rs_server r')"] by auto
  define nv where "nv = \<lparr>nv_Request = \<lambda>_ _ _.
      (case spawned_task sample_wire (rpc_handler sample_tracer sample_codec ''n1'' sample_values sample_invoke r' ?h)
          sample_rpcserver None 0 False sample_request 10 of
         Ok [(_, out)] \<Rightarrow> Inr out | _ \<Rightarrow> Inl (True, ErrRPCRequestTimeout)), nv_Publish = \<lambda>_ _. None\<rparr>"
  have m: "pr_Msg sample_request = Some ?m" "pm_Type ?m \<noteq> MsgType_MsgNotify"
    by (simp_all add: sample_request_def MsgType_MsgNotify_def)
  have rt: "route_Decode (pm_Route ?m) = Ok \<lparr>SvType = ''game'', Service = ''Room'', Method = ''Join''\<rparr>"
    by (simp add: sample_registered)
  have w: "response_of sample_values (None, Some (NrpcError full_error)) = error_response ''GAME-1'' ''room is full'' [(''room'', ''7'')]"
    by (simp add: response_of_def is_nrpc_def full_error_def md_list_def)
  have "send_call sample_wire sample_time nv sample_client (NewRoute ''game'' ''Room'' ''Join'') sample_msg sample_server sample_request (GString ''5s'') =
      caller_sees sample_values (None, Some (NrpcError full_error))"
    by (rule conjunct2, rule call_end_to_end [OF r sample_registered(3,1) m rt _ _ _ c, where arg = None and ns = sample_rpcserver and
        since = 0 and timeout = 10 and bs = "[1]" and data = "[1]" and va = sample_values and invoke = sample_invoke])
      (simp_all add: sample_registered sample_semaphore go_half_def sample_invoke_def Pcall_def w sample_wire_def sample_proto_def
        sample_msg_def nv_def)
  then show ?thesis
    by (auto simp: caller_sees_def full_error_def md_ptr_def md_list_def)
qed

end
